theory Spec2Isabelle
  imports Main
begin

section \<open>Go library functions the program calls\<close>

text \<open>
  A Go \<^verbatim>\<open>string\<close> is a sequence of bytes; it is modelled as a \<^typ>\<open>string\<close>
  (a list of \<^typ>\<open>char\<close>, one per byte).  Go's \<^verbatim>\<open>int\<close> is modelled as
  \<^typ>\<open>int\<close>; where the program multiplies, adds or subtracts counters the 64-bit
  wrap-around is written out with \<open>wrap64\<close>.
\<close>

definition wrap64 :: "int \<Rightarrow> int" where
  "wrap64 x = (x + 2 ^ 63) mod 2 ^ 64 - 2 ^ 63"

definition hasPrefix :: "string \<Rightarrow> string \<Rightarrow> bool" where
  "hasPrefix s p = (take (length p) s = p)"

lemma hasPrefix_code [code]:
  "hasPrefix s [] = True"
  "hasPrefix [] (c # p) = False"
  "hasPrefix (x # s) (c # p) = (x = c \<and> hasPrefix s p)"
  by (auto simp add: hasPrefix_def)

definition hasSuffix :: "string \<Rightarrow> string \<Rightarrow> bool" where
  "hasSuffix s p = (length p \<le> length s \<and> drop (length s - length p) s = p)"

text \<open>\<^verbatim>\<open>strings.Index\<close>: the position of the first occurrence, \<open>-1\<close> when there is none.\<close>

fun strIndex :: "string \<Rightarrow> string \<Rightarrow> int" where
  "strIndex [] sub = (if sub = [] then 0 else - 1)"
| "strIndex (c # cs) sub =
     (if hasPrefix (c # cs) sub then 0
      else (let i = strIndex cs sub in if i < 0 then - 1 else i + 1))"

definition strContains :: "string \<Rightarrow> string \<Rightarrow> bool" where
  "strContains s sub = (0 \<le> strIndex s sub)"

text \<open>
  \<^verbatim>\<open>strings.Split\<close>; every call of the program passes a separator of one byte.
  The result is never empty: \<^verbatim>\<open>Split("", sep)\<close> is the list of the empty string.
\<close>

fun strSplit :: "string \<Rightarrow> char \<Rightarrow> string list" where
  "strSplit [] sep = [[]]"
| "strSplit (c # cs) sep =
     (if c = sep then [] # strSplit cs sep
      else (case strSplit cs sep of [] \<Rightarrow> [[c]] | w # ws \<Rightarrow> (c # w) # ws))"

text \<open>
  The UTF-8 encodings of the runes for which \<^verbatim>\<open>unicode.IsSpace\<close> holds: the ASCII
  white space, U+0085, U+00A0, U+1680, U+2000 to U+200A, U+2028, U+2029, U+202F, U+205F
  and U+3000.  No encoding is a prefix of another, and none starts with a continuation
  byte, so scanning bytes for these encodings finds the same white space as Go's
  decoding of runes does.
\<close>

definition spaceRunes :: "string list" where
  "spaceRunes =
     [[CHR 0x09], [CHR 0x0A], [CHR 0x0B], [CHR 0x0C], [CHR 0x0D], [CHR 0x20],
      [CHR 0xC2, CHR 0x85], [CHR 0xC2, CHR 0xA0],
      [CHR 0xE1, CHR 0x9A, CHR 0x80],
      [CHR 0xE2, CHR 0x80, CHR 0x80], [CHR 0xE2, CHR 0x80, CHR 0x81],
      [CHR 0xE2, CHR 0x80, CHR 0x82], [CHR 0xE2, CHR 0x80, CHR 0x83],
      [CHR 0xE2, CHR 0x80, CHR 0x84], [CHR 0xE2, CHR 0x80, CHR 0x85],
      [CHR 0xE2, CHR 0x80, CHR 0x86], [CHR 0xE2, CHR 0x80, CHR 0x87],
      [CHR 0xE2, CHR 0x80, CHR 0x88], [CHR 0xE2, CHR 0x80, CHR 0x89],
      [CHR 0xE2, CHR 0x80, CHR 0x8A],
      [CHR 0xE2, CHR 0x80, CHR 0xA8], [CHR 0xE2, CHR 0x80, CHR 0xA9],
      [CHR 0xE2, CHR 0x80, CHR 0xAF],
      [CHR 0xE2, CHR 0x81, CHR 0x9F],
      [CHR 0xE3, CHR 0x80, CHR 0x80]]"

text \<open>The width of the white-space rune a string starts (ends) with; 0 when it has none.\<close>

definition spacePrefixLen :: "string \<Rightarrow> nat" where
  "spacePrefixLen s = (case filter (hasPrefix s) spaceRunes of [] \<Rightarrow> 0 | r # _ \<Rightarrow> length r)"

definition spaceSuffixLen :: "string \<Rightarrow> nat" where
  "spaceSuffixLen s = (case filter (hasSuffix s) spaceRunes of [] \<Rightarrow> 0 | r # _ \<Rightarrow> length r)"

lemma spaceRunes_nonempty: "r \<in> set spaceRunes \<Longrightarrow> 0 < length r"
  by (auto simp: spaceRunes_def)

lemma hasPrefix_length: "hasPrefix s p \<Longrightarrow> length p \<le> length s"
proof -
  assume "hasPrefix s p"
  then have "length (take (length p) s) = length p" by (simp add: hasPrefix_def)
  then show ?thesis by simp
qed

lemma hasSuffix_length: "hasSuffix s p \<Longrightarrow> length p \<le> length s"
  by (simp add: hasSuffix_def)

lemma spacePrefixLen_le: "spacePrefixLen s \<le> length s"
proof (cases "filter (hasPrefix s) spaceRunes")
  case Nil
  then show ?thesis by (simp add: spacePrefixLen_def)
next
  case (Cons r rs)
  then have "r \<in> set (filter (hasPrefix s) spaceRunes)" by simp
  then have "hasPrefix s r" by simp
  then have "length r \<le> length s" by (rule hasPrefix_length)
  with Cons show ?thesis by (simp add: spacePrefixLen_def)
qed

lemma spaceSuffixLen_le: "spaceSuffixLen s \<le> length s"
proof (cases "filter (hasSuffix s) spaceRunes")
  case Nil
  then show ?thesis by (simp add: spaceSuffixLen_def)
next
  case (Cons r rs)
  then have "r \<in> set (filter (hasSuffix s) spaceRunes)" by simp
  then have "hasSuffix s r" by simp
  then have "length r \<le> length s" by (rule hasSuffix_length)
  with Cons show ?thesis by (simp add: spaceSuffixLen_def)
qed

function trimLeftSpace :: "string \<Rightarrow> string" where
  "trimLeftSpace s =
     (if spacePrefixLen s = 0 then s else trimLeftSpace (drop (spacePrefixLen s) s))"
  by pat_completeness auto
termination
proof (relation "measure length")
  show "wf (measure length)" by simp
next
  fix s :: string
  assume "spacePrefixLen s \<noteq> 0"
  moreover have "spacePrefixLen s \<le> length s" by (rule spacePrefixLen_le)
  ultimately show "(drop (spacePrefixLen s) s, s) \<in> measure length" by simp
qed

function trimRightSpace :: "string \<Rightarrow> string" where
  "trimRightSpace s =
     (if spaceSuffixLen s = 0 then s
      else trimRightSpace (take (length s - spaceSuffixLen s) s))"
  by pat_completeness auto
termination
proof (relation "measure length")
  show "wf (measure length)" by simp
next
  fix s :: string
  assume "spaceSuffixLen s \<noteq> 0"
  moreover have "spaceSuffixLen s \<le> length s" by (rule spaceSuffixLen_le)
  ultimately show "(take (length s - spaceSuffixLen s) s, s) \<in> measure length" by simp
qed

declare trimLeftSpace.simps [simp del]
declare trimRightSpace.simps [simp del]

text \<open>\<^verbatim>\<open>strings.TrimSpace\<close>: leading white space is cut first, then trailing.\<close>

definition trimSpace :: "string \<Rightarrow> string" where
  "trimSpace s = trimRightSpace (trimLeftSpace s)"

section \<open>The snapshot loader: counting staged and unstaged files\<close>

text \<open>
  \<^verbatim>\<open>parseGitStatusOutput\<close> (main.go and the tabbed implementation compute the same
  counts; main.go also writes a debug log).  One pass of the loop body over a line,
  with the two counters as the state:
\<close>

definition statusLineStep :: "int \<times> int \<Rightarrow> string \<Rightarrow> int \<times> int" where
  "statusLineStep acc line =
     (case acc of (stagedFiles, unstagedFiles) \<Rightarrow>
        if trimSpace line = [] then (stagedFiles, unstagedFiles)
        else if 2 \<le> length line then
          (let stagedStatus = line ! 0;
               unstagedStatus = line ! 1
           in (if stagedStatus \<noteq> CHR '' '' \<and> stagedStatus \<noteq> CHR ''?''
               then stagedFiles + 1 else stagedFiles,
               if unstagedStatus \<noteq> CHR '' '' then unstagedFiles + 1 else unstagedFiles))
        else (stagedFiles, unstagedFiles))"

definition parseGitStatusOutput :: "string \<Rightarrow> int \<times> int \<times> bool" where
  "parseGitStatusOutput statusText =
     (if statusText = [] then (0, 0, True)
      else (case foldl statusLineStep (0, 0) (strSplit statusText (CHR 0x0A)) of
              (stagedFiles, unstagedFiles) \<Rightarrow> (stagedFiles, unstagedFiles, False)))"

text \<open>
  What the specification says of one line \<open>XY path\<close>: it counts as staged when it is
  not blank and \<open>X\<close> is neither a space nor a question mark, as unstaged when it is not
  blank and \<open>Y\<close> is not a space.
\<close>

definition blankLine :: "string \<Rightarrow> bool" where
  "blankLine line = (trimSpace line = [])"

fun stagedLine :: "string \<Rightarrow> bool" where
  "stagedLine (x # y # path) = (\<not> blankLine (x # y # path) \<and> x \<noteq> CHR '' '' \<and> x \<noteq> CHR ''?'')"
| "stagedLine _ = False"

fun unstagedLine :: "string \<Rightarrow> bool" where
  "unstagedLine (x # y # path) = (\<not> blankLine (x # y # path) \<and> y \<noteq> CHR '' '')"
| "unstagedLine _ = False"

subsection \<open>Properties of the status parser\<close>

lemma strSplit_not_Nil: "strSplit s sep \<noteq> []"
  by (induction s) (auto split: list.splits)

lemma strSplit_line: "sep \<notin> set l \<Longrightarrow> strSplit (l @ sep # rest) sep = l # strSplit rest sep"
  by (induction l) (auto split: list.splits)

lemma statusLineStep_counts:
  "statusLineStep (s, u) line =
     (s + (if stagedLine line then 1 else 0), u + (if unstagedLine line then 1 else 0))"
proof (cases line)
  case Nil
  then show ?thesis by (simp add: statusLineStep_def)
next
  case (Cons x xs)
  then show ?thesis
    by (cases xs) (simp_all add: statusLineStep_def blankLine_def)
qed

lemma foldl_statusLineStep:
  "foldl statusLineStep (s, u) ls =
     (s + int (length (filter stagedLine ls)), u + int (length (filter unstagedLine ls)))"
  by (induction ls arbitrary: s u) (simp_all add: statusLineStep_counts)

text \<open>
  Claim C1.  For every status text: the staged count is the number of lines \<open>XY path\<close>
  that are not blank and whose \<open>X\<close> is neither a space nor a question mark, the
  unstaged count the number of those whose \<open>Y\<close> is not a space; blank lines (and lines
  of fewer than two bytes) are skipped and the parser always returns.  Said per line: a
  first line \<open>line\<close> in front of the text \<open>rest\<close> adds one to the staged count of
  \<open>rest\<close> exactly when it is such a staged line, and one to the unstaged count exactly
  when it is such an unstaged line.  The text of the specification's example gives
  staged 1 and unstaged 2.
\<close>

theorem parseGitStatusOutput_counts:
  "(statusText \<noteq> [] \<longrightarrow>
      parseGitStatusOutput statusText =
        (int (length (filter stagedLine (strSplit statusText (CHR 0x0A)))),
         int (length (filter unstagedLine (strSplit statusText (CHR 0x0A)))), False))
   \<and> (CHR 0x0A \<notin> set line \<longrightarrow>
      parseGitStatusOutput (line @ CHR 0x0A # rest) =
        (fst (parseGitStatusOutput rest) + (if stagedLine line then 1 else 0),
         fst (snd (parseGitStatusOutput rest)) + (if unstagedLine line then 1 else 0), False))
   \<and> parseGitStatusOutput ''M  a.go\<newline>?? b.go\<newline> D c.go\<newline>'' = (1, 2, False)"
proof (intro conjI impI)
  assume "statusText \<noteq> []"
  then show "parseGitStatusOutput statusText =
        (int (length (filter stagedLine (strSplit statusText (CHR 0x0A)))),
         int (length (filter unstagedLine (strSplit statusText (CHR 0x0A)))), False)"
    by (simp add: parseGitStatusOutput_def foldl_statusLineStep)
next
  assume nl: "CHR 0x0A \<notin> set line"
  have rest: "parseGitStatusOutput rest =
        (int (length (filter stagedLine (strSplit rest (CHR 0x0A)))),
         int (length (filter unstagedLine (strSplit rest (CHR 0x0A)))), rest = [])"
    by (cases rest) (simp_all add: parseGitStatusOutput_def foldl_statusLineStep)
  show "parseGitStatusOutput (line @ CHR 0x0A # rest) =
        (fst (parseGitStatusOutput rest) + (if stagedLine line then 1 else 0),
         fst (snd (parseGitStatusOutput rest)) + (if unstagedLine line then 1 else 0), False)"
    unfolding rest
    by (simp add: parseGitStatusOutput_def statusLineStep_counts foldl_statusLineStep
        strSplit_line [OF nl])
next
  show "parseGitStatusOutput ''M  a.go\<newline>?? b.go\<newline> D c.go\<newline>'' = (1, 2, False)"
    by code_simp
qed

theorem parseGitStatusOutput_counts_witness:
  "''MM x.go\<newline>'' \<noteq> [] \<and> CHR 0x0A \<notin> set ''MM x.go''
   \<and> parseGitStatusOutput ''MM x.go\<newline>'' = (1, 1, False)
   \<and> parseGitStatusOutput (''MM x.go'' @ CHR 0x0A # ''?? y\<newline>'') = (1, 2, False)"
proof -
  have a: "int (length (filter stagedLine (strSplit ''MM x.go\<newline>'' (CHR 0x0A)))) = 1"
    by code_simp
  have b: "int (length (filter unstagedLine (strSplit ''MM x.go\<newline>'' (CHR 0x0A)))) = 1"
    by code_simp
  have c: "parseGitStatusOutput ''?? y\<newline>'' = (0, 1, False)"
    by code_simp
  have d: "\<not> blankLine ''MM x.go''"
    by code_simp
  have e: "CHR 0x0A \<notin> set ''MM x.go''" by simp
  show ?thesis
    using parseGitStatusOutput_counts [of "''MM x.go\<newline>''" "''MM x.go''" "''?? y\<newline>''"]
    unfolding a b c by (simp add: d)
qed

section \<open>The command runner\<close>

text \<open>\<^verbatim>\<open>fmt.Sprintf("%d", n)\<close>: the decimal numeral of an integer.\<close>

function showNat :: "nat \<Rightarrow> string" where
  "showNat n = (if n < 10 then [''0123456789'' ! n] else showNat (n div 10) @ [''0123456789'' ! (n mod 10)])"
  by pat_completeness auto
termination
  by (relation "measure id") auto

declare showNat.simps [simp del]

definition showInt :: "int \<Rightarrow> string" where
  "showInt i = (if i < 0 then CHR ''-'' # showNat (nat (- i)) else showNat (nat i))"

text \<open>
  \<^verbatim>\<open>executeGitCommand\<close> (the same text in both implementations).  What the function
  reads from the outside world is given by a \<open>gitWorld\<close>: for each attempt of the loop,
  whether \<^verbatim>\<open>os.Stat\<close> finds the lock file \<^verbatim>\<open>.git/index.lock\<close>, and what
  \<^verbatim>\<open>cmd.CombinedOutput()\<close> returns when git is started in that attempt (the output,
  and the message of the error of package \<^verbatim>\<open>os/exec\<close> if there is one).  An error
  value is either such an error of \<^verbatim>\<open>os/exec\<close>, passed through, or the error string
  that \<^verbatim>\<open>fmt.Errorf\<close> builds.  Besides the returned pair the model keeps what each
  attempt did, with the time slept (in nanoseconds) when it slept.
\<close>

datatype goError = ExecError string | ErrorString string

datatype attemptAction = WaitedForLockFile int | InvokedAndRetried int | InvokedAndReturned

record gitWorld =
  lockFileExists :: "string \<Rightarrow> nat \<Rightarrow> bool"
  runGit :: "string \<Rightarrow> string list \<Rightarrow> nat \<Rightarrow> string \<times> string option"

definition maxRetries :: nat where
  "maxRetries = 3"

function executeLoop ::
  "gitWorld \<Rightarrow> string \<Rightarrow> string list \<Rightarrow> nat \<Rightarrow> int \<Rightarrow> attemptAction list
     \<Rightarrow> (string \<times> goError option) \<times> attemptAction list" where
  "executeLoop w repoPath args attempt retryDelay acts =
     (if attempt < maxRetries then
        if lockFileExists w repoPath attempt
        then executeLoop w repoPath args (attempt + 1) retryDelay
               (acts @ [WaitedForLockFile retryDelay])
        else (case runGit w repoPath args attempt of
                (output, err) \<Rightarrow>
                  if err \<noteq> None \<and> strContains output ''index.lock''
                  then executeLoop w repoPath args (attempt + 1) (retryDelay * 2)
                         (acts @ [InvokedAndRetried retryDelay])
                  else ((output, map_option ExecError err), acts @ [InvokedAndReturned]))
      else (([], Some (ErrorString (''git command failed after '' @ showInt (int maxRetries)
                                      @ '' retries: index.lock conflict''))), acts))"
  by pat_completeness auto
termination
  by (relation "measure (\<lambda>(w, repoPath, args, attempt, retryDelay, acts). maxRetries - attempt)") auto

declare executeLoop.simps [simp del]

definition executeGitCommand :: "gitWorld \<Rightarrow> string \<Rightarrow> string list \<Rightarrow> (string \<times> goError option) \<times> attemptAction list" where
  "executeGitCommand w repoPath args = executeLoop w repoPath args 0 (100 * 1000000) []"


definition lockFailure :: "gitWorld \<Rightarrow> string \<Rightarrow> string list \<Rightarrow> nat \<Rightarrow> bool" where
  "lockFailure w repoPath args attempt =
     (case runGit w repoPath args attempt of
        (output, err) \<Rightarrow> err \<noteq> None \<and> strContains output ''index.lock'')"

definition contended :: "gitWorld \<Rightarrow> string \<Rightarrow> string list \<Rightarrow> nat \<Rightarrow> bool" where
  "contended w repoPath args attempt =
     (lockFileExists w repoPath attempt \<or> lockFailure w repoPath args attempt)"

definition lockContentionError :: goError where
  "lockContentionError = ErrorString ''git command failed after 3 retries: index.lock conflict''"

lemma all_less_3: "(\<forall>a<3. P a) = (P (0::nat) \<and> P 1 \<and> P 2)"
proof
  assume "\<forall>a<3. P a" then show "P 0 \<and> P 1 \<and> P 2" by simp
next
  assume h: "P 0 \<and> P 1 \<and> P 2"
  show "\<forall>a<3. P a"
  proof (intro allI impI)
    fix a :: nat assume "a < 3"
    then have "a = 0 \<or> a = 1 \<or> a = 2" by arith
    with h show "P a" by auto
  qed
qed

lemma showInt_3: "showInt (int maxRetries) = ''3''"
  by (simp add: maxRetries_def showInt_def showNat.simps)


lemma executeLoop_3:
  "executeLoop w p args (Suc (Suc (Suc 0))) d acts = (([], Some lockContentionError), acts)"
  by (simp add: executeLoop.simps [of _ _ _ "Suc (Suc (Suc 0))"] maxRetries_def
      lockContentionError_def showInt_def showNat.simps)

lemma executeLoop_step:
  "attempt < 3 \<Longrightarrow> executeLoop w p args attempt d acts =
  (if lockFileExists w p attempt
   then executeLoop w p args (Suc attempt) d (acts @ [WaitedForLockFile d])
   else if lockFailure w p args attempt
   then executeLoop w p args (Suc attempt) (d * 2) (acts @ [InvokedAndRetried d])
   else ((fst (runGit w p args attempt), map_option ExecError (snd (runGit w p args attempt))),
         acts @ [InvokedAndReturned]))"
  by (simp add: executeLoop.simps [of _ _ _ attempt] maxRetries_def lockFailure_def
      split: prod.splits)

lemmas executeLoop_unrolled =
  executeLoop_step [of 0, simplified] executeLoop_step [of "Suc 0", simplified]
  executeLoop_step [of "Suc (Suc 0)", simplified] executeLoop_3

lemma executeGitCommand_attempts: "length (snd (executeGitCommand w p args)) \<le> 3"
  by (simp add: executeGitCommand_def executeLoop_unrolled numeral_2_eq_2)

lemma executeGitCommand_exhausted: "(\<forall>a<3. contended w p args a) \<Longrightarrow> fst (executeGitCommand w p args) = ([], Some lockContentionError) \<and> length (snd (executeGitCommand w p args)) = 3"
  by (auto simp add: all_less_3 contended_def executeGitCommand_def executeLoop_unrolled numeral_2_eq_2)

lemma executeGitCommand_first_free: "k < 3 \<Longrightarrow> (\<forall>a<k. contended w p args a) \<Longrightarrow> \<not> contended w p args k \<Longrightarrow>
   fst (executeGitCommand w p args) = (fst (runGit w p args k), map_option ExecError (snd (runGit w p args k)))
   \<and> length (snd (executeGitCommand w p args)) = k + 1 \<and> last (snd (executeGitCommand w p args)) = InvokedAndReturned"
proof -
  assume k: "k < 3" and pre: "\<forall>a<k. contended w p args a" and free: "\<not> contended w p args k"
  from k have "k = 0 \<or> k = 1 \<or> k = 2" by arith
  then show ?thesis
  proof (elim disjE)
    assume "k = 0" with free show ?thesis
      by (simp add: contended_def executeGitCommand_def executeLoop_unrolled numeral_2_eq_2)
  next
    assume "k = 1" with free pre show ?thesis
      by (auto simp add: contended_def executeGitCommand_def executeLoop_unrolled numeral_2_eq_2)
  next
    assume k2: "k = 2" 
    with pre have "contended w p args 0" "contended w p args 1" by simp_all
    with k2 free show ?thesis
      by (auto simp add: contended_def executeGitCommand_def executeLoop_unrolled numeral_2_eq_2)
  qed
qed

lemma executeGitCommand_lock_error_iff: "snd (fst (executeGitCommand w p args)) = Some lockContentionError \<longleftrightarrow> (\<forall>a<3. contended w p args a)"
  by (auto simp add: all_less_3 contended_def executeGitCommand_def executeLoop_unrolled numeral_2_eq_2 lockContentionError_def split: option.splits)


text \<open>
  Claim C2.  Whatever the world does, at most 3 attempts are made.  When every attempt
  is blocked (the lock file is there, or git fails with output naming \<open>index.lock\<close>),
  exactly 3 attempts are made and the result is the lock-contention error with no output;
  this error is returned in no other case, so it tells lock contention from a failure of
  the command.  When attempt \<open>k\<close> is reached, the lock file is absent and git fails with
  an output that does not name the lock, that output and error are returned and attempt
  \<open>k\<close> is the last one: nothing is retried.  When the lock file was there in every
  attempt before \<open>j\<close> and is gone at attempt \<open>j\<close>, the result of the invocation of
  attempt \<open>j\<close> is returned (unless that invocation itself fails on the lock).
\<close>

theorem executeGitCommand_lock_retry:
  "length (snd (executeGitCommand w p args)) \<le> 3
   \<and> ((\<forall>a<3. contended w p args a) \<longrightarrow>
        fst (executeGitCommand w p args) = ([], Some lockContentionError)
        \<and> length (snd (executeGitCommand w p args)) = 3)
   \<and> (snd (fst (executeGitCommand w p args)) = Some lockContentionError
        \<longleftrightarrow> (\<forall>a<3. contended w p args a))
   \<and> (k < 3 \<and> (\<forall>a<k. contended w p args a) \<and> \<not> lockFileExists w p k
        \<and> runGit w p args k = (out, Some e) \<and> \<not> strContains out ''index.lock'' \<longrightarrow>
        fst (executeGitCommand w p args) = (out, Some (ExecError e))
        \<and> length (snd (executeGitCommand w p args)) = k + 1
        \<and> last (snd (executeGitCommand w p args)) = InvokedAndReturned)
   \<and> (j < 3 \<and> (\<forall>a<j. lockFileExists w p a) \<and> \<not> lockFileExists w p j
        \<and> \<not> lockFailure w p args j \<longrightarrow>
        fst (executeGitCommand w p args) =
          (fst (runGit w p args j), map_option ExecError (snd (runGit w p args j)))
        \<and> length (snd (executeGitCommand w p args)) = j + 1)"
proof (intro conjI impI)
  show "length (snd (executeGitCommand w p args)) \<le> 3"
    by (rule executeGitCommand_attempts)
next
  assume "\<forall>a<3. contended w p args a"
  then show "fst (executeGitCommand w p args) = ([], Some lockContentionError)"
    and "length (snd (executeGitCommand w p args)) = 3"
    by (simp_all add: executeGitCommand_exhausted)
next
  show "snd (fst (executeGitCommand w p args)) = Some lockContentionError
        \<longleftrightarrow> (\<forall>a<3. contended w p args a)"
    by (rule executeGitCommand_lock_error_iff)
next
  assume h: "k < 3 \<and> (\<forall>a<k. contended w p args a) \<and> \<not> lockFileExists w p k
        \<and> runGit w p args k = (out, Some e) \<and> \<not> strContains out ''index.lock''"
  then have free: "\<not> contended w p args k"
    by (simp add: contended_def lockFailure_def)
  from h have k: "k < 3" and pre: "\<forall>a<k. contended w p args a" by simp_all
  from h executeGitCommand_first_free [OF k pre free]
  show "fst (executeGitCommand w p args) = (out, Some (ExecError e))"
    and "length (snd (executeGitCommand w p args)) = k + 1"
    and "last (snd (executeGitCommand w p args)) = InvokedAndReturned"
    by simp_all
next
  assume h: "j < 3 \<and> (\<forall>a<j. lockFileExists w p a) \<and> \<not> lockFileExists w p j
        \<and> \<not> lockFailure w p args j"
  then have free: "\<not> contended w p args j" and pre: "\<forall>a<j. contended w p args a"
    and j: "j < 3"
    by (simp_all add: contended_def)
  from executeGitCommand_first_free [OF j pre free]
  show "fst (executeGitCommand w p args) =
          (fst (runGit w p args j), map_option ExecError (snd (runGit w p args j)))"
    and "length (snd (executeGitCommand w p args)) = j + 1"
    by simp_all
qed

definition lockedOnce :: gitWorld where
  "lockedOnce = \<lparr>lockFileExists = (\<lambda>repoPath attempt. attempt < 1),
                 runGit = (\<lambda>repoPath args attempt. (''fatal: bad revision'', Some ''exit status 128''))\<rparr>"

definition lockedAlways :: gitWorld where
  "lockedAlways = \<lparr>lockFileExists = (\<lambda>repoPath attempt. attempt \<noteq> 1),
                   runGit = (\<lambda>repoPath args attempt.
                      (''fatal: Unable to create .git/index.lock'', Some ''exit status 128''))\<rparr>"

theorem executeGitCommand_lock_retry_witness:
  "executeGitCommand lockedAlways ''.'' [''add'', ''a.go''] =
     (([], Some lockContentionError),
      [WaitedForLockFile 100000000, InvokedAndRetried 100000000, WaitedForLockFile 200000000])
   \<and> executeGitCommand lockedOnce ''.'' [''log''] =
     ((''fatal: bad revision'', Some (ExecError ''exit status 128'')),
      [WaitedForLockFile 100000000, InvokedAndReturned])"
proof -
  have c: "\<forall>a<3. contended lockedAlways ''.'' [''add'', ''a.go''] a"
    unfolding all_less_3 by code_simp
  have a1: "snd (executeGitCommand lockedAlways ''.'' [''add'', ''a.go'']) =
      [WaitedForLockFile 100000000, InvokedAndRetried 100000000, WaitedForLockFile 200000000]"
    by code_simp
  have h: "(1::nat) < 3 \<and> (\<forall>a<1. contended lockedOnce ''.'' [''log''] a)
      \<and> \<not> lockFileExists lockedOnce ''.'' 1
      \<and> runGit lockedOnce ''.'' [''log''] 1 = (''fatal: bad revision'', Some ''exit status 128'')
      \<and> \<not> strContains ''fatal: bad revision'' ''index.lock''"
    by (simp add: contended_def lockedOnce_def strContains_def hasPrefix_def)
  have h2: "(1::nat) < 3 \<and> (\<forall>a<1. lockFileExists lockedOnce ''.'' a)
      \<and> \<not> lockFileExists lockedOnce ''.'' 1 \<and> \<not> lockFailure lockedOnce ''.'' [''log''] 1"
    by (simp add: lockFailure_def lockedOnce_def strContains_def hasPrefix_def)
  have a2: "snd (executeGitCommand lockedOnce ''.'' [''log'']) =
      [WaitedForLockFile 100000000, InvokedAndReturned]"
    by code_simp
  from executeGitCommand_lock_retry [of lockedAlways "''.''" "[''add'', ''a.go'']" 1
      "''fatal: bad revision''" "''exit status 128''" 1] c
  have r1: "fst (executeGitCommand lockedAlways ''.'' [''add'', ''a.go'']) =
      ([], Some lockContentionError)"
    by blast
  from executeGitCommand_lock_retry [of lockedOnce "''.''" "[''log'']" 1
      "''fatal: bad revision''" "''exit status 128''" 1] h h2
  have r2: "fst (executeGitCommand lockedOnce ''.'' [''log'']) =
      (''fatal: bad revision'', Some (ExecError ''exit status 128''))"
    by blast
  from r1 a1 r2 a2 show ?thesis
    by (metis prod.collapse)
qed

section \<open>The data model\<close>

text \<open>
  The structs of the program, as records.  Field names are the program's; where two
  structs have a field of the same name, the later record's field carries the struct in
  its name (\<open>Type\<close> of \<open>GitChange\<close> is \<open>ChangeType\<close>, \<open>Message\<close> of
  \<open>CommitSuggestion\<close> is \<open>SuggestionMessage\<close>, and so on).
\<close>

record GitChange =
  File :: string
  Status :: string
  ChangeType :: string
  ChangeScope :: string

record CommitSuggestion =
  SuggestionMessage :: string
  SuggestionType :: string

record GitStatus =
  StatusBranch :: string
  Clean :: bool
  StagedFiles :: int
  UnstagedFiles :: int
  StatusAhead :: int
  StatusBehind :: int

record Branch =
  Name :: string
  IsCurrent :: bool
  Upstream :: string
  Ahead :: int
  Behind :: int

record Commit =
  Hash :: string
  Message :: string
  Author :: string
  Date :: string

record DiffInfo =
  LinesAdded :: int
  LinesRemoved :: int
  Functions :: "string list"
  Imports :: "string list"
  HasTests :: bool
  HasDocs :: bool
  Variables :: "string list"
  Keywords :: "string list"
  Comments :: "string list"
  Context :: string

record Conflict =
  LineStart :: int
  OursContent :: "string list"
  TheirsContent :: "string list"

record ConflictFile =
  Path :: string
  Conflicts :: "Conflict list"
  IsResolved :: bool

record BranchComparison =
  SourceBranch :: string
  TargetBranch :: string
  AheadCommits :: "Commit list"
  BehindCommits :: "Commit list"
  DifferingFiles :: "string list"

record RebaseCommit =
  RebaseHash :: string
  RebaseMessage :: string
  Action :: string

record FileAnalysis =
  AnalysisType :: string
  AnalysisMessage :: string
  AnalysisScope :: string

text \<open>
  \<open>xs[i]\<close> of Go: the element, or a run-time panic (here \<open>None\<close>) when the index is
  negative or not below the length.
\<close>

definition goIndex :: "'a list \<Rightarrow> int \<Rightarrow> 'a option" where
  "goIndex xs i = (if 0 \<le> i \<and> i < int (length xs) then Some (xs ! nat i) else None)"

text \<open>
  \<^verbatim>\<open>strconv.Atoi\<close>: an optional sign and decimal digits, within the 64-bit range;
  \<open>None\<close> is the error.
\<close>

definition digitValue :: "char \<Rightarrow> int option" where
  "digitValue c =
     (let n = (of_char c :: nat) in if 48 \<le> n \<and> n \<le> 57 then Some (int n - 48) else None)"

fun parseDigits :: "string \<Rightarrow> int \<Rightarrow> int option" where
  "parseDigits [] n = Some n"
| "parseDigits (c # cs) n =
     (case digitValue c of None \<Rightarrow> None | Some d \<Rightarrow> parseDigits cs (n * 10 + d))"

definition atoi :: "string \<Rightarrow> int option" where
  "atoi s =
     (case s of
        [] \<Rightarrow> None
      | c # cs \<Rightarrow>
          (let digits = (if c = CHR ''-'' \<or> c = CHR ''+'' then cs else s) in
           if digits = [] then None
           else (case parseDigits digits 0 of
                   None \<Rightarrow> None
                 | Some n \<Rightarrow>
                     (let v = (if c = CHR ''-'' then - n else n) in
                      if - (2 ^ 63) \<le> v \<and> v < 2 ^ 63 then Some v else None))))"

section \<open>The dispatcher of the tabbed implementation\<close>

text \<open>
  Messages (\<^verbatim>\<open>tea.Msg\<close>) and commands (\<^verbatim>\<open>tea.Cmd\<close>).  A key message carries the
  name \<^verbatim>\<open>msg.String()\<close> of the key.  A command is the closure that a method of the
  model returns; it is named by the method and its arguments (each closure also keeps the
  \<open>repoPath\<close> of the model it was made from, which never changes).  \<open>WidgetCmd\<close> is a
  command that a widget of the UI toolkit returned, \<open>OtherMsg\<close> a message of the toolkit
  that the program does not name.
\<close>

datatype cmd =
    NoCmd
  | Quit
  | Batch "cmd list"
  | WidgetCmd nat
  | LoadGitChanges
  | LoadGitStatus
  | LoadRecentCommits
  | LoadBranches
  | LoadHistory
  | LoadConflicts
  | LoadBranchComparison string
  | LoadRebaseCommits int
  | LoadReflog
  | GenerateCommitSuggestions "GitChange list"
  | ToggleStaging string
  | GitAddAll
  | GitReset
  | CommitWithMessage string
  | SwitchBranch string
  | CreateBranch string
  | DeleteBranch string
  | GitPush
  | GitPull
  | GitFetch
  | ViewDiff string
  | ResolveConflict int string "ConflictFile list"
  | ContinueMerge
  | SoftReset int
  | MixedReset int
  | HardReset int
  | ExecuteRebase
  | RefreshAfterCommit
  | RefreshAfterStaging

datatype msg =
    WindowSizeMsg int int
  | KeyMsg string
  | GitChangesMsg "GitChange list"
  | CommitSuggestionsMsg "CommitSuggestion list"
  | GitStatusMsg GitStatus
  | BranchesMsg "Branch list"
  | CommitsMsg "Commit list"
  | RecentCommitsMsg "Commit list"
  | DiffMsg string
  | ConflictsMsg "ConflictFile list"
  | ComparisonMsg BranchComparison
  | RebaseCommitsMsg "RebaseCommit list"
  | StatusMsg string
  | PushOutputMsg string string
  | OtherMsg nat

text \<open>
  The widgets of the UI toolkit.  A text input is its focus flag and its value.  The
  table widget is a parameter: the type \<open>'tbl\<close> of tables, with the operations of the
  toolkit that the program calls on one.
\<close>

record textInput =
  focus :: bool
  inputValue :: string

definition Focused :: "textInput \<Rightarrow> bool" where
  "Focused i = focus i"

definition Focus :: "textInput \<Rightarrow> textInput" where
  "Focus i = i\<lparr>focus := True\<rparr>"

definition Blur :: "textInput \<Rightarrow> textInput" where
  "Blur i = i\<lparr>focus := False\<rparr>"

definition SetValue :: "textInput \<Rightarrow> string \<Rightarrow> textInput" where
  "SetValue i s = i\<lparr>inputValue := s\<rparr>"

record 'tbl widgets =
  createTable :: "string \<Rightarrow> 'tbl"
  tableCursor :: "'tbl \<Rightarrow> int"
  tableUpdate :: "'tbl \<Rightarrow> msg \<Rightarrow> 'tbl \<times> cmd"
  tableSetRows :: "'tbl \<Rightarrow> string list list \<Rightarrow> 'tbl"
  tableSetHeight :: "'tbl \<Rightarrow> int \<Rightarrow> 'tbl"
  tableSetColumns :: "'tbl \<Rightarrow> (string \<times> int) list \<Rightarrow> 'tbl"
  inputUpdate :: "textInput \<Rightarrow> msg \<Rightarrow> textInput \<times> cmd"

record 'tbl model =
  tab :: string
  toolMode :: string
  viewMode :: string
  changes :: "GitChange list"
  suggestions :: "CommitSuggestion list"
  gitState :: GitStatus
  branches :: "Branch list"
  commits :: "Commit list"
  conflicts :: "ConflictFile list"
  branchComparison :: "BranchComparison option"
  rebaseCommits :: "RebaseCommit list"
  diffContent :: string
  pushOutput :: string
  recentCommits :: "Commit list"
  filesTable :: 'tbl
  branchesTable :: 'tbl
  toolsTable :: 'tbl
  historyTable :: 'tbl
  conflictsTable :: 'tbl
  comparisonTable :: 'tbl
  rebaseTable :: 'tbl
  undoTable :: 'tbl
  commitInput :: textInput
  branchInput :: textInput
  rebaseInput :: textInput
  width :: int
  height :: int
  statusMsg :: string
  statusExpiry :: int
  showDiffPreview :: bool
  selectedSuggestion :: int
  repoPath :: string
  lastCommit :: string
  lastStatusUpdate :: int
  confirmAction :: string

text \<open>
  \<^verbatim>\<open>initialModel\<close>; the working directory that \<^verbatim>\<open>os.Getwd\<close> returns is the
  parameter \<open>wd\<close>.  Times are nanoseconds; the zero \<^verbatim>\<open>time.Time\<close> is 0.
\<close>

definition initialModel :: "'tbl widgets \<Rightarrow> string \<Rightarrow> 'tbl model" where
  "initialModel ui wd =
     \<lparr>tab = ''workspace'', toolMode = ''menu'', viewMode = ''files'',
      changes = [], suggestions = [],
      gitState = \<lparr>StatusBranch = [], Clean = False, StagedFiles = 0, UnstagedFiles = 0,
                  StatusAhead = 0, StatusBehind = 0\<rparr>,
      branches = [], commits = [], conflicts = [], branchComparison = None,
      rebaseCommits = [], diffContent = [], pushOutput = [], recentCommits = [],
      filesTable = createTable ui ''files'', branchesTable = createTable ui ''branches'',
      toolsTable = createTable ui ''tools'', historyTable = createTable ui ''history'',
      conflictsTable = createTable ui ''conflicts'',
      comparisonTable = createTable ui ''comparison'',
      rebaseTable = createTable ui ''rebase'', undoTable = createTable ui ''undo'',
      commitInput = \<lparr>focus = False, inputValue = []\<rparr>,
      branchInput = \<lparr>focus = False, inputValue = []\<rparr>,
      rebaseInput = \<lparr>focus = False, inputValue = []\<rparr>,
      width = 0, height = 0, statusMsg = [], statusExpiry = 0,
      showDiffPreview = True, selectedSuggestion = 0,
      repoPath = wd, lastCommit = [], lastStatusUpdate = 0, confirmAction = []\<rparr>"

subsection \<open>Filling and laying out the tables\<close>

definition getStatusIcon :: "string \<Rightarrow> string" where
  "getStatusIcon status =
     (if length status < 2 then ([CHR 0xF0, CHR 0x9F, CHR 0x93, CHR 0x84] @ '' Unknown'')
      else
        (let staged = status ! 0;
             unstaged = status ! 1;
             char = (if staged = CHR '' '' \<or> staged = CHR ''?'' then unstaged else staged);
             (icon, action) =
               (if char = CHR ''A'' then ([CHR 0xE2, CHR 0x9E, CHR 0x95], ''Added'')
                else if char = CHR ''M'' then ([CHR 0xF0, CHR 0x9F, CHR 0x93, CHR 0x9D], ''Modified'')
                else if char = CHR ''D'' then ([CHR 0xF0, CHR 0x9F, CHR 0x97, CHR 0x91, CHR 0xEF, CHR 0xB8, CHR 0x8F], ''Deleted'')
                else if char = CHR ''R'' then ([CHR 0xF0, CHR 0x9F, CHR 0x93, CHR 0x9B], ''Renamed'')
                else if char = CHR ''?'' then ([CHR 0xE2, CHR 0x9D, CHR 0x93], ''Untracked'')
                else ([CHR 0xF0, CHR 0x9F, CHR 0x93, CHR 0x84], ''Changed''));
             stagingStatus =
               (if staged \<noteq> CHR '' '' \<and> staged \<noteq> CHR ''?''
                   \<and> unstaged \<noteq> CHR '' '' \<and> unstaged \<noteq> CHR ''?'' then ''Both''
                else if staged \<noteq> CHR '' '' \<and> staged \<noteq> CHR ''?'' then ''Staged''
                else ''Unstaged'')
         in icon @ '' '' @ action @ '' ('' @ stagingStatus @ '')''))"

definition updateFilesTable :: "'tbl widgets \<Rightarrow> 'tbl model \<Rightarrow> 'tbl model" where
  "updateFilesTable ui m =
     m\<lparr>filesTable := tableSetRows ui (filesTable m)
          (map (\<lambda>change. [getStatusIcon (Status change), File change]) (changes m))\<rparr>"

definition branchRow :: "Branch \<Rightarrow> string list" where
  "branchRow branch =
     (let current = (if IsCurrent branch then ([CHR 0xE2, CHR 0x9C, CHR 0x93] @ '' '') else []);
          status =
            (if Ahead branch > 0 \<and> Behind branch > 0
             then [CHR 0xE2, CHR 0x86, CHR 0x91] @ showInt (Ahead branch) @ ('' '' @ [CHR 0xE2, CHR 0x86, CHR 0x93]) @ showInt (Behind branch)
             else if Ahead branch > 0 then [CHR 0xE2, CHR 0x86, CHR 0x91] @ showInt (Ahead branch) @ '' ahead''
             else if Behind branch > 0 then [CHR 0xE2, CHR 0x86, CHR 0x93] @ showInt (Behind branch) @ '' behind''
             else [])
      in [current @ Name branch, status, Upstream branch])"

definition updateBranchesTable :: "'tbl widgets \<Rightarrow> 'tbl model \<Rightarrow> 'tbl model" where
  "updateBranchesTable ui m =
     m\<lparr>branchesTable := tableSetRows ui (branchesTable m) (map branchRow (branches m))\<rparr>"

definition updateToolsTable :: "'tbl widgets \<Rightarrow> 'tbl model \<Rightarrow> 'tbl model" where
  "updateToolsTable ui m =
     m\<lparr>toolsTable := tableSetRows ui (toolsTable m)
          [[''Undo Commits'', ''Soft/mixed/hard reset to undo commits''],
           [''Interactive Rebase'', ''Reorder, squash, or edit commits''],
           [''Commit History'', ''View detailed commit log''],
           [''Remote Operations'', ''Push, pull, fetch from remote'']]\<rparr>"

definition updateHistoryTable :: "'tbl widgets \<Rightarrow> 'tbl model \<Rightarrow> 'tbl model" where
  "updateHistoryTable ui m =
     m\<lparr>historyTable := tableSetRows ui (historyTable m)
          (map (\<lambda>commit. [Hash commit, Message commit, Author commit, Date commit])
             (commits m))\<rparr>"

definition updateConflictsTable :: "'tbl widgets \<Rightarrow> 'tbl model \<Rightarrow> 'tbl model" where
  "updateConflictsTable ui m =
     m\<lparr>conflictsTable := tableSetRows ui (conflictsTable m)
          (map (\<lambda>conflict.
                  [Path conflict, showInt (int (length (Conflicts conflict))),
                   if IsResolved conflict then ''Resolved'' else ''Unresolved''])
             (conflicts m))\<rparr>"

definition updateComparisonTable :: "'tbl widgets \<Rightarrow> 'tbl model \<Rightarrow> 'tbl model" where
  "updateComparisonTable ui m =
     (case branchComparison m of
        None \<Rightarrow> m
      | Some comparison \<Rightarrow>
          m\<lparr>comparisonTable := tableSetRows ui (comparisonTable m)
               (map (\<lambda>commit. [''Ahead'', Hash commit, Message commit])
                  (AheadCommits comparison)
                @ map (\<lambda>commit. [''Behind'', Hash commit, Message commit])
                    (BehindCommits comparison))\<rparr>)"

definition updateRebaseTable :: "'tbl widgets \<Rightarrow> 'tbl model \<Rightarrow> 'tbl model" where
  "updateRebaseTable ui m =
     m\<lparr>rebaseTable := tableSetRows ui (rebaseTable m)
          (map (\<lambda>commit. [Action commit, RebaseHash commit, RebaseMessage commit])
             (rebaseCommits m))\<rparr>"

text \<open>Go's division of integers rounds towards zero.\<close>

definition goDiv :: "int \<Rightarrow> int \<Rightarrow> int" where
  "goDiv a b = sgn a * sgn b * (\<bar>a\<bar> div \<bar>b\<bar>)"

definition adjustTableSizes :: "'tbl widgets \<Rightarrow> 'tbl model \<Rightarrow> 'tbl model" where
  "adjustTableSizes ui m =
     (if height m \<le> 0 then m
      else
        (let availableHeight = (if height m - 10 < 5 then 5 else height m - 10);
             m1 = m\<lparr>filesTable := tableSetHeight ui (filesTable m) availableHeight,
                    branchesTable := tableSetHeight ui (branchesTable m) availableHeight,
                    toolsTable := tableSetHeight ui (toolsTable m) (goDiv availableHeight 2),
                    historyTable := tableSetHeight ui (historyTable m) availableHeight,
                    conflictsTable := tableSetHeight ui (conflictsTable m) availableHeight,
                    comparisonTable := tableSetHeight ui (comparisonTable m) availableHeight,
                    rebaseTable := tableSetHeight ui (rebaseTable m) availableHeight\<rparr>
         in if width m > 0 then
              (let availableWidth = width m - 6 in
               m1\<lparr>filesTable := tableSetColumns ui (filesTable m1)
                      [(''Status'', 25), (''File'', availableWidth - 30)],
                    branchesTable := tableSetColumns ui (branchesTable m1)
                      [(''Branch'', goDiv availableWidth 3),
                       (''Status'', goDiv availableWidth 4),
                       (''Upstream'', goDiv availableWidth 3)]\<rparr>)
            else m1))"

subsection \<open>Predicates on the model\<close>

definition anyInputFocused :: "'tbl model \<Rightarrow> bool" where
  "anyInputFocused m =
     (Focused (commitInput m) \<or> Focused (branchInput m) \<or> Focused (rebaseInput m))"

definition hasConflicts :: "'tbl model \<Rightarrow> bool" where
  "hasConflicts m =
     list_ex (\<lambda>change. strContains (Status change) ''U''
                \<or> strContains (Status change) ''A'' \<and> strContains (Status change) ''A'')
       (changes m)"

text \<open>
  \<^verbatim>\<open>allConflictsResolved\<close>: the loop returns \<open>false\<close> at the first file whose
  \<open>IsResolved\<close> is false; after the loop the function returns
  \<^verbatim>\<open>len(m.conflicts) == 0 || len(m.conflicts) > 0\<close>.
\<close>

fun someUnresolved :: "ConflictFile list \<Rightarrow> bool" where
  "someUnresolved [] = False"
| "someUnresolved (conflict # rest) =
     (if \<not> IsResolved conflict then True else someUnresolved rest)"

definition allConflictsResolved :: "'tbl model \<Rightarrow> bool" where
  "allConflictsResolved m =
     (if someUnresolved (conflicts m) then False
      else (length (conflicts m) = 0 \<or> length (conflicts m) > 0))"

subsection \<open>Key handling\<close>

text \<open>
  Every handler takes the time \<open>now\<close> that \<^verbatim>\<open>time.Now()\<close> returns and the widgets
  \<open>ui\<close>.  A handler that indexes a slice returns \<open>None\<close> where Go panics.
\<close>

definition second :: int where
  "second = 1000000000"

definition handleEscape :: "int \<Rightarrow> 'tbl widgets \<Rightarrow> 'tbl model \<Rightarrow> 'tbl model \<times> cmd" where
  "handleEscape now ui m =
     (if Focused (commitInput m)
      then (m\<lparr>commitInput := Blur (commitInput m), selectedSuggestion := 0\<rparr>, NoCmd)
      else if Focused (branchInput m)
      then (m\<lparr>branchInput := SetValue (Blur (branchInput m)) []\<rparr>, NoCmd)
      else if Focused (rebaseInput m)
      then (m\<lparr>rebaseInput := SetValue (Blur (rebaseInput m)) []\<rparr>, NoCmd)
      else if viewMode m = ''diff'' then (m\<lparr>viewMode := ''files''\<rparr>, NoCmd)
      else if branchComparison m \<noteq> None then (m\<lparr>branchComparison := None\<rparr>, NoCmd)
      else if tab m = ''tools'' \<and> toolMode m \<noteq> ''menu''
      then (updateToolsTable ui (m\<lparr>toolMode := ''menu''\<rparr>), NoCmd)
      else if confirmAction m \<noteq> []
      then (m\<lparr>confirmAction := [], statusMsg := ([CHR 0xE2, CHR 0x9D, CHR 0x8C] @ '' Action cancelled''),
              statusExpiry := now + 2 * second\<rparr>, NoCmd)
      else (m, NoCmd))"

definition handleConflictKeys ::
  "int \<Rightarrow> 'tbl widgets \<Rightarrow> 'tbl model \<Rightarrow> string \<Rightarrow> ('tbl model \<times> cmd) option" where
  "handleConflictKeys now ui m key =
     (if length (conflicts m) = 0 then Some (m, NoCmd)
      else
        (let selectedIndex = tableCursor ui (conflictsTable m) in
         if selectedIndex \<ge> int (length (conflicts m)) then Some (m, NoCmd)
         else if key = ''o'' then Some (m, ResolveConflict selectedIndex ''ours'' (conflicts m))
         else if key = ''t'' then Some (m, ResolveConflict selectedIndex ''theirs'' (conflicts m))
         else if key = ''b'' then Some (m, ResolveConflict selectedIndex ''both'' (conflicts m))
         else if key = ''enter'' then Some (m, NoCmd)
         else if key = ''c'' then
           (if allConflictsResolved m then Some (m, ContinueMerge)
            else Some (m\<lparr>statusMsg := ([CHR 0xE2, CHR 0x9D, CHR 0x8C] @ '' Resolve all conflicts before continuing''),
                         statusExpiry := now + 3 * second\<rparr>, NoCmd))
         else (case tableUpdate ui (conflictsTable m) (KeyMsg key) of
                 (t, c) \<Rightarrow> Some (m\<lparr>conflictsTable := t\<rparr>, c))))"

definition handleWorkspaceKeys ::
  "int \<Rightarrow> 'tbl widgets \<Rightarrow> 'tbl model \<Rightarrow> string \<Rightarrow> ('tbl model \<times> cmd) option" where
  "handleWorkspaceKeys now ui m key =
     (if viewMode m = ''conflicts'' then handleConflictKeys now ui m key
      else if key = '' '' then
        (if length (changes m) > 0 \<and> tableCursor ui (filesTable m) < int (length (changes m))
         then (case goIndex (changes m) (tableCursor ui (filesTable m)) of
                 None \<Rightarrow> None
               | Some change \<Rightarrow> Some (m, ToggleStaging (File change)))
         else Some (m, NoCmd))
      else if key = ''a'' then Some (m, Batch [GitAddAll, RefreshAfterStaging])
      else if key = ''r'' then Some (m, Batch [LoadGitChanges, LoadGitStatus])
      else if key = ''v'' then
        (let m1 = m\<lparr>showDiffPreview := \<not> showDiffPreview m\<rparr> in
         if showDiffPreview m1 \<and> length (changes m1) > 0
            \<and> tableCursor ui (filesTable m1) < int (length (changes m1))
         then (case goIndex (changes m1) (tableCursor ui (filesTable m1)) of
                 None \<Rightarrow> None
               | Some change \<Rightarrow> Some (m1, ViewDiff (File change)))
         else Some (m1, NoCmd))
      else if key = ''d'' then
        (if length (changes m) > 0 \<and> tableCursor ui (filesTable m) < int (length (changes m))
         then (case goIndex (changes m) (tableCursor ui (filesTable m)) of
                 None \<Rightarrow> None
               | Some change \<Rightarrow> Some (m\<lparr>viewMode := ''diff''\<rparr>, ViewDiff (File change)))
         else Some (m, NoCmd))
      else if key = ''R'' then Some (m, Batch [GitReset, RefreshAfterStaging])
      else
        (let m1 = (if key = ''up'' \<or> key = ''down''
                   then m\<lparr>statusMsg := ''DEBUG: Passing '' @ key @ '' to filesTable'',
                           statusExpiry := now + 1 * second\<rparr>
                   else m)
         in case tableUpdate ui (filesTable m1) (KeyMsg key) of
              (t, c) \<Rightarrow> Some (m1\<lparr>filesTable := t\<rparr>, c)))"

definition handleCommitKeys ::
  "int \<Rightarrow> 'tbl widgets \<Rightarrow> 'tbl model \<Rightarrow> string \<Rightarrow> ('tbl model \<times> cmd) option" where
  "handleCommitKeys now ui m key =
     (if Focused (commitInput m) then
        (if key = ''enter'' \<and> inputValue (commitInput m) \<noteq> []
         then Some (m\<lparr>commitInput := Blur (SetValue (commitInput m) []),
                      selectedSuggestion := 0\<rparr>,
                    Batch [CommitWithMessage (inputValue (commitInput m)), RefreshAfterCommit])
         else Some (m, NoCmd))
      else if key = ''up'' \<or> key = ''k'' then
        Some (if selectedSuggestion m > 0
              then m\<lparr>selectedSuggestion := selectedSuggestion m - 1\<rparr> else m, NoCmd)
      else if key = ''down'' \<or> key = ''j'' then
        Some (if selectedSuggestion m < int (length (suggestions m))
              then m\<lparr>selectedSuggestion := selectedSuggestion m + 1\<rparr> else m, NoCmd)
      else if key = ''enter'' \<and> selectedSuggestion m > 0 then
        (if selectedSuggestion m \<le> int (length (suggestions m))
         then (case goIndex (suggestions m) (selectedSuggestion m - 1) of
                 None \<Rightarrow> None
               | Some suggestion \<Rightarrow>
                   Some (m, Batch [CommitWithMessage (SuggestionMessage suggestion),
                                   RefreshAfterCommit]))
         else Some (m, NoCmd))
      else if key = '' '' \<and> selectedSuggestion m > 0 then
        (if selectedSuggestion m \<le> int (length (suggestions m))
         then (case goIndex (suggestions m) (selectedSuggestion m - 1) of
                 None \<Rightarrow> None
               | Some suggestion \<Rightarrow>
                   Some (m, Batch [CommitWithMessage (SuggestionMessage suggestion),
                                   RefreshAfterCommit]))
         else Some (m, NoCmd))
      else if key = ''c'' \<or> (key = ''enter'' \<and> selectedSuggestion m = 0) then
        Some (m\<lparr>commitInput := Focus (commitInput m), selectedSuggestion := - 1\<rparr>, NoCmd)
      else Some (m, NoCmd))"

text \<open>The loop of the key \<open>c\<close> that looks for \<open>main\<close>, then \<open>master\<close>.\<close>

fun compareTarget :: "Branch list \<Rightarrow> string \<Rightarrow> string" where
  "compareTarget [] targetBranch = targetBranch"
| "compareTarget (b # bs) targetBranch =
     (if Name b = ''main'' then ''main''
      else if Name b = ''master'' then compareTarget bs ''master''
      else compareTarget bs targetBranch)"

definition handleBranchesKeys ::
  "int \<Rightarrow> 'tbl widgets \<Rightarrow> 'tbl model \<Rightarrow> string \<Rightarrow> ('tbl model \<times> cmd) option" where
  "handleBranchesKeys now ui m key =
     (if Focused (branchInput m) then
        (if key = ''enter'' \<and> inputValue (branchInput m) \<noteq> []
         then Some (m\<lparr>branchInput := Blur (SetValue (branchInput m) [])\<rparr>,
                    CreateBranch (inputValue (branchInput m)))
         else Some (m, NoCmd))
      else if branchComparison m \<noteq> None then
        (case tableUpdate ui (comparisonTable m) (KeyMsg key) of
           (t, c) \<Rightarrow> Some (m\<lparr>comparisonTable := t\<rparr>, c))
      else if key = ''enter'' then
        (if length (branches m) > 0
            \<and> tableCursor ui (branchesTable m) < int (length (branches m))
         then (case goIndex (branches m) (tableCursor ui (branchesTable m)) of
                 None \<Rightarrow> None
               | Some branch \<Rightarrow>
                   if \<not> IsCurrent branch then Some (m, SwitchBranch (Name branch))
                   else Some (m, NoCmd))
         else Some (m, NoCmd))
      else if key = ''n'' then Some (m\<lparr>branchInput := Focus (branchInput m)\<rparr>, NoCmd)
      else if key = ''d'' then
        (if length (branches m) > 0
            \<and> tableCursor ui (branchesTable m) < int (length (branches m))
         then (case goIndex (branches m) (tableCursor ui (branchesTable m)) of
                 None \<Rightarrow> None
               | Some branch \<Rightarrow>
                   if IsCurrent branch
                   then Some (m\<lparr>statusMsg := ([CHR 0xE2, CHR 0x9D, CHR 0x8C] @ '' Cannot delete current branch''),
                                statusExpiry := now + 3 * second\<rparr>, NoCmd)
                   else Some (m\<lparr>confirmAction := ''delete-branch:'' @ Name branch,
                                statusMsg := ([CHR 0xE2, CHR 0x9A, CHR 0xA0, CHR 0xEF, CHR 0xB8, CHR 0x8F] @ '' Press '' @ [CHR 0x27] @ ''y'' @ [CHR 0x27] @ '' to confirm delete '' @ [CHR 0x27]) @ Name branch
                                             @ ([CHR 0x27] @ '', or ESC to cancel''),
                                statusExpiry := now + 10 * second\<rparr>, NoCmd))
         else Some (m, NoCmd))
      else if key = ''y'' then
        (if hasPrefix (confirmAction m) ''delete-branch:''
         then Some (m\<lparr>confirmAction := []\<rparr>,
                    DeleteBranch (drop (length ''delete-branch:'') (confirmAction m)))
         else Some (m, NoCmd))
      else if key = ''c'' then Some (m, LoadBranchComparison (compareTarget (branches m) ''main''))
      else if key = ''r'' then Some (m, LoadBranches)
      else (case tableUpdate ui (branchesTable m) (KeyMsg key) of
              (t, c) \<Rightarrow> Some (m\<lparr>branchesTable := t\<rparr>, c)))"

definition handleToolsMenuKeys ::
  "int \<Rightarrow> 'tbl widgets \<Rightarrow> 'tbl model \<Rightarrow> string \<Rightarrow> ('tbl model \<times> cmd) option" where
  "handleToolsMenuKeys now ui m key =
     (if key = ''enter'' \<and> tableCursor ui (toolsTable m) = 0
      then Some (m\<lparr>toolMode := ''undo''\<rparr>, NoCmd)
      else if key = ''enter'' \<and> tableCursor ui (toolsTable m) = 1
      then Some (m\<lparr>toolMode := ''rebase'', rebaseInput := Focus (rebaseInput m)\<rparr>, NoCmd)
      else if key = ''enter'' \<and> tableCursor ui (toolsTable m) = 2
      then Some (m\<lparr>toolMode := ''history''\<rparr>, LoadHistory)
      else if key = ''enter'' \<and> tableCursor ui (toolsTable m) = 3
      then Some (m\<lparr>toolMode := ''remote''\<rparr>, NoCmd)
      else (case tableUpdate ui (toolsTable m) (KeyMsg key) of
              (t, c) \<Rightarrow> Some (m\<lparr>toolsTable := t\<rparr>, c)))"

definition handleUndoKeys ::
  "int \<Rightarrow> 'tbl widgets \<Rightarrow> 'tbl model \<Rightarrow> string \<Rightarrow> ('tbl model \<times> cmd) option" where
  "handleUndoKeys now ui m key =
     (if key = ''enter'' \<and> tableCursor ui (undoTable m) = 0
      then Some (m\<lparr>confirmAction := ''soft-reset'',
                   statusMsg := ([CHR 0xE2, CHR 0x9A, CHR 0xA0, CHR 0xEF, CHR 0xB8, CHR 0x8F] @ '' Press '' @ [CHR 0x27] @ ''y'' @ [CHR 0x27] @ '' to undo last commit (keep changes), or ESC to cancel''),
                   statusExpiry := now + 10 * second\<rparr>, NoCmd)
      else if key = ''enter'' \<and> tableCursor ui (undoTable m) = 1
      then Some (m\<lparr>confirmAction := ''mixed-reset'',
                   statusMsg := ([CHR 0xE2, CHR 0x9A, CHR 0xA0, CHR 0xEF, CHR 0xB8, CHR 0x8F] @ '' Press '' @ [CHR 0x27] @ ''y'' @ [CHR 0x27] @ '' to undo last commit (unstage changes), or ESC to cancel''),
                   statusExpiry := now + 10 * second\<rparr>, NoCmd)
      else if key = ''enter'' \<and> tableCursor ui (undoTable m) = 2
      then Some (m\<lparr>confirmAction := ''hard-reset'',
                   statusMsg := ([CHR 0xE2, CHR 0x9A, CHR 0xA0, CHR 0xEF, CHR 0xB8, CHR 0x8F, CHR 0xE2, CHR 0x9A, CHR 0xA0, CHR 0xEF, CHR 0xB8, CHR 0x8F, CHR 0xE2, CHR 0x9A, CHR 0xA0, CHR 0xEF, CHR 0xB8, CHR 0x8F] @ '' DANGEROUS: Press '' @ [CHR 0x27] @ ''y'' @ [CHR 0x27] @ '' to undo and DISCARD changes, or ESC to cancel''),
                   statusExpiry := now + 15 * second\<rparr>, NoCmd)
      else if key = ''enter'' \<and> tableCursor ui (undoTable m) = 3
      then Some (m, LoadReflog)
      else if key = ''y'' then
        (if confirmAction m = ''soft-reset'' then Some (m\<lparr>confirmAction := []\<rparr>, SoftReset 1)
         else if confirmAction m = ''mixed-reset''
         then Some (m\<lparr>confirmAction := []\<rparr>, MixedReset 1)
         else if confirmAction m = ''hard-reset''
         then Some (m\<lparr>confirmAction := []\<rparr>, HardReset 1)
         else Some (m, NoCmd))
      else (case tableUpdate ui (undoTable m) (KeyMsg key) of
              (t, c) \<Rightarrow> Some (m\<lparr>undoTable := t\<rparr>, c)))"

definition setAction ::
  "'tbl widgets \<Rightarrow> 'tbl model \<Rightarrow> int \<Rightarrow> string \<Rightarrow> ('tbl model \<times> cmd) option" where
  "setAction ui m selectedIndex action =
     (case goIndex (rebaseCommits m) selectedIndex of
        None \<Rightarrow> None
      | Some commit \<Rightarrow>
          Some (updateRebaseTable ui
                  (m\<lparr>rebaseCommits :=
                       (rebaseCommits m)[nat selectedIndex := commit\<lparr>Action := action\<rparr>]\<rparr>),
                NoCmd))"

definition handleRebaseKeys ::
  "int \<Rightarrow> 'tbl widgets \<Rightarrow> 'tbl model \<Rightarrow> string \<Rightarrow> ('tbl model \<times> cmd) option" where
  "handleRebaseKeys now ui m key =
     (if Focused (rebaseInput m) then
        (if key = ''enter'' \<and> inputValue (rebaseInput m) \<noteq> [] then
           (case atoi (inputValue (rebaseInput m)) of
              Some count \<Rightarrow>
                if count > 0 \<and> count \<le> 50
                then Some (m\<lparr>rebaseInput := Blur (SetValue (rebaseInput m) [])\<rparr>,
                           LoadRebaseCommits count)
                else Some (m\<lparr>statusMsg := ([CHR 0xE2, CHR 0x9D, CHR 0x8C] @ '' Invalid count (must be 1-50)''),
                             statusExpiry := now + 3 * second\<rparr>, NoCmd)
            | None \<Rightarrow>
                Some (m\<lparr>statusMsg := ([CHR 0xE2, CHR 0x9D, CHR 0x8C] @ '' Invalid count (must be 1-50)''),
                        statusExpiry := now + 3 * second\<rparr>, NoCmd))
         else Some (m, NoCmd))
      else if length (rebaseCommits m) > 0 then
        (let selectedIndex = tableCursor ui (rebaseTable m) in
         if selectedIndex \<ge> int (length (rebaseCommits m)) then Some (m, NoCmd)
         else if key = ''p'' then setAction ui m selectedIndex ''pick''
         else if key = ''s'' then setAction ui m selectedIndex ''squash''
         else if key = ''r'' then setAction ui m selectedIndex ''reword''
         else if key = ''d'' then setAction ui m selectedIndex ''drop''
         else if key = ''f'' then setAction ui m selectedIndex ''fixup''
         else if key = ''enter'' then
           Some (m\<lparr>confirmAction := ''execute-rebase'',
                   statusMsg := ([CHR 0xE2, CHR 0x9A, CHR 0xA0, CHR 0xEF, CHR 0xB8, CHR 0x8F] @ '' Press '' @ [CHR 0x27] @ ''y'' @ [CHR 0x27] @ '' to execute rebase, or ESC to cancel''),
                   statusExpiry := now + 10 * second\<rparr>, NoCmd)
         else if key = ''y'' then
           (if confirmAction m = ''execute-rebase''
            then Some (m\<lparr>confirmAction := []\<rparr>, ExecuteRebase)
            else Some (m, NoCmd))
         else (case tableUpdate ui (rebaseTable m) (KeyMsg key) of
                 (t, c) \<Rightarrow> Some (m\<lparr>rebaseTable := t\<rparr>, c)))
      else Some (m, NoCmd))"

definition handleHistoryKeys ::
  "int \<Rightarrow> 'tbl widgets \<Rightarrow> 'tbl model \<Rightarrow> string \<Rightarrow> ('tbl model \<times> cmd) option" where
  "handleHistoryKeys now ui m key =
     (if key = ''r'' then Some (m, LoadHistory)
      else if key = ''c'' then
        (if length (commits m) > 0
            \<and> tableCursor ui (historyTable m) < int (length (commits m))
         then (case goIndex (commits m) (tableCursor ui (historyTable m)) of
                 None \<Rightarrow> None
               | Some commit \<Rightarrow>
                   Some (m\<lparr>statusMsg := ([CHR 0xF0, CHR 0x9F, CHR 0x93, CHR 0x8B] @ '' Hash: '') @ Hash commit,
                           statusExpiry := now + 5 * second\<rparr>, NoCmd))
         else Some (m, NoCmd))
      else (case tableUpdate ui (historyTable m) (KeyMsg key) of
              (t, c) \<Rightarrow> Some (m\<lparr>historyTable := t\<rparr>, c)))"

definition handleRemoteKeys ::
  "int \<Rightarrow> 'tbl widgets \<Rightarrow> 'tbl model \<Rightarrow> string \<Rightarrow> ('tbl model \<times> cmd) option" where
  "handleRemoteKeys now ui m key =
     (if key = ''p'' then Some (m, GitPush)
      else if key = ''l'' then Some (m, GitPull)
      else if key = ''f'' then Some (m, GitFetch)
      else Some (m, NoCmd))"

definition handleToolsKeys ::
  "int \<Rightarrow> 'tbl widgets \<Rightarrow> 'tbl model \<Rightarrow> string \<Rightarrow> ('tbl model \<times> cmd) option" where
  "handleToolsKeys now ui m key =
     (if toolMode m = ''menu'' then handleToolsMenuKeys now ui m key
      else if toolMode m = ''undo'' then handleUndoKeys now ui m key
      else if toolMode m = ''rebase'' then handleRebaseKeys now ui m key
      else if toolMode m = ''history'' then handleHistoryKeys now ui m key
      else if toolMode m = ''remote'' then handleRemoteKeys now ui m key
      else Some (m, NoCmd))"

definition handleKeyPress ::
  "int \<Rightarrow> 'tbl widgets \<Rightarrow> 'tbl model \<Rightarrow> string \<Rightarrow> ('tbl model \<times> cmd) option" where
  "handleKeyPress now ui m key =
     (if key = ''esc'' then Some (handleEscape now ui m)
      else if key = ''ctrl+c'' \<or> (key = ''q'' \<and> \<not> anyInputFocused m) then Some (m, Quit)
      else if \<not> anyInputFocused m \<and> key = ''1''
      then Some (m\<lparr>tab := ''workspace'', viewMode := ''files''\<rparr>, NoCmd)
      else if \<not> anyInputFocused m \<and> key = ''2'' then
        (if StagedFiles (gitState m) > 0
         then Some (m\<lparr>tab := ''commit'', selectedSuggestion := 0\<rparr>, NoCmd)
         else Some (m\<lparr>statusMsg := ([CHR 0xE2, CHR 0x9D, CHR 0x8C] @ '' No files staged. Stage files first in workspace.''),
                      statusExpiry := now + 3 * second\<rparr>, NoCmd))
      else if \<not> anyInputFocused m \<and> key = ''3''
      then Some (m\<lparr>tab := ''branches'', branchComparison := None\<rparr>, LoadBranches)
      else if \<not> anyInputFocused m \<and> key = ''4''
      then Some (updateToolsTable ui (m\<lparr>tab := ''tools'', toolMode := ''menu''\<rparr>), NoCmd)
      else if tab m = ''workspace'' then handleWorkspaceKeys now ui m key
      else if tab m = ''commit'' then handleCommitKeys now ui m key
      else if tab m = ''branches'' then handleBranchesKeys now ui m key
      else if tab m = ''tools'' then handleToolsKeys now ui m key
      else Some (m, NoCmd))"

subsection \<open>The update function\<close>

definition updateComponent :: "'tbl widgets \<Rightarrow> 'tbl model \<Rightarrow> msg \<Rightarrow> 'tbl model \<times> cmd" where
  "updateComponent ui m msg =
     (if tab m = ''workspace'' then
        (if viewMode m = ''files''
         then (case tableUpdate ui (filesTable m) msg of
                 (t, c) \<Rightarrow> (m\<lparr>filesTable := t\<rparr>, Batch [c]))
         else if viewMode m = ''conflicts''
         then (case tableUpdate ui (conflictsTable m) msg of
                 (t, c) \<Rightarrow> (m\<lparr>conflictsTable := t\<rparr>, Batch [c]))
         else (m, Batch []))
      else if tab m = ''commit'' then
        (if Focused (commitInput m)
         then (case inputUpdate ui (commitInput m) msg of
                 (i, c) \<Rightarrow> (m\<lparr>commitInput := i\<rparr>, Batch [c]))
         else (m, Batch []))
      else if tab m = ''branches'' then
        (if Focused (branchInput m)
         then (case inputUpdate ui (branchInput m) msg of
                 (i, c) \<Rightarrow> (m\<lparr>branchInput := i\<rparr>, Batch [c]))
         else if branchComparison m \<noteq> None
         then (case tableUpdate ui (comparisonTable m) msg of
                 (t, c) \<Rightarrow> (m\<lparr>comparisonTable := t\<rparr>, Batch [c]))
         else (case tableUpdate ui (branchesTable m) msg of
                 (t, c) \<Rightarrow> (m\<lparr>branchesTable := t\<rparr>, Batch [c])))
      else if tab m = ''tools'' then
        (if toolMode m = ''menu''
         then (case tableUpdate ui (toolsTable m) msg of
                 (t, c) \<Rightarrow> (m\<lparr>toolsTable := t\<rparr>, Batch [c]))
         else if toolMode m = ''undo''
         then (case tableUpdate ui (undoTable m) msg of
                 (t, c) \<Rightarrow> (m\<lparr>undoTable := t\<rparr>, Batch [c]))
         else if toolMode m = ''history''
         then (case tableUpdate ui (historyTable m) msg of
                 (t, c) \<Rightarrow> (m\<lparr>historyTable := t\<rparr>, Batch [c]))
         else if toolMode m = ''rebase'' then
           (if Focused (rebaseInput m)
            then (case inputUpdate ui (rebaseInput m) msg of
                    (i, c) \<Rightarrow> (m\<lparr>rebaseInput := i\<rparr>, Batch [c]))
            else (case tableUpdate ui (rebaseTable m) msg of
                    (t, c) \<Rightarrow> (m\<lparr>rebaseTable := t\<rparr>, Batch [c])))
         else (m, Batch []))
      else (m, Batch []))"

fun Update :: "int \<Rightarrow> 'tbl widgets \<Rightarrow> 'tbl model \<Rightarrow> msg \<Rightarrow> ('tbl model \<times> cmd) option" where
  "Update now ui m (WindowSizeMsg w h) =
     Some (adjustTableSizes ui (m\<lparr>width := w, height := h\<rparr>), NoCmd)"
| "Update now ui m (KeyMsg key) = handleKeyPress now ui m key"
| "Update now ui m (GitChangesMsg cs) =
     (let m1 = updateFilesTable ui (m\<lparr>changes := cs\<rparr>) in
      if hasConflicts m1 then Some (m1, LoadConflicts)
      else Some (m1, GenerateCommitSuggestions (changes m1)))"
| "Update now ui m (CommitSuggestionsMsg ss) = Some (m\<lparr>suggestions := ss\<rparr>, NoCmd)"
| "Update now ui m (GitStatusMsg st) =
     Some (m\<lparr>gitState := st, lastStatusUpdate := now\<rparr>, NoCmd)"
| "Update now ui m (BranchesMsg bs) = Some (updateBranchesTable ui (m\<lparr>branches := bs\<rparr>), NoCmd)"
| "Update now ui m (CommitsMsg cs) = Some (updateHistoryTable ui (m\<lparr>commits := cs\<rparr>), NoCmd)"
| "Update now ui m (RecentCommitsMsg cs) = Some (m\<lparr>recentCommits := cs\<rparr>, NoCmd)"
| "Update now ui m (DiffMsg d) = Some (m\<lparr>diffContent := d\<rparr>, NoCmd)"
| "Update now ui m (ConflictsMsg cs) =
     (let m1 = updateConflictsTable ui (m\<lparr>conflicts := cs\<rparr>) in
      Some (if length (conflicts m1) > 0 then m1\<lparr>viewMode := ''conflicts''\<rparr> else m1, NoCmd))"
| "Update now ui m (ComparisonMsg comparison) =
     Some (updateComparisonTable ui (m\<lparr>branchComparison := Some comparison\<rparr>), NoCmd)"
| "Update now ui m (RebaseCommitsMsg cs) =
     Some (updateRebaseTable ui (m\<lparr>rebaseCommits := cs\<rparr>), NoCmd)"
| "Update now ui m (StatusMsg message) =
     Some (m\<lparr>statusMsg := message, statusExpiry := now + 3 * second\<rparr>, NoCmd)"
| "Update now ui m (PushOutputMsg output commit) =
     Some (m\<lparr>pushOutput := output, lastCommit := commit,
             statusMsg := ([CHR 0xE2, CHR 0x9C, CHR 0x85] @ '' Pushed successfully''), statusExpiry := now + 3 * second\<rparr>, NoCmd)"
| "Update now ui m (OtherMsg n) = Some (updateComponent ui m (OtherMsg n))"

text \<open>
  The states the program can be in: the initial model, and every model that
  \<open>Update\<close> returns from one of them, for whatever message arrives at whatever time.
\<close>

inductive reachable :: "'tbl widgets \<Rightarrow> string \<Rightarrow> 'tbl model \<Rightarrow> bool"
  for ui :: "'tbl widgets" and wd :: string where
  reachable_init: "reachable ui wd (initialModel ui wd)"
| reachable_step: "reachable ui wd m \<Longrightarrow> Update now ui m msg = Some (m', c) \<Longrightarrow> reachable ui wd m'"

subsection \<open>Two commands, run\<close>

text \<open>
  \<^verbatim>\<open>commitWithMessage\<close>: the closure, run.  The world gives what
  \<^verbatim>\<open>git diff --cached --name-only\<close> prints (with the message of its error if it
  fails) and, for \<^verbatim>\<open>executeGitCommand\<close>, the \<open>gitWorld\<close> above.  Besides the message
  returned, the model keeps the list of calls of \<^verbatim>\<open>executeGitCommand\<close> that were made:
  the arguments, and what the attempts did.
\<close>

record commitWorld =
  stagedNames :: "string \<Rightarrow> string \<times> string option"
  git :: gitWorld

definition commitWithMessage ::
  "commitWorld \<Rightarrow> string \<Rightarrow> string \<Rightarrow> msg \<times> (string list \<times> attemptAction list) list" where
  "commitWithMessage w path message =
     (case stagedNames w path of
        (statusOutput, Some err) \<Rightarrow>
          (StatusMsg (([CHR 0xE2, CHR 0x9D, CHR 0x8C] @ '' Failed to check staged changes: '') @ err), [])
      | (statusOutput, None) \<Rightarrow>
          if length (trimSpace statusOutput) = 0
          then (StatusMsg ([CHR 0xE2, CHR 0x9D, CHR 0x8C] @ '' No staged changes to commit. Stage files first.''), [])
          else
            (case executeGitCommand (git w) path [''commit'', ''-m'', message] of
               ((output, err), attempts) \<Rightarrow>
                 (if err \<noteq> None
                  then StatusMsg ([CHR 0xE2, CHR 0x9D, CHR 0x8C] @ '' Commit failed - check commit message format'')
                  else StatusMsg (([CHR 0xE2, CHR 0x9C, CHR 0x85] @ '' Committed: '') @ message),
                  [([''commit'', ''-m'', message], attempts)])))"

text \<open>\<^verbatim>\<open>parseConflictMarkers\<close>: the variables of the loop, and one pass of its body.\<close>

record conflictScan =
  found :: "Conflict list"
  inConflict :: bool
  oursLines :: "string list"
  theirsLines :: "string list"
  inOurs :: bool
  lineStart :: int

definition conflictStep :: "conflictScan \<Rightarrow> nat \<times> string \<Rightarrow> conflictScan" where
  "conflictStep s il =
     (case il of (i, line) \<Rightarrow>
        if hasPrefix line ''<<<<<<< ''
        then s\<lparr>inConflict := True, inOurs := True, lineStart := int i,
               oursLines := [], theirsLines := []\<rparr>
        else if hasPrefix line ''======='' \<and> inConflict s then s\<lparr>inOurs := False\<rparr>
        else if hasPrefix line ''>>>>>>> '' \<and> inConflict s
        then s\<lparr>found := found s @ [\<lparr>LineStart = lineStart s, OursContent = oursLines s,
                                      TheirsContent = theirsLines s\<rparr>],
               inConflict := False\<rparr>
        else if inConflict s then
          (if inOurs s then s\<lparr>oursLines := oursLines s @ [line]\<rparr>
           else s\<lparr>theirsLines := theirsLines s @ [line]\<rparr>)
        else s)"

definition parseConflictMarkers :: "string \<Rightarrow> Conflict list" where
  "parseConflictMarkers content =
     (let lines = strSplit content (CHR 0x0A) in
      found (foldl conflictStep
               \<lparr>found = [], inConflict = False, oursLines = [], theirsLines = [],
                inOurs = False, lineStart = 0\<rparr>
               (zip [0..<length lines] lines)))"

text \<open>
  \<^verbatim>\<open>loadConflicts\<close>: the closure, run.  The world gives what
  \<^verbatim>\<open>git diff --name-only --diff-filter=U\<close> prints (with the message of its error if it
  fails) and the content of a file of the repository (\<open>None\<close> when it cannot be read).
\<close>

record conflictWorld =
  unmergedNames :: "string \<Rightarrow> string \<times> string option"
  readFile :: "string \<Rightarrow> string \<Rightarrow> string option"

definition conflictFileStep ::
  "conflictWorld \<Rightarrow> string \<Rightarrow> ConflictFile list \<Rightarrow> string \<Rightarrow> ConflictFile list" where
  "conflictFileStep w path conflictFiles file =
     (if file = [] then conflictFiles
      else (case readFile w path file of
              None \<Rightarrow> conflictFiles
            | Some content \<Rightarrow>
                (let cs = parseConflictMarkers content in
                 if length cs > 0
                 then conflictFiles @ [\<lparr>Path = file, Conflicts = cs, IsResolved = False\<rparr>]
                 else conflictFiles)))"

definition loadConflicts :: "conflictWorld \<Rightarrow> string \<Rightarrow> msg" where
  "loadConflicts w path =
     (case unmergedNames w path of
        (output, Some err) \<Rightarrow> StatusMsg (([CHR 0xE2, CHR 0x9D, CHR 0x8C] @ '' Failed to detect conflicts: '') @ err)
      | (output, None) \<Rightarrow>
          ConflictsMsg (foldl (conflictFileStep w path) []
                          (strSplit (trimSpace output) (CHR 0x0A))))"

text \<open>
  A table widget reduced to its cursor, which stays where it is; the examples below run
  the dispatcher with it.
\<close>

definition fixedTables :: "nat widgets" where
  "fixedTables =
     \<lparr>createTable = (\<lambda>name. 0), tableCursor = (\<lambda>t. int t),
      tableUpdate = (\<lambda>t msg. (t, NoCmd)), tableSetRows = (\<lambda>t rows. t),
      tableSetHeight = (\<lambda>t h. t), tableSetColumns = (\<lambda>t columns. t),
      inputUpdate = (\<lambda>i msg. (i, NoCmd))\<rparr>"

section \<open>Properties of the dispatcher\<close>

subsection \<open>Definitions used in the statements\<close>

text \<open>A result of a key handler that leaves the tab as it was.\<close>

definition keepsTab :: "'tbl model \<Rightarrow> ('tbl model \<times> cmd) option \<Rightarrow> bool" where
  "keepsTab m r = (case r of None \<Rightarrow> True | Some (m', c) \<Rightarrow> tab m' = tab m)"

text \<open>
  Running the dispatcher on a list of messages, each with the time at which it arrives;
  the branch under the cursor of the branches table; and what a key of the branches tab
  may do to the confirmation token.
\<close>

fun runMsgs :: "'tbl widgets \<Rightarrow> 'tbl model \<Rightarrow> (int \<times> msg) list \<Rightarrow> 'tbl model option" where
  "runMsgs ui m [] = Some m"
| "runMsgs ui m ((now, msg) # rest) =
     (case Update now ui m msg of None \<Rightarrow> None | Some (m', c) \<Rightarrow> runMsgs ui m' rest)"

definition selectedBranch :: "'tbl widgets \<Rightarrow> 'tbl model \<Rightarrow> Branch option" where
  "selectedBranch ui m = goIndex (branches m) (tableCursor ui (branchesTable m))"

definition tokenRule :: "'tbl widgets \<Rightarrow> 'tbl model \<Rightarrow> string \<Rightarrow> ('tbl model \<times> cmd) option \<Rightarrow> bool" where
  "tokenRule ui m key r =
     (case r of
        None \<Rightarrow> True
      | Some (m', c) \<Rightarrow>
          confirmAction m' = confirmAction m
          \<or> (key = ''y'' \<and> confirmAction m' = [])
          \<or> (key = ''d'' \<and> c = NoCmd
              \<and> (case selectedBranch ui m of
                    None \<Rightarrow> False
                  | Some b \<Rightarrow> \<not> IsCurrent b \<and> confirmAction m' = ''delete-branch:'' @ Name b)))"

definition featureThenMain :: "bool \<Rightarrow> Branch list" where
  "featureThenMain onFeature =
     [\<lparr>Name = ''feature'', IsCurrent = onFeature, Upstream = [], Ahead = 0, Behind = 0\<rparr>,
      \<lparr>Name = ''main'', IsCurrent = \<not> onFeature, Upstream = [], Ahead = 0, Behind = 0\<rparr>]"

definition staleToken :: "(int \<times> msg) list" where
  "staleToken =
     [(1, KeyMsg ''3''), (2, BranchesMsg (featureThenMain False)), (3, KeyMsg ''d''),
      (4, BranchesMsg (featureThenMain True))]"

subsection \<open>The escape key\<close>

text \<open>
  The cases of \<^verbatim>\<open>handleEscape\<close>, in the order in which it tests them: the three
  text inputs, the diff view, a branch comparison, a mode of the tools tab other than
  its menu (tested only when the tools tab is shown), a pending confirmation token.
\<close>

lemma handleEscape_commitInput:
  "Focused (commitInput m) \<Longrightarrow>
   handleEscape now ui m = (m\<lparr>commitInput := Blur (commitInput m), selectedSuggestion := 0\<rparr>, NoCmd)"
  by (simp add: handleEscape_def)

lemma handleEscape_branchInput:
  "\<not> Focused (commitInput m) \<Longrightarrow> Focused (branchInput m) \<Longrightarrow>
   handleEscape now ui m = (m\<lparr>branchInput := SetValue (Blur (branchInput m)) []\<rparr>, NoCmd)"
  by (simp add: handleEscape_def)

lemma handleEscape_rebaseInput:
  "\<not> Focused (commitInput m) \<Longrightarrow> \<not> Focused (branchInput m) \<Longrightarrow> Focused (rebaseInput m) \<Longrightarrow>
   handleEscape now ui m = (m\<lparr>rebaseInput := SetValue (Blur (rebaseInput m)) []\<rparr>, NoCmd)"
  by (simp add: handleEscape_def)

lemma handleEscape_diff:
  "\<not> anyInputFocused m \<Longrightarrow> viewMode m = ''diff'' \<Longrightarrow>
   handleEscape now ui m = (m\<lparr>viewMode := ''files''\<rparr>, NoCmd)"
  by (simp add: handleEscape_def anyInputFocused_def)

lemma handleEscape_comparison:
  "\<not> anyInputFocused m \<Longrightarrow> viewMode m \<noteq> ''diff'' \<Longrightarrow> branchComparison m \<noteq> None \<Longrightarrow>
   handleEscape now ui m = (m\<lparr>branchComparison := None\<rparr>, NoCmd)"
  by (simp add: handleEscape_def anyInputFocused_def)

lemma handleEscape_toolMode:
  "\<not> anyInputFocused m \<Longrightarrow> viewMode m \<noteq> ''diff'' \<Longrightarrow> branchComparison m = None \<Longrightarrow>
   tab m = ''tools'' \<Longrightarrow> toolMode m \<noteq> ''menu'' \<Longrightarrow>
   handleEscape now ui m = (updateToolsTable ui (m\<lparr>toolMode := ''menu''\<rparr>), NoCmd)"
  by (simp add: handleEscape_def anyInputFocused_def)

lemma handleEscape_confirm:
  "\<not> anyInputFocused m \<Longrightarrow> viewMode m \<noteq> ''diff'' \<Longrightarrow> branchComparison m = None \<Longrightarrow>
   \<not> (tab m = ''tools'' \<and> toolMode m \<noteq> ''menu'') \<Longrightarrow> confirmAction m \<noteq> [] \<Longrightarrow>
   handleEscape now ui m =
     (m\<lparr>confirmAction := [], statusMsg := ([CHR 0xE2, CHR 0x9D, CHR 0x8C] @ '' Action cancelled''),
        statusExpiry := now + 2 * second\<rparr>, NoCmd)"
  by (cases "tab m = ''tools''") (simp_all add: handleEscape_def anyInputFocused_def)

lemma handleEscape_idle:
  "\<not> anyInputFocused m \<Longrightarrow> viewMode m \<noteq> ''diff'' \<Longrightarrow> branchComparison m = None \<Longrightarrow>
   \<not> (tab m = ''tools'' \<and> toolMode m \<noteq> ''menu'') \<Longrightarrow> confirmAction m = [] \<Longrightarrow>
   handleEscape now ui m = (m, NoCmd)"
  by (cases "tab m = ''tools''") (simp_all add: handleEscape_def anyInputFocused_def)

subsection \<open>The tab only changes by the keys 1 to 4\<close>

lemma keepsTab_simps [simp]:
  "keepsTab m None" "keepsTab m (Some (m', c)) = (tab m' = tab m)"
  by (simp_all add: keepsTab_def)

lemma keepsTabD: "keepsTab m r \<Longrightarrow> r = Some (m', c) \<Longrightarrow> tab m' = tab m"
  by (simp add: keepsTab_def)

lemma tab_handleEscape: "tab (fst (handleEscape now ui m)) = tab m"
  by (simp add: handleEscape_def updateToolsTable_def)

lemma tab_handleConflictKeys: "keepsTab m (handleConflictKeys now ui m key)"
  by (simp add: handleConflictKeys_def Let_def split: prod.split)

lemma tab_handleWorkspaceKeys: "keepsTab m (handleWorkspaceKeys now ui m key)"
  by (simp add: handleWorkspaceKeys_def tab_handleConflictKeys Let_def split: prod.split option.split)

lemma tab_handleCommitKeys: "keepsTab m (handleCommitKeys now ui m key)"
  by (simp add: handleCommitKeys_def Let_def split: prod.split option.split)

lemma tab_handleBranchesKeys: "keepsTab m (handleBranchesKeys now ui m key)"
  by (simp add: handleBranchesKeys_def Let_def split: prod.split option.split)

lemma tab_handleToolsMenuKeys: "keepsTab m (handleToolsMenuKeys now ui m key)"
  by (simp add: handleToolsMenuKeys_def split: prod.split)

lemma tab_handleUndoKeys: "keepsTab m (handleUndoKeys now ui m key)"
  by (simp add: handleUndoKeys_def split: prod.split)

lemma tab_setAction: "keepsTab m (setAction ui m i a)"
  by (simp add: setAction_def updateRebaseTable_def split: option.split)

lemma tab_handleRebaseKeys: "keepsTab m (handleRebaseKeys now ui m key)"
  by (simp add: handleRebaseKeys_def Let_def tab_setAction split: prod.split option.split)

lemma tab_handleHistoryKeys: "keepsTab m (handleHistoryKeys now ui m key)"
  by (simp add: handleHistoryKeys_def split: prod.split option.split)

lemma tab_handleRemoteKeys: "keepsTab m (handleRemoteKeys now ui m key)"
  by (simp add: handleRemoteKeys_def)

lemma tab_handleToolsKeys: "keepsTab m (handleToolsKeys now ui m key)"
  by (simp add: handleToolsKeys_def tab_handleToolsMenuKeys tab_handleUndoKeys tab_handleRebaseKeys tab_handleHistoryKeys tab_handleRemoteKeys)

lemma handleKeyPress_tab:
  "handleKeyPress now ui m key = Some (m', c) \<Longrightarrow> tab m' \<noteq> tab m \<Longrightarrow>
   \<not> anyInputFocused m \<and>
   (key = ''1'' \<and> tab m' = ''workspace'' \<or> key = ''2'' \<and> tab m' = ''commit'' \<and> 0 < StagedFiles (gitState m)
    \<or> key = ''3'' \<and> tab m' = ''branches'' \<or> key = ''4'' \<and> tab m' = ''tools'')"
proof -
  assume r: "handleKeyPress now ui m key = Some (m', c)" and t: "tab m' \<noteq> tab m"
  have esc: "key \<noteq> ''esc''"
  proof
    assume "key = ''esc''"
    with r have "m' = fst (handleEscape now ui m)" by (simp add: handleKeyPress_def)
    with t tab_handleEscape [of now ui m] show False by simp
  qed
  have quit: "\<not> (key = ''ctrl+c'' \<or> (key = ''q'' \<and> \<not> anyInputFocused m))"
    using r t esc by (auto simp add: handleKeyPress_def)
  let ?digit = "\<not> anyInputFocused m \<and> (key = ''1'' \<or> key = ''2'' \<or> key = ''3'' \<or> key = ''4'')"
  show ?thesis
  proof (cases ?digit)
    case True
    with r t esc quit show ?thesis
      by (auto simp add: handleKeyPress_def updateToolsTable_def split: if_splits)
  next
    case False
    with r esc quit have "handleWorkspaceKeys now ui m key = Some (m', c)
        \<or> handleCommitKeys now ui m key = Some (m', c)
        \<or> handleBranchesKeys now ui m key = Some (m', c)
        \<or> handleToolsKeys now ui m key = Some (m', c) \<or> m' = m"
      by (auto simp add: handleKeyPress_def split: if_splits)
    then have "tab m' = tab m"
    proof (elim disjE)
      assume "handleWorkspaceKeys now ui m key = Some (m', c)"
      then show ?thesis by (rule keepsTabD [OF tab_handleWorkspaceKeys])
    next
      assume "handleCommitKeys now ui m key = Some (m', c)"
      then show ?thesis by (rule keepsTabD [OF tab_handleCommitKeys])
    next
      assume "handleBranchesKeys now ui m key = Some (m', c)"
      then show ?thesis by (rule keepsTabD [OF tab_handleBranchesKeys])
    next
      assume "handleToolsKeys now ui m key = Some (m', c)"
      then show ?thesis by (rule keepsTabD [OF tab_handleToolsKeys])
    next
      assume "m' = m" then show ?thesis by simp
    qed
    with t show ?thesis by simp
  qed
qed

subsection \<open>Commit, conflicts and branch deletion\<close>

lemma someUnresolved_iff: "someUnresolved cs = (\<not> list_all IsResolved cs)"
  by (induction cs) auto

lemma allConflictsResolved_flags: "allConflictsResolved m = list_all IsResolved (conflicts m)"
  by (cases "conflicts m") (simp_all add: allConflictsResolved_def someUnresolved_iff)

lemma conflictFileStep_unresolved:
  "list_all (\<lambda>c. \<not> IsResolved c) acc \<Longrightarrow> list_all (\<lambda>c. \<not> IsResolved c) (conflictFileStep w path acc file)"
  by (simp add: conflictFileStep_def Let_def split: option.splits)

lemma foldl_conflictFileStep_unresolved:
  "list_all (\<lambda>c. \<not> IsResolved c) acc \<Longrightarrow> list_all (\<lambda>c. \<not> IsResolved c) (foldl (conflictFileStep w path) acc files)"
  by (induction files arbitrary: acc) (simp_all add: conflictFileStep_unresolved)

lemma loadConflicts_unresolved:
  "loadConflicts w path = ConflictsMsg cs \<Longrightarrow> list_all (\<lambda>c. \<not> IsResolved c) cs"
  using foldl_conflictFileStep_unresolved [of "[]" w path]
  by (auto simp add: loadConflicts_def split: prod.splits option.splits)

lemma unresolved_all: "list_all (\<lambda>c. \<not> IsResolved c) cs \<Longrightarrow> list_all IsResolved cs = (cs = [])"
  by (cases cs) auto

lemma Update_ConflictsMsg_conflicts:
  "Update now ui m (ConflictsMsg cs) = Some (m', c) \<Longrightarrow> conflicts m' = cs"
  by (auto simp add: Let_def updateConflictsTable_def split: if_splits)

lemma loaded_never_resolved:
  "loadConflicts w path = ConflictsMsg cs \<Longrightarrow> Update now ui m (ConflictsMsg cs) = Some (m', c) \<Longrightarrow>
   allConflictsResolved m' = (cs = [])"
proof -
  assume l: "loadConflicts w path = ConflictsMsg cs"
    and u: "Update now ui m (ConflictsMsg cs) = Some (m', c)"
  have "conflicts m' = cs" by (rule Update_ConflictsMsg_conflicts [OF u])
  moreover have "list_all IsResolved cs = (cs = [])"
    by (rule unresolved_all [OF loadConflicts_unresolved [OF l]])
  ultimately show ?thesis by (simp add: allConflictsResolved_flags)
qed

lemma commit_no_staged:
  "stagedNames w path = (out, None) \<Longrightarrow> trimSpace out = [] \<Longrightarrow>
   commitWithMessage w path message = (StatusMsg ([CHR 0xE2, CHR 0x9D, CHR 0x8C] @ '' No staged changes to commit. Stage files first.''), [])"
  by (simp add: commitWithMessage_def)

lemma commit_invoked_only_staged:
  "snd (commitWithMessage w path message) \<noteq> [] \<Longrightarrow> \<exists>out. stagedNames w path = (out, None) \<and> trimSpace out \<noteq> []"
  by (auto simp add: commitWithMessage_def split: prod.splits option.splits if_splits)

lemma commit_check_failed:
  "stagedNames w path = (out, Some e) \<Longrightarrow>
   commitWithMessage w path message = (StatusMsg (([CHR 0xE2, CHR 0x9D, CHR 0x8C] @ '' Failed to check staged changes: '') @ e), [])"
  by (simp add: commitWithMessage_def)

lemma key2_refused: "\<not> anyInputFocused m \<Longrightarrow> StagedFiles (gitState m) \<le> 0 \<Longrightarrow>
   handleKeyPress now ui m ''2'' = Some (m\<lparr>statusMsg := ([CHR 0xE2, CHR 0x9D, CHR 0x8C] @ '' No files staged. Stage files first in workspace.''), statusExpiry := now + 3 * second\<rparr>, NoCmd)"
  by (simp add: handleKeyPress_def)

lemma key2_accepted: "\<not> anyInputFocused m \<Longrightarrow> 0 < StagedFiles (gitState m) \<Longrightarrow>
   handleKeyPress now ui m ''2'' = Some (m\<lparr>tab := ''commit'', selectedSuggestion := 0\<rparr>, NoCmd)"
  by (simp add: handleKeyPress_def)

lemma reachable_runMsgs:
  "reachable ui wd m \<Longrightarrow> runMsgs ui m msgs = Some m' \<Longrightarrow> reachable ui wd m'"
proof (induction msgs arbitrary: m)
  case Nil
  then show ?case by simp
next
  case (Cons a msgs)
  obtain now msg where a: "a = (now, msg)" by (cases a)
  from Cons.prems(2) a obtain m1 c where u: "Update now ui m msg = Some (m1, c)"
    and r: "runMsgs ui m1 msgs = Some m'"
    by (auto split: option.splits)
  from Cons.prems(1) u have "reachable ui wd m1" by (rule reachable_step)
  with r show ?case by (rule Cons.IH [rotated])
qed

lemma goIndex_Some: "goIndex xs i = Some x \<Longrightarrow> 0 < length xs \<and> i < int (length xs)"
  by (auto simp add: goIndex_def split: if_splits)

lemma handleBranchesKeys_d_current:
  "\<not> Focused (branchInput m) \<Longrightarrow> branchComparison m = None \<Longrightarrow>
   selectedBranch ui m = Some b \<Longrightarrow> IsCurrent b \<Longrightarrow>
   handleBranchesKeys now ui m ''d'' =
     Some (m\<lparr>statusMsg := ([CHR 0xE2, CHR 0x9D, CHR 0x8C] @ '' Cannot delete current branch''),
             statusExpiry := now + 3 * second\<rparr>, NoCmd)"
  using goIndex_Some [of "branches m" "tableCursor ui (branchesTable m)" b]
  by (simp add: handleBranchesKeys_def selectedBranch_def)

lemma handleKeyPress_branches:
  "tab m = ''branches'' \<Longrightarrow> key \<notin> {''esc'', ''ctrl+c'', ''q'', ''1'', ''2'', ''3'', ''4''} \<Longrightarrow>
   handleKeyPress now ui m key = handleBranchesKeys now ui m key"
  by (simp add: handleKeyPress_def)

lemma tokenRule_simps [simp]:
  "tokenRule ui m key None"
  "tokenRule ui m key (Some (m', c)) =
     (confirmAction m' = confirmAction m
          \<or> (key = ''y'' \<and> confirmAction m' = [])
          \<or> (key = ''d'' \<and> c = NoCmd
              \<and> (case selectedBranch ui m of
                    None \<Rightarrow> False
                  | Some b \<Rightarrow> \<not> IsCurrent b \<and> confirmAction m' = ''delete-branch:'' @ Name b)))"
  by (simp_all add: tokenRule_def)

lemma handleBranchesKeys_token: "tokenRule ui m key (handleBranchesKeys now ui m key)"
  by (simp add: handleBranchesKeys_def selectedBranch_def Blur_def SetValue_def Focus_def
      split: prod.split option.split)

lemma staleToken_run:
  "(case runMsgs fixedTables (initialModel fixedTables ''/repo'') staleToken of
      None \<Rightarrow> False
    | Some m \<Rightarrow>
        tab m = ''branches'' \<and> confirmAction m = ''delete-branch:feature''
        \<and> map_option (\<lambda>b. (Name b, IsCurrent b)) (selectedBranch fixedTables m) = Some (''feature'', True)
        \<and> (case handleKeyPress 5 fixedTables m ''d'' of
              Some (m', NoCmd) \<Rightarrow> confirmAction m' = ''delete-branch:feature''
                 \<and> statusMsg m' = ([CHR 0xE2, CHR 0x9D, CHR 0x8C] @ '' Cannot delete current branch'')
            | _ \<Rightarrow> False)
        \<and> (case handleKeyPress 5 fixedTables m ''y'' of
              Some (m', DeleteBranch n) \<Rightarrow> n = ''feature''
            | _ \<Rightarrow> False))"
  by code_simp

subsection \<open>The claims on the dispatcher\<close>

text \<open>
  Three runs of the dispatcher from the initial model, and the states they reach.
  \<^item> \<open>conflictsArrive\<close>: a merge is in progress, and the list of the conflicted files
    arrives; the workspace switches to its conflicts view.
  \<^item> \<open>tokenThenConflicts\<close>: the tools tab, its undo mode, a soft reset asked for (the
    token is set), back to the workspace, and then the list of the conflicted files.
  \<^item> \<open>diffTokenComparison\<close>: in the branches tab the deletion of a branch is asked for
    (the token) and a comparison is shown; then the workspace, a change, its diff view.
\<close>

definition conflicted :: "ConflictFile list" where
  "conflicted =
     [\<lparr>Path = ''a.go'',
       Conflicts = [\<lparr>LineStart = 0, OursContent = [''x''], TheirsContent = [''y'']\<rparr>],
       IsResolved = False\<rparr>]"

definition compared :: BranchComparison where
  "compared =
     \<lparr>SourceBranch = ''main'', TargetBranch = ''feature'', AheadCommits = [],
      BehindCommits = [], DifferingFiles = [''a.go'']\<rparr>"

definition changedFile :: "GitChange list" where
  "changedFile = [\<lparr>File = ''a.go'', Status = '' M'', ChangeType = [], ChangeScope = []\<rparr>]"

definition conflictsArrive :: "(int \<times> msg) list" where
  "conflictsArrive = [(1, ConflictsMsg conflicted)]"

definition tokenThenConflicts :: "(int \<times> msg) list" where
  "tokenThenConflicts =
     [(1, KeyMsg ''4''), (2, KeyMsg ''enter''), (3, KeyMsg ''enter''), (4, KeyMsg ''1''),
      (5, ConflictsMsg conflicted)]"

definition diffTokenComparison :: "(int \<times> msg) list" where
  "diffTokenComparison =
     [(1, KeyMsg ''3''), (2, BranchesMsg (featureThenMain False)), (3, KeyMsg ''d''),
      (4, KeyMsg ''c''), (5, ComparisonMsg compared), (6, KeyMsg ''1''),
      (7, GitChangesMsg changedFile), (8, KeyMsg ''d''), (9, DiffMsg ''+x'')]"

definition conflictsView :: "nat model" where
  "conflictsView = the (runMsgs fixedTables (initialModel fixedTables ''/repo'') conflictsArrive)"

definition conflictsViewToken :: "nat model" where
  "conflictsViewToken =
     the (runMsgs fixedTables (initialModel fixedTables ''/repo'') tokenThenConflicts)"

definition diffViewToken :: "nat model" where
  "diffViewToken =
     the (runMsgs fixedTables (initialModel fixedTables ''/repo'') diffTokenComparison)"

lemma runMsgs_the:
  "runMsgs ui m msgs \<noteq> None \<Longrightarrow> runMsgs ui m msgs = Some (the (runMsgs ui m msgs))"
  by simp

lemma conflictsView_run:
  "runMsgs fixedTables (initialModel fixedTables ''/repo'') conflictsArrive = Some conflictsView"
proof -
  have "runMsgs fixedTables (initialModel fixedTables ''/repo'') conflictsArrive \<noteq> None"
    by code_simp
  then show ?thesis unfolding conflictsView_def by (rule runMsgs_the)
qed

lemma conflictsViewToken_run:
  "runMsgs fixedTables (initialModel fixedTables ''/repo'') tokenThenConflicts
     = Some conflictsViewToken"
proof -
  have "runMsgs fixedTables (initialModel fixedTables ''/repo'') tokenThenConflicts \<noteq> None"
    by code_simp
  then show ?thesis unfolding conflictsViewToken_def by (rule runMsgs_the)
qed

lemma diffViewToken_run:
  "runMsgs fixedTables (initialModel fixedTables ''/repo'') diffTokenComparison
     = Some diffViewToken"
proof -
  have "runMsgs fixedTables (initialModel fixedTables ''/repo'') diffTokenComparison \<noteq> None"
    by code_simp
  then show ?thesis unfolding diffViewToken_def by (rule runMsgs_the)
qed

lemma conflictsView_escape:
  "tab conflictsView = ''workspace'' \<and> viewMode conflictsView = ''conflicts''
   \<and> confirmAction conflictsView = [] \<and> \<not> anyInputFocused conflictsView
   \<and> Update 2 fixedTables conflictsView (KeyMsg ''esc'') = Some (conflictsView, NoCmd)"
  by code_simp

lemma conflictsViewToken_escape:
  "tab conflictsViewToken = ''workspace'' \<and> viewMode conflictsViewToken = ''conflicts''
   \<and> confirmAction conflictsViewToken = ''soft-reset'' \<and> \<not> anyInputFocused conflictsViewToken
   \<and> Update 6 fixedTables conflictsViewToken (KeyMsg ''esc'') =
       Some (conflictsViewToken\<lparr>confirmAction := [], statusMsg := ([CHR 0xE2, CHR 0x9D, CHR 0x8C] @ '' Action cancelled''),
               statusExpiry := 6 + 2 * second\<rparr>, NoCmd)
   \<and> runMsgs fixedTables conflictsViewToken [(6, KeyMsg ''esc''), (7, KeyMsg ''esc'')] =
       Some (conflictsViewToken\<lparr>confirmAction := [], statusMsg := ([CHR 0xE2, CHR 0x9D, CHR 0x8C] @ '' Action cancelled''),
               statusExpiry := 6 + 2 * second\<rparr>)"
  by code_simp

lemma diffViewToken_escape:
  "tab diffViewToken = ''workspace'' \<and> viewMode diffViewToken = ''diff''
   \<and> confirmAction diffViewToken = ''delete-branch:feature''
   \<and> branchComparison diffViewToken = Some compared \<and> \<not> anyInputFocused diffViewToken
   \<and> Update 10 fixedTables diffViewToken (KeyMsg ''esc'') =
       Some (diffViewToken\<lparr>viewMode := ''files''\<rparr>, NoCmd)
   \<and> Update 11 fixedTables (diffViewToken\<lparr>viewMode := ''files''\<rparr>) (KeyMsg ''esc'') =
       Some (diffViewToken\<lparr>viewMode := ''files'', branchComparison := None\<rparr>, NoCmd)"
  by code_simp

text \<open>
  Claim C6 is not what the program does.  \<^verbatim>\<open>handleEscape\<close> blurs an input first, then
  leaves a sub-mode, then clears the token, as the claim says, but its list of sub-modes
  misses the conflicts view, and it tests the diff view and the comparison whichever tab
  is shown.  The conflicts view is a sub-state of the workspace by the comment on the
  field \<^verbatim>\<open>viewMode\<close>, and the footer that the program draws in that view says
  \<^verbatim>\<open>esc=back\<close>.  In the states that the three runs reach:
  \<^item> in the conflicts view with no token, escape changes nothing: no level is undone,
    the view stays open;
  \<^item> in the conflicts view with a token, the first escape clears the token and says
    that the action is cancelled while the view stays open, and the second escape
    changes nothing;
  \<^item> with the diff view open, a token pending and the comparison left from the branches
    tab, the first escape closes the diff view and the second clears the comparison,
    which is not shown: after two escapes the token is still set.
\<close>

theorem handleEscape_misses_conflicts_view:
  "reachable fixedTables ''/repo'' conflictsView
   \<and> viewMode conflictsView = ''conflicts'' \<and> confirmAction conflictsView = []
   \<and> \<not> anyInputFocused conflictsView
   \<and> Update 2 fixedTables conflictsView (KeyMsg ''esc'') = Some (conflictsView, NoCmd)
   \<and> reachable fixedTables ''/repo'' conflictsViewToken
   \<and> viewMode conflictsViewToken = ''conflicts''
   \<and> confirmAction conflictsViewToken = ''soft-reset''
   \<and> \<not> anyInputFocused conflictsViewToken
   \<and> Update 6 fixedTables conflictsViewToken (KeyMsg ''esc'') =
       Some (conflictsViewToken\<lparr>confirmAction := [], statusMsg := ([CHR 0xE2, CHR 0x9D, CHR 0x8C] @ '' Action cancelled''),
               statusExpiry := 6 + 2 * second\<rparr>, NoCmd)
   \<and> runMsgs fixedTables conflictsViewToken [(6, KeyMsg ''esc''), (7, KeyMsg ''esc'')] =
       Some (conflictsViewToken\<lparr>confirmAction := [], statusMsg := ([CHR 0xE2, CHR 0x9D, CHR 0x8C] @ '' Action cancelled''),
               statusExpiry := 6 + 2 * second\<rparr>)
   \<and> reachable fixedTables ''/repo'' diffViewToken
   \<and> tab diffViewToken = ''workspace'' \<and> viewMode diffViewToken = ''diff''
   \<and> confirmAction diffViewToken = ''delete-branch:feature''
   \<and> branchComparison diffViewToken = Some compared
   \<and> \<not> anyInputFocused diffViewToken
   \<and> runMsgs fixedTables diffViewToken [(10, KeyMsg ''esc''), (11, KeyMsg ''esc'')] =
       Some (diffViewToken\<lparr>viewMode := ''files'', branchComparison := None\<rparr>)
   \<and> confirmAction (diffViewToken\<lparr>viewMode := ''files'', branchComparison := None\<rparr>)
       = ''delete-branch:feature''"
proof -
  have r1: "reachable fixedTables ''/repo'' conflictsView"
    by (rule reachable_runMsgs [OF reachable_init conflictsView_run])
  have r2: "reachable fixedTables ''/repo'' conflictsViewToken"
    by (rule reachable_runMsgs [OF reachable_init conflictsViewToken_run])
  have r3: "reachable fixedTables ''/repo'' diffViewToken"
    by (rule reachable_runMsgs [OF reachable_init diffViewToken_run])
  from diffViewToken_escape have
    two: "runMsgs fixedTables diffViewToken [(10, KeyMsg ''esc''), (11, KeyMsg ''esc'')] =
       Some (diffViewToken\<lparr>viewMode := ''files'', branchComparison := None\<rparr>)"
    by simp
  from diffViewToken_escape have
    t: "confirmAction (diffViewToken\<lparr>viewMode := ''files'', branchComparison := None\<rparr>)
       = ''delete-branch:feature''"
    by simp
  from r1 r2 r3 conflictsView_escape conflictsViewToken_escape diffViewToken_escape two t
  show ?thesis by blast
qed

text \<open>
  Claim C7.  With no text input focused and no file staged, the key \<open>2\<close> leaves the
  model as it is but for the status message (so the tab stays) and issues no command.
  Whatever the key, the dispatcher enters the commit tab only by the key \<open>2\<close> with a
  positive count of staged files.  \<open>commitWithMessage\<close> first asks git for the staged
  names: when there is none it returns the error message and
  \<^verbatim>\<open>executeGitCommand\<close> is not called; the commit command is only invoked after the
  check found a staged name.
\<close>

theorem commit_requires_staged:
  "(\<not> anyInputFocused m \<and> StagedFiles (gitState m) \<le> 0 \<longrightarrow>
      handleKeyPress now ui m ''2'' =
        Some (m\<lparr>statusMsg := ([CHR 0xE2, CHR 0x9D, CHR 0x8C] @ '' No files staged. Stage files first in workspace.''),
                statusExpiry := now + 3 * second\<rparr>, NoCmd))
   \<and> (handleKeyPress now ui m key = Some (m', c) \<and> tab m' = ''commit'' \<and> tab m \<noteq> ''commit''
        \<longrightarrow> key = ''2'' \<and> 0 < StagedFiles (gitState m))
   \<and> (stagedNames w path = (out, None) \<and> trimSpace out = [] \<longrightarrow>
        commitWithMessage w path message =
          (StatusMsg ([CHR 0xE2, CHR 0x9D, CHR 0x8C] @ '' No staged changes to commit. Stage files first.''), []))
   \<and> (snd (commitWithMessage w path message) \<noteq> [] \<longrightarrow>
        (\<exists>names. stagedNames w path = (names, None) \<and> trimSpace names \<noteq> []))"
proof (intro conjI impI)
  assume "\<not> anyInputFocused m \<and> StagedFiles (gitState m) \<le> 0"
  then show "handleKeyPress now ui m ''2'' =
        Some (m\<lparr>statusMsg := ([CHR 0xE2, CHR 0x9D, CHR 0x8C] @ '' No files staged. Stage files first in workspace.''),
                statusExpiry := now + 3 * second\<rparr>, NoCmd)"
    by (simp add: key2_refused)
next
  assume a: "handleKeyPress now ui m key = Some (m', c) \<and> tab m' = ''commit'' \<and> tab m \<noteq> ''commit''"
  then have r: "handleKeyPress now ui m key = Some (m', c)" and t': "tab m' = ''commit''"
    by simp_all
  from a have t: "tab m' \<noteq> tab m" by auto
  from handleKeyPress_tab [OF r t] t'
  show "key = ''2''" and "0 < StagedFiles (gitState m)"
    by auto
next
  assume "stagedNames w path = (out, None) \<and> trimSpace out = []"
  then show "commitWithMessage w path message =
          (StatusMsg ([CHR 0xE2, CHR 0x9D, CHR 0x8C] @ '' No staged changes to commit. Stage files first.''), [])"
    by (simp add: commit_no_staged)
next
  assume "snd (commitWithMessage w path message) \<noteq> []"
  then show "\<exists>names. stagedNames w path = (names, None) \<and> trimSpace names \<noteq> []"
    by (rule commit_invoked_only_staged)
qed

definition nothingStaged :: commitWorld where
  "nothingStaged =
     \<lparr>stagedNames = (\<lambda>path. (''\<newline>'', None)),
      git = \<lparr>lockFileExists = (\<lambda>path attempt. False),
             runGit = (\<lambda>path args attempt. (''nothing to commit'', Some ''exit status 1''))\<rparr>\<rparr>"

theorem commit_requires_staged_witness:
  "handleKeyPress 5 fixedTables (initialModel fixedTables ''/repo'') ''2'' =
     Some ((initialModel fixedTables ''/repo'')
             \<lparr>statusMsg := ([CHR 0xE2, CHR 0x9D, CHR 0x8C] @ '' No files staged. Stage files first in workspace.''),
               statusExpiry := 5 + 3 * second\<rparr>, NoCmd)
   \<and> commitWithMessage nothingStaged ''/repo'' ''feat: x'' =
       (StatusMsg ([CHR 0xE2, CHR 0x9D, CHR 0x8C] @ '' No staged changes to commit. Stage files first.''), [])"
proof -
  have a: "\<not> anyInputFocused (initialModel fixedTables ''/repo'')
      \<and> StagedFiles (gitState (initialModel fixedTables ''/repo'')) \<le> 0"
    by (simp add: initialModel_def anyInputFocused_def Focused_def)
  have b: "stagedNames nothingStaged ''/repo'' = (''\<newline>'', None)"
    by (simp add: nothingStaged_def)
  have c: "trimSpace ''\<newline>'' = []"
    by code_simp
  from commit_requires_staged [of "initialModel fixedTables ''/repo''" 5 fixedTables "''2''"
      "initialModel fixedTables ''/repo''" NoCmd nothingStaged "''/repo''" "''\<newline>''" "''feat: x''"]
    a b c
  show ?thesis by blast
qed

text \<open>
  Claim C9, as stated, fails: the check is not always true.  For a list with a file whose
  \<open>IsResolved\<close> is false the loop returns false before the final expression is
  reached.
\<close>

definition oneConflict :: "ConflictFile list" where
  "oneConflict =
     [\<lparr>Path = ''a.go'',
       Conflicts = [\<lparr>LineStart = 0, OursContent = [''x''], TheirsContent = [''y'']\<rparr>],
       IsResolved = False\<rparr>]"

theorem allConflictsResolved_not_always:
  "\<not> allConflictsResolved ((initialModel fixedTables ''/repo'')\<lparr>conflicts := oneConflict\<rparr>)"
  by (simp add: allConflictsResolved_def oneConflict_def)

text \<open>
  Claim C9, amended.  \<open>allConflictsResolved\<close> is true exactly when the
  \<open>IsResolved\<close> flag of every file of the list is true (so it is true for the empty
  list).  It reads nothing else: two models whose lists carry the same flags, whatever
  the conflict regions of their files, get the same answer.  The final return expression
  is true for every list.  \<open>loadConflicts\<close> creates every file with the flag false, so
  once a loaded list is in the model the check is true only if the list is empty.
\<close>

theorem allConflictsResolved_file_flags:
  "allConflictsResolved m = list_all IsResolved (conflicts m)
   \<and> (map IsResolved (conflicts m) = map IsResolved (conflicts m2) \<longrightarrow>
        allConflictsResolved m = allConflictsResolved m2)
   \<and> (length (conflicts m) = 0 \<or> length (conflicts m) > 0)
   \<and> (loadConflicts w path = ConflictsMsg cs \<and> Update now ui m (ConflictsMsg cs) = Some (m', c)
        \<longrightarrow> allConflictsResolved m' = (cs = []))"
proof (intro conjI impI)
  show "allConflictsResolved m = list_all IsResolved (conflicts m)"
    by (rule allConflictsResolved_flags)
next
  assume e: "map IsResolved (conflicts m) = map IsResolved (conflicts m2)"
  have "list_all IsResolved xs = list_all (\<lambda>b. b) (map IsResolved xs)" for xs :: "ConflictFile list"
    by (induction xs) simp_all
  with e show "allConflictsResolved m = allConflictsResolved m2"
    by (simp add: allConflictsResolved_flags)
next
  show "length (conflicts m) = 0 \<or> length (conflicts m) > 0"
    by auto
next
  assume "loadConflicts w path = ConflictsMsg cs \<and> Update now ui m (ConflictsMsg cs) = Some (m', c)"
  then have "loadConflicts w path = ConflictsMsg cs"
    and "Update now ui m (ConflictsMsg cs) = Some (m', c)"
    by blast+
  then show "allConflictsResolved m' = (cs = [])"
    by (rule loaded_never_resolved)
qed

definition mergeInProgress :: conflictWorld where
  "mergeInProgress =
     \<lparr>unmergedNames = (\<lambda>path. (''a.go\<newline>'', None)),
      readFile = (\<lambda>path file.
         Some (''<<<<<<< HEAD\<newline>x\<newline>=======\<newline>y\<newline>>>>>>>> theirs\<newline>''))\<rparr>"

theorem allConflictsResolved_file_flags_witness:
  "loadConflicts mergeInProgress ''/repo'' = ConflictsMsg oneConflict
   \<and> (\<exists>m'. Update 1 fixedTables (initialModel fixedTables ''/repo'') (ConflictsMsg oneConflict)
               = Some (m', NoCmd)
            \<and> allConflictsResolved m' = False)"
proof -
  have l: "loadConflicts mergeInProgress ''/repo'' = ConflictsMsg oneConflict"
    by code_simp
  obtain m' where u: "Update 1 fixedTables (initialModel fixedTables ''/repo'')
      (ConflictsMsg oneConflict) = Some (m', NoCmd)"
    by (simp add: Let_def)
  from allConflictsResolved_file_flags [of "initialModel fixedTables ''/repo''"
      "initialModel fixedTables ''/repo''" mergeInProgress "''/repo''" oneConflict 1 fixedTables
      m' NoCmd] l u
  have "allConflictsResolved m' = (oneConflict = [])" by blast
  then have "allConflictsResolved m' = False" by (simp add: oneConflict_def)
  with l u show ?thesis by blast
qed

text \<open>
  The state after the run \<open>staleToken\<close> of the dispatcher: the branches tab is opened, the
  list of branches arrives with \<open>main\<close> checked out, \<open>d\<close> is pressed on \<open>feature\<close> (the token
  is set), and the list arrives again, now with \<open>feature\<close> checked out.
\<close>

definition staleModel :: "nat model" where
  "staleModel = the (runMsgs fixedTables (initialModel fixedTables ''/repo'') staleToken)"

lemma staleModel_run:
  "runMsgs fixedTables (initialModel fixedTables ''/repo'') staleToken = Some staleModel"
proof -
  from staleToken_run obtain m where
    "runMsgs fixedTables (initialModel fixedTables ''/repo'') staleToken = Some m"
    by (auto split: option.splits)
  then show ?thesis by (simp add: staleModel_def)
qed

text \<open>
  Claim C10, as stated, fails.  In the state that the run \<open>staleToken\<close> reaches, the token
  names the branch that is checked out; \<open>d\<close> on that branch says that it cannot be deleted
  but leaves the token set, not empty; and \<open>y\<close> issues the command that deletes
  \<open>feature\<close>.
\<close>

theorem branchDelete_token_stale:
  "reachable fixedTables ''/repo'' staleModel
   \<and> tab staleModel = ''branches''
   \<and> confirmAction staleModel = ''delete-branch:feature''
   \<and> map_option Name (selectedBranch fixedTables staleModel) = Some ''feature''
   \<and> map_option IsCurrent (selectedBranch fixedTables staleModel) = Some True
   \<and> map_option snd (handleKeyPress 5 fixedTables staleModel ''d'') = Some NoCmd
   \<and> map_option (statusMsg \<circ> fst) (handleKeyPress 5 fixedTables staleModel ''d'')
       = Some ([CHR 0xE2, CHR 0x9D, CHR 0x8C] @ '' Cannot delete current branch'')
   \<and> map_option (confirmAction \<circ> fst) (handleKeyPress 5 fixedTables staleModel ''d'')
       = Some ''delete-branch:feature''
   \<and> map_option snd (handleKeyPress 5 fixedTables staleModel ''y'')
       = Some (DeleteBranch ''feature'')"
proof -
  have r: "reachable fixedTables ''/repo'' staleModel"
    by (rule reachable_runMsgs [OF reachable_init staleModel_run])
  from staleToken_run show ?thesis
    unfolding staleModel_run
    by (auto simp add: r split: option.splits prod.splits cmd.splits)
qed

text \<open>
  Claim C10, amended.  In the branches tab (no branch name being typed, no comparison
  shown), \<open>d\<close> with the selected branch marked current in the loaded list only sets the
  status message: no command is issued and the confirmation token stays as it was.  A
  key of the branches tab changes the token only in two ways: \<open>d\<close> sets it to the
  deletion of the selected branch, which the list does not mark current at that moment,
  and \<open>y\<close> clears it.  \<open>y\<close> issues the deletion of the branch that the token names.
\<close>

theorem branchDelete_guard:
  "(tab m = ''branches'' \<and> \<not> Focused (branchInput m) \<and> branchComparison m = None
      \<and> selectedBranch ui m = Some b \<and> IsCurrent b \<longrightarrow>
      handleKeyPress now ui m ''d'' =
        Some (m\<lparr>statusMsg := ([CHR 0xE2, CHR 0x9D, CHR 0x8C] @ '' Cannot delete current branch''),
                statusExpiry := now + 3 * second\<rparr>, NoCmd))
   \<and> (handleBranchesKeys now ui m key = Some (m', c) \<and> confirmAction m' \<noteq> confirmAction m
        \<longrightarrow> (key = ''y'' \<and> confirmAction m' = [])
            \<or> (key = ''d'' \<and> c = NoCmd
                \<and> (\<exists>b'. selectedBranch ui m = Some b' \<and> \<not> IsCurrent b'
                       \<and> confirmAction m' = ''delete-branch:'' @ Name b')))
   \<and> (tab m = ''branches'' \<and> \<not> Focused (branchInput m) \<and> branchComparison m = None \<longrightarrow>
        handleKeyPress now ui m ''y'' =
          (if hasPrefix (confirmAction m) ''delete-branch:''
           then Some (m\<lparr>confirmAction := []\<rparr>,
                      DeleteBranch (drop (length ''delete-branch:'') (confirmAction m)))
           else Some (m, NoCmd)))"
proof (intro conjI impI)
  assume a: "tab m = ''branches'' \<and> \<not> Focused (branchInput m) \<and> branchComparison m = None
      \<and> selectedBranch ui m = Some b \<and> IsCurrent b"
  then have "handleKeyPress now ui m ''d'' = handleBranchesKeys now ui m ''d''"
    by (simp add: handleKeyPress_branches)
  with a show "handleKeyPress now ui m ''d'' =
        Some (m\<lparr>statusMsg := ([CHR 0xE2, CHR 0x9D, CHR 0x8C] @ '' Cannot delete current branch''),
                statusExpiry := now + 3 * second\<rparr>, NoCmd)"
    by (simp add: handleBranchesKeys_d_current)
next
  assume a: "handleBranchesKeys now ui m key = Some (m', c) \<and> confirmAction m' \<noteq> confirmAction m"
  from handleBranchesKeys_token [of ui m key now] a
  show "(key = ''y'' \<and> confirmAction m' = [])
            \<or> (key = ''d'' \<and> c = NoCmd
                \<and> (\<exists>b'. selectedBranch ui m = Some b' \<and> \<not> IsCurrent b'
                       \<and> confirmAction m' = ''delete-branch:'' @ Name b'))"
    by (auto split: option.splits)
next
  assume a: "tab m = ''branches'' \<and> \<not> Focused (branchInput m) \<and> branchComparison m = None"
  then have "handleKeyPress now ui m ''y'' = handleBranchesKeys now ui m ''y''"
    by (simp add: handleKeyPress_branches)
  with a show "handleKeyPress now ui m ''y'' =
          (if hasPrefix (confirmAction m) ''delete-branch:''
           then Some (m\<lparr>confirmAction := []\<rparr>,
                      DeleteBranch (drop (length ''delete-branch:'') (confirmAction m)))
           else Some (m, NoCmd))"
    by (simp add: handleBranchesKeys_def)
qed

definition onMain :: "(int \<times> msg) list" where
  "onMain = [(1, KeyMsg ''3''), (2, BranchesMsg (rev (featureThenMain False)))]"

lemma onMain_run:
  "(case runMsgs fixedTables (initialModel fixedTables ''/repo'') onMain of
      None \<Rightarrow> False
    | Some m \<Rightarrow>
        tab m = ''branches'' \<and> \<not> Focused (branchInput m) \<and> branchComparison m = None
        \<and> confirmAction m = []
        \<and> map_option (\<lambda>b. (Name b, IsCurrent b)) (selectedBranch fixedTables m) = Some (''main'', True))"
  by code_simp

theorem branchDelete_guard_witness:
  "\<exists>m. reachable fixedTables ''/repo'' m \<and> confirmAction m = []
     \<and> (\<exists>b. selectedBranch fixedTables m = Some b \<and> Name b = ''main'' \<and> IsCurrent b)
     \<and> handleKeyPress 3 fixedTables m ''d'' =
         Some (m\<lparr>statusMsg := ([CHR 0xE2, CHR 0x9D, CHR 0x8C] @ '' Cannot delete current branch''),
                 statusExpiry := 3 + 3 * second\<rparr>, NoCmd)"
proof -
  from onMain_run obtain m where
    run: "runMsgs fixedTables (initialModel fixedTables ''/repo'') onMain = Some m"
    and m: "tab m = ''branches''" "\<not> Focused (branchInput m)" "branchComparison m = None"
      "confirmAction m = []"
    and s: "map_option (\<lambda>b. (Name b, IsCurrent b)) (selectedBranch fixedTables m)
              = Some (''main'', True)"
    by (auto split: option.splits)
  have r: "reachable fixedTables ''/repo'' m"
    by (rule reachable_runMsgs [OF reachable_init run])
  from s obtain b where b: "selectedBranch fixedTables m = Some b" "Name b = ''main''" "IsCurrent b"
    by (cases "selectedBranch fixedTables m") auto
  from branchDelete_guard [of m fixedTables b 3 "''d''" m NoCmd] m b
  have "handleKeyPress 3 fixedTables m ''d'' =
         Some (m\<lparr>statusMsg := ([CHR 0xE2, CHR 0x9D, CHR 0x8C] @ '' Cannot delete current branch''),
                 statusExpiry := 3 + 3 * second\<rparr>, NoCmd)"
    by blast
  with r m b show ?thesis by blast
qed

section \<open>The diff analyzer\<close>

subsection \<open>More library functions\<close>

text \<open>
  \<^verbatim>\<open>strings.ToLower\<close>.  On a string of ASCII bytes (all below \<open>0x80\<close>) the library
  function replaces the letters \<open>A\<close> to \<open>Z\<close> by \<open>a\<close> to \<open>z\<close>.  On every other string it
  returns \<^verbatim>\<open>Map(unicode.ToLower, s)\<close>, which decodes the string, maps every code point
  by the case tables of Unicode (the Kelvin sign \<open>U+212A\<close> to \<open>k\<close>, for one) and encodes the
  result.  These tables belong to Go's library, not to the program: that mapping of a
  string is the parameter \<open>unicodeLower\<close> of the model, which every function that
  lower-cases a string takes.
\<close>

definition lowerChar :: "char \<Rightarrow> char" where
  "lowerChar c =
     (case map_of (zip ''ABCDEFGHIJKLMNOPQRSTUVWXYZ'' ''abcdefghijklmnopqrstuvwxyz'') c of
        None \<Rightarrow> c
      | Some l \<Rightarrow> l)"

definition isASCII :: "char \<Rightarrow> bool" where
  "isASCII c = (\<not> digit7 c)"

definition toLower :: "(string \<Rightarrow> string) \<Rightarrow> string \<Rightarrow> string" where
  "toLower unicodeLower s = (if list_all isASCII s then map lowerChar s else unicodeLower s)"

text \<open>\<^verbatim>\<open>strings.Fields\<close>: the maximal runs of bytes without white space.\<close>

fun spanField :: "string \<Rightarrow> string \<times> string" where
  "spanField [] = ([], [])"
| "spanField (c # cs) =
     (if spacePrefixLen (c # cs) \<noteq> 0 then ([], c # cs)
      else (case spanField cs of (field, rest) \<Rightarrow> (c # field, rest)))"

lemma spanField_length: "length (snd (spanField s)) \<le> length s"
  by (induction s) (auto split: prod.splits)

lemma spanField_shorter:
  "s \<noteq> [] \<Longrightarrow> spacePrefixLen s = 0 \<Longrightarrow> length (snd (spanField s)) < length s"
proof (cases s)
  case Nil
  then show "s \<noteq> [] \<Longrightarrow> ?thesis" by simp
next
  case (Cons c cs)
  assume "spacePrefixLen s = 0"
  with Cons spanField_length [of cs] show ?thesis
    by (auto split: prod.splits)
qed

lemma trimLeftSpace_length: "length (trimLeftSpace s) \<le> length s"
proof (induction s rule: trimLeftSpace.induct)
  case (1 s)
  show ?case
  proof (cases "spacePrefixLen s = 0")
    case True
    then show ?thesis by (simp add: trimLeftSpace.simps [of s])
  next
    case False
    with 1 have "length (trimLeftSpace (drop (spacePrefixLen s) s)) \<le> length s" by simp
    with False show ?thesis by (simp add: trimLeftSpace.simps [of s])
  qed
qed

lemma trimLeftSpace_no_space: "spacePrefixLen (trimLeftSpace s) = 0"
proof (induction s rule: trimLeftSpace.induct)
  case (1 s)
  then show ?case by (cases "spacePrefixLen s = 0") (simp_all add: trimLeftSpace.simps [of s])
qed

function fields :: "string \<Rightarrow> string list" where
  "fields s =
     (let t = trimLeftSpace s in
      if t = [] then [] else fst (spanField t) # fields (snd (spanField t)))"
  by pat_completeness auto
termination
proof (relation "measure length")
  show "wf (measure length)" by simp
next
  fix s t :: string
  assume t: "t = trimLeftSpace s" and ne: "t \<noteq> []"
  from t have "spacePrefixLen t = 0" by (simp add: trimLeftSpace_no_space)
  with ne have "length (snd (spanField t)) < length t" by (rule spanField_shorter)
  moreover from t have "length t \<le> length s" by (simp add: trimLeftSpace_length)
  ultimately show "(snd (spanField t), s) \<in> measure length" by simp
qed

declare fields.simps [simp del]

text \<open>\<^verbatim>\<open>strings.Trim\<close> with a cutset of ASCII bytes, \<^verbatim>\<open>TrimSuffix\<close>, \<^verbatim>\<open>TrimPrefix\<close>.\<close>

definition trim :: "string \<Rightarrow> string \<Rightarrow> string" where
  "trim s cutset =
     rev (dropWhile (\<lambda>c. c \<in> set cutset) (rev (dropWhile (\<lambda>c. c \<in> set cutset) s)))"

definition trimSuffix :: "string \<Rightarrow> string \<Rightarrow> string" where
  "trimSuffix s suffix = (if hasSuffix s suffix then take (length s - length suffix) s else s)"

definition trimPrefix :: "string \<Rightarrow> string \<Rightarrow> string" where
  "trimPrefix s p = (if hasPrefix s p then drop (length p) s else s)"

text \<open>
  \<^verbatim>\<open>filepath.Base\<close> and \<^verbatim>\<open>filepath.Ext\<close> on a system whose separator is the
  slash.
\<close>

definition filepathBase :: "string \<Rightarrow> string" where
  "filepathBase path =
     (if path = [] then ''.''
      else
        (let stripped = rev (dropWhile (\<lambda>c. c = CHR ''/'') (rev path));
             element = rev (takeWhile (\<lambda>c. c \<noteq> CHR ''/'') (rev stripped))
         in if element = [] then ''/'' else element))"

fun extScan :: "string \<Rightarrow> string \<Rightarrow> string" where
  "extScan [] suffix = []"
| "extScan (c # front) suffix =
     (if c = CHR ''/'' then []
      else if c = CHR ''.'' then c # suffix
      else extScan front (c # suffix))"

definition filepathExt :: "string \<Rightarrow> string" where
  "filepathExt path = extScan (rev path) []"

text \<open>The part of a string before the first occurrence of a byte (the whole string if none).\<close>

definition cutAt :: "string \<Rightarrow> char \<Rightarrow> string" where
  "cutAt name c = (let i = strIndex name [c] in if i \<noteq> - 1 then take (nat i) name else name)"

text \<open>\<^verbatim>\<open>contains\<close> of the program: membership in a slice of strings.\<close>

definition contains :: "string list \<Rightarrow> string \<Rightarrow> bool" where
  "contains slice item = list_ex (\<lambda>s. s = item) slice"

subsection \<open>Extracting names from an added line\<close>

text \<open>The added line without its white space and its leading plus sign.\<close>

definition lineBody :: "string \<Rightarrow> string" where
  "lineBody line =
     (let trimmed = trimSpace line in
      if hasPrefix trimmed ''+'' then trimSpace (drop 1 trimmed) else trimmed)"

text \<open>
  \<^verbatim>\<open>extractFunctionName\<close> tries five syntaxes in order; each one either returns a
  name (\<open>Some\<close>, possibly the empty name) or lets the next one try.
\<close>

definition goFunc :: "string \<Rightarrow> string option" where
  "goFunc trimmed =
     (if strContains trimmed ''func '' then
        (let idx = strIndex trimmed ''func '';
             remaining = drop (nat (idx + 5)) trimmed;
             remaining =
               (if hasPrefix remaining ''('' \<and> strIndex remaining '')'' > 0
                then trimSpace (drop (nat (strIndex remaining '')'' + 1)) remaining)
                else remaining);
             parts = fields remaining
         in if length parts > 0 then Some (cutAt (parts ! 0) (CHR ''('')) else None)
      else None)"

definition secondField :: "string \<Rightarrow> string \<Rightarrow> string option" where
  "secondField trimmed keyword =
     (if strContains trimmed keyword then
        (let idx = strIndex trimmed keyword;
             parts = fields (drop (nat idx) trimmed)
         in if length parts > 1 then Some (parts ! 1) else None)
      else None)"

definition jsFunction :: "string \<Rightarrow> string option" where
  "jsFunction trimmed =
     map_option (\<lambda>name. cutAt name (CHR ''('')) (secondField trimmed ''function '')"

definition arrowFunction :: "string \<Rightarrow> string option" where
  "arrowFunction trimmed =
     (if (strContains trimmed '' => '' \<or> strContains trimmed ''=>'')
         \<and> strContains trimmed ''const '' then
        (let idx = strIndex trimmed ''const '';
             remaining = drop (nat (idx + 6)) trimmed;
             parts = fields remaining
         in if length parts > 0 then
              (let name = parts ! 0;
                   name = (if strContains name ''='' then hd (strSplit name (CHR ''='')) else name)
               in Some (trimSpace name))
            else None)
      else None)"

definition pythonDef :: "string \<Rightarrow> string option" where
  "pythonDef trimmed =
     map_option (\<lambda>name. cutAt name (CHR ''('')) (secondField trimmed ''def '')"

definition classDecl :: "string \<Rightarrow> string option" where
  "classDecl trimmed =
     map_option (\<lambda>name. cutAt (cutAt (cutAt name (CHR '':'')) (CHR ''('')) (CHR ''{''))
       (secondField trimmed ''class '')"

definition extractFunctionName :: "string \<Rightarrow> string" where
  "extractFunctionName line =
     (let trimmed = lineBody line in
      case goFunc trimmed of Some name \<Rightarrow> name | None \<Rightarrow>
      (case jsFunction trimmed of Some name \<Rightarrow> name | None \<Rightarrow>
      (case arrowFunction trimmed of Some name \<Rightarrow> name | None \<Rightarrow>
      (case pythonDef trimmed of Some name \<Rightarrow> name | None \<Rightarrow>
      (case classDecl trimmed of Some name \<Rightarrow> name | None \<Rightarrow> [])))))"

text \<open>
  \<^verbatim>\<open>extractVariableName\<close> uses five regular expressions; \<^verbatim>\<open>FindStringSubmatch\<close>
  gives the leftmost match and its group.  \<^verbatim>\<open>\w\<close> is a letter, a digit or an
  underscore of ASCII, \<^verbatim>\<open>\s\<close> one of tab, newline, form feed, carriage return and
  space.  For \<^verbatim>\<open>kw\s+(\w+)\<close> the leftmost match starts at the first place where the
  keyword is followed by white space and then a word; for \<^verbatim>\<open>(\w+)\s*op\<close> at the
  first word byte whose word is followed, after optional white space, by the operator.
  In both the group is the rest of the word from there.
\<close>

definition isWordChar :: "char \<Rightarrow> bool" where
  "isWordChar c =
     (c \<in> set ''0123456789ABCDEFGHIJKLMNOPQRSTUVWXYZ_abcdefghijklmnopqrstuvwxyz'')"

definition isReSpace :: "char \<Rightarrow> bool" where
  "isReSpace c = (c \<in> set [CHR 0x09, CHR 0x0A, CHR 0x0C, CHR 0x0D, CHR 0x20])"

fun matchDeclared :: "string \<Rightarrow> string \<Rightarrow> string option" where
  "matchDeclared keyword [] = None"
| "matchDeclared keyword (c # cs) =
     (let rest = drop (length keyword) (c # cs);
          word = dropWhile isReSpace rest
      in if hasPrefix (c # cs) keyword \<and> length word < length rest
            \<and> takeWhile isWordChar word \<noteq> []
         then Some (takeWhile isWordChar word)
         else matchDeclared keyword cs)"

fun matchAssigned :: "string \<Rightarrow> string \<Rightarrow> string option" where
  "matchAssigned operator [] = None"
| "matchAssigned operator (c # cs) =
     (if isWordChar c
         \<and> hasPrefix (dropWhile isReSpace (dropWhile isWordChar (c # cs))) operator
      then Some (takeWhile isWordChar (c # cs))
      else matchAssigned operator cs)"

definition acceptedVariable :: "string option \<Rightarrow> bool" where
  "acceptedVariable matched =
     (case matched of
        None \<Rightarrow> False
      | Some varName \<Rightarrow>
          length varName > 2 \<and> varName \<noteq> ''err'' \<and> varName \<noteq> ''nil''
          \<and> varName \<noteq> ''true'' \<and> varName \<noteq> ''false'')"

definition extractVariableName :: "string \<Rightarrow> string" where
  "extractVariableName line =
     (let trimmed = lineBody line;
          matches = [matchDeclared ''var'' trimmed, matchDeclared ''const'' trimmed,
                   matchDeclared ''let'' trimmed, matchAssigned '':='' trimmed,
                   matchAssigned ''='' trimmed]
      in case filter acceptedVariable matches of
           Some varName # _ \<Rightarrow> varName
         | _ \<Rightarrow> [])"

definition extractComment :: "string \<Rightarrow> string" where
  "extractComment line =
     (let trimmed = lineBody line;
          slashes = trimSpace (drop (nat (strIndex trimmed ''//'' + 2)) trimmed);
          hash = trimSpace (drop 1 trimmed)
      in if strContains trimmed ''//'' \<and> length slashes > 5 then slashes
         else if hasPrefix trimmed ''#'' \<and> \<not> hasPrefix trimmed ''#include'' \<and> length hash > 5
         then hash
         else [])"

text \<open>
  \<^verbatim>\<open>isImportLine\<close> and \<^verbatim>\<open>extractImportName\<close> are called on added lines only,
  which start with a plus sign: \<^verbatim>\<open>line[1:]\<close> is the line without it.
\<close>

definition isImportLine :: "string \<Rightarrow> bool" where
  "isImportLine line =
     (let trimmed = trimSpace (drop 1 line) in
      hasPrefix trimmed ''import '' \<or> hasPrefix trimmed ''from ''
      \<or> hasPrefix trimmed ''#include'' \<or> hasPrefix trimmed ''require(''
      \<or> hasPrefix trimmed ''const '' \<and> strContains trimmed ''require(''
      \<or> hasPrefix trimmed ''use '')"

definition lastSegment :: "string \<Rightarrow> string" where
  "lastSegment p = (if strContains p ''/'' then last (strSplit p (CHR ''/'')) else p)"

definition importStatement :: "string \<Rightarrow> string option" where
  "importStatement trimmed =
     (if hasPrefix trimmed ''import '' \<and> length (fields trimmed) \<ge> 2
      then Some (lastSegment (trim (last (fields trimmed)) [CHR 0x22]))
      else None)"

definition fromStatement :: "string \<Rightarrow> string option" where
  "fromStatement trimmed =
     (if hasPrefix trimmed ''from '' \<and> length (fields trimmed) \<ge> 2
      then Some (fields trimmed ! 1)
      else None)"

definition requireCall :: "string \<Rightarrow> string option" where
  "requireCall trimmed =
     (if strContains trimmed ''require('' then
        (let start = nat (strIndex trimmed ''require('' + 8);
             stop = strIndex (drop start trimmed) '')''
         in if stop > 0
            then Some (lastSegment (trim (take (nat stop) (drop start trimmed)) [CHR 0x22, CHR 0x27]))
            else None)
      else None)"

definition extractImportName :: "string \<Rightarrow> string" where
  "extractImportName line =
     (let trimmed = trimSpace (drop 1 line) in
      case importStatement trimmed of Some name \<Rightarrow> name | None \<Rightarrow>
      (case fromStatement trimmed of Some name \<Rightarrow> name | None \<Rightarrow>
      (case requireCall trimmed of Some name \<Rightarrow> name | None \<Rightarrow> [])))"

subsection \<open>Parsing a diff\<close>

text \<open>
  A Go map from strings to integers, as the list of its entries in the order in which
  the keys were first written (no key twice).  \<^verbatim>\<open>m[k]++\<close>:
\<close>

type_synonym counters = "(string \<times> int) list"

definition increment :: "counters \<Rightarrow> string \<Rightarrow> counters" where
  "increment m k =
     (case map_of m k of
        None \<Rightarrow> m @ [(k, 1)]
      | Some n \<Rightarrow> map (\<lambda>(k', v). if k' = k then (k', v + 1) else (k', v)) m)"

text \<open>
  Go leaves the order in which \<^verbatim>\<open>range\<close> visits the entries of a map open, and
  its runtime varies it from run to run.  The order is a parameter of the model: a list
  \<open>order\<close> of keys.  The entries whose keys are in \<open>order\<close> are visited first, in that
  order, the others after them.  Every \<open>order\<close> gives an enumeration of the entries,
  and every enumeration is given by some \<open>order\<close>.
\<close>

definition mapRange :: "string list \<Rightarrow> counters \<Rightarrow> (string \<times> int) list" where
  "mapRange order m =
     concat (map (\<lambda>k. case map_of m k of None \<Rightarrow> [] | Some v \<Rightarrow> [(k, v)]) (remdups order))
     @ filter (\<lambda>(k, v). k \<notin> set order) m"

definition bugKeywords :: "string list" where
  "bugKeywords = [''bug'', ''fix'', ''error'', ''crash'', ''issue'', ''problem'']"

definition validationKeywords :: "string list" where
  "validationKeywords = [''validate'', ''validation'', ''check'', ''verify'', ''sanitize'']"

definition apiKeywords :: "string list" where
  "apiKeywords = [''endpoint'', ''route'', ''handler'', ''api'', ''request'', ''response'']"

definition securityKeywords :: "string list" where
  "securityKeywords = [''auth'', ''security'', ''permission'', ''token'', ''encrypt'']"

definition performanceKeywords :: "string list" where
  "performanceKeywords = [''optimize'', ''performance'', ''cache'', ''speed'', ''efficient'']"

text \<open>The five loops over the vocabularies, in the order of the program.\<close>

definition vocabularies :: "(string \<times> string list) list" where
  "vocabularies =
     [(''fix'', bugKeywords), (''validation'', validationKeywords), (''api'', apiKeywords),
      (''security'', securityKeywords), (''performance'', performanceKeywords)]"

definition keywordStep ::
  "string \<Rightarrow> string \<Rightarrow> DiffInfo \<times> counters \<Rightarrow> string \<Rightarrow> DiffInfo \<times> counters" where
  "keywordStep lineLower topic state keyword =
     (case state of (info, contextCounts) \<Rightarrow>
        if strContains lineLower keyword
        then (if \<not> contains (Keywords info) keyword
              then info\<lparr>Keywords := Keywords info @ [keyword]\<rparr> else info,
              increment contextCounts topic)
        else (info, contextCounts))"

definition vocabularyStep ::
  "string \<Rightarrow> DiffInfo \<times> counters \<Rightarrow> string \<times> string list \<Rightarrow> DiffInfo \<times> counters" where
  "vocabularyStep lineLower state vocabulary =
     (case vocabulary of (topic, keywords) \<Rightarrow>
        foldl (keywordStep lineLower topic) state keywords)"

definition appendNew :: "string list \<Rightarrow> string \<Rightarrow> string list" where
  "appendNew names name =
     (if name \<noteq> [] \<and> \<not> contains names name then names @ [name] else names)"

text \<open>
  The body of the loop for an added line, in its three parts: the counters of lines and
  the names, the five loops over the vocabularies, the two flags.
\<close>

definition addedNames :: "DiffInfo \<Rightarrow> string \<Rightarrow> DiffInfo" where
  "addedNames info line =
     (let info = info\<lparr>LinesAdded := LinesAdded info + 1\<rparr>;
          info = info\<lparr>Functions := appendNew (Functions info) (extractFunctionName line)\<rparr>;
          info = info\<lparr>Variables := appendNew (Variables info) (extractVariableName line)\<rparr>;
          info = (if isImportLine line
                  then info\<lparr>Imports := appendNew (Imports info) (extractImportName line)\<rparr>
                  else info)
      in if extractComment line \<noteq> []
         then info\<lparr>Comments := Comments info @ [extractComment line]\<rparr>
         else info)"

definition addedFlags :: "(string \<Rightarrow> string) \<Rightarrow> DiffInfo \<Rightarrow> string \<Rightarrow> DiffInfo" where
  "addedFlags unicodeLower info line =
     (let info = (if strContains (toLower unicodeLower line) ''test'' then info\<lparr>HasTests := True\<rparr> else info)
      in if strContains line ''//'' \<or> strContains line ''/*''
            \<or> strContains line ''/**'' \<or> strContains line ''#''
         then info\<lparr>HasDocs := True\<rparr> else info)"

definition addedLine ::
  "(string \<Rightarrow> string) \<Rightarrow> DiffInfo \<times> counters \<Rightarrow> string \<Rightarrow> DiffInfo \<times> counters" where
  "addedLine unicodeLower state line =
     (case state of (info, contextCounts) \<Rightarrow>
        (case foldl (vocabularyStep (toLower unicodeLower line))
                (addedNames info line, contextCounts)
                vocabularies of
           (info, contextCounts) \<Rightarrow> (addedFlags unicodeLower info line, contextCounts)))"

definition isAdded :: "string \<Rightarrow> bool" where
  "isAdded line = (hasPrefix line ''+'' \<and> \<not> hasPrefix line ''+++'')"

definition isRemoved :: "string \<Rightarrow> bool" where
  "isRemoved line = (hasPrefix line ''-'' \<and> \<not> hasPrefix line ''---'')"

definition diffLine ::
  "(string \<Rightarrow> string) \<Rightarrow> DiffInfo \<times> counters \<Rightarrow> string \<Rightarrow> DiffInfo \<times> counters" where
  "diffLine unicodeLower state line =
     (if isAdded line then addedLine unicodeLower state line
      else if isRemoved line
      then (case state of (info, contextCounts) \<Rightarrow>
              (info\<lparr>LinesRemoved := LinesRemoved info + 1\<rparr>, contextCounts))
      else state)"

definition emptyDiffInfo :: DiffInfo where
  "emptyDiffInfo =
     \<lparr>LinesAdded = 0, LinesRemoved = 0, Functions = [], Imports = [], HasTests = False,
      HasDocs = False, Variables = [], Keywords = [], Comments = [], Context = []\<rparr>"

text \<open>The state after the loop over the lines: the record and the map of the counters.\<close>

definition scanDiff :: "(string \<Rightarrow> string) \<Rightarrow> string \<Rightarrow> DiffInfo \<times> counters" where
  "scanDiff unicodeLower diff =
     foldl (diffLine unicodeLower) (emptyDiffInfo, []) (strSplit diff (CHR 0x0A))"

definition contextCounts :: "(string \<Rightarrow> string) \<Rightarrow> string \<Rightarrow> counters" where
  "contextCounts unicodeLower diff = snd (scanDiff unicodeLower diff)"

text \<open>The loop that looks for the highest counter, over the map in the order given.\<close>

definition maxStep :: "string \<times> int \<Rightarrow> string \<times> int \<Rightarrow> string \<times> int" where
  "maxStep best entry =
     (case best of (maxContext, maxCount) \<Rightarrow>
        case entry of (context, count) \<Rightarrow>
          if count > maxCount then (context, count) else (maxContext, maxCount))"

definition dominant :: "string list \<Rightarrow> counters \<Rightarrow> string" where
  "dominant order m = fst (foldl maxStep ([], 0) (mapRange order m))"

definition parseDiffOutput :: "(string \<Rightarrow> string) \<Rightarrow> string list \<Rightarrow> string \<Rightarrow> DiffInfo" where
  "parseDiffOutput unicodeLower order diff =
     (fst (scanDiff unicodeLower diff))
       \<lparr>Context := dominant order (contextCounts unicodeLower diff)\<rparr>"

section \<open>The commit classifier and the message composer\<close>

text \<open>
  Arithmetic on Go's \<^verbatim>\<open>int\<close> wraps around at 64 bits; \<^verbatim>\<open>abs\<close> of the program:
\<close>

definition goAbs :: "int \<Rightarrow> int" where
  "goAbs x = (if x < 0 then wrap64 (- x) else x)"

definition containsBugFixKeywords :: "DiffInfo \<Rightarrow> bool" where
  "containsBugFixKeywords diff = (LinesRemoved diff > 0 \<and> LinesAdded diff < LinesRemoved diff)"

definition determineAdvancedCommitType :: "string \<Rightarrow> string \<Rightarrow> DiffInfo \<Rightarrow> string" where
  "determineAdvancedCommitType file status diff =
     (let fileName = filepathBase file in
      if strContains status ''A'' then
        (if strContains file ''test'' \<or> hasSuffix file ''_test.go'' then ''test''
         else if hasSuffix file ''.md'' \<or> strContains file ''README'' then ''docs''
         else if length (Functions diff) > 0 then ''feat''
         else ''feat'')
      else if strContains status ''D'' then ''chore''
      else if strContains status ''M'' then
        (if hasSuffix file ''.md'' \<or> strContains file ''README'' \<or> strContains file ''doc''
         then ''docs''
         else if strContains file ''test'' \<or> hasSuffix file ''_test.go''
                 \<or> hasSuffix file ''.test.js''
         then ''test''
         else if strContains file ''config'' \<or> hasSuffix file ''.json''
                 \<or> hasSuffix file ''.yaml'' \<or> hasSuffix file ''.yml''
                 \<or> hasSuffix file ''.toml'' \<or> fileName = ''Dockerfile''
                 \<or> fileName = ''Makefile'' \<or> hasSuffix file ''.env''
         then ''chore''
         else if fileName = ''package.json'' \<or> fileName = ''go.mod''
                 \<or> fileName = ''requirements.txt'' \<or> fileName = ''Cargo.toml''
                 \<or> fileName = ''pom.xml''
         then (if length (Imports diff) > 0 then ''feat'' else ''chore'')
         else if containsBugFixKeywords diff then ''fix''
         else if length (Functions diff) > 0
                 \<or> LinesAdded diff > wrap64 (LinesRemoved diff * 2)
         then ''feat''
         else if LinesAdded diff > 0 \<and> LinesRemoved diff > 0
                 \<and> goAbs (wrap64 (LinesAdded diff - LinesRemoved diff)) < 10
         then ''refactor''
         else if wrap64 (LinesAdded diff + LinesRemoved diff) < 10 then ''fix''
         else ''feat'')
      else ''chore'')"

text \<open>
  \<^verbatim>\<open>generateSmartCommitMessage\<close>.  The first comment is returned when it is
  descriptive; otherwise the wording depends on the status.  (The assignment
  \<^verbatim>\<open>commitType = "fix"\<close> of the context \<open>fix\<close> changes the local parameter only.)
\<close>

definition descriptiveComment :: "(string \<Rightarrow> string) \<Rightarrow> DiffInfo \<Rightarrow> string option" where
  "descriptiveComment unicodeLower diff =
     (case Comments diff of
        [] \<Rightarrow> None
      | firstComment # _ \<Rightarrow>
          (let lowerComment = toLower unicodeLower firstComment in
           if length firstComment > 10 \<and> length firstComment < 60
              \<and> (strContains lowerComment ''fix'' \<or> strContains lowerComment ''add''
                  \<or> strContains lowerComment ''update'' \<or> strContains lowerComment ''remove'')
           then Some firstComment else None))"

definition contextPrefixOf :: "string \<Rightarrow> string" where
  "contextPrefixOf context =
     (if context = ''fix'' then ''fix''
      else if context = ''validation'' then ''add validation for''
      else if context = ''api'' then ''add API endpoint for''
      else if context = ''security'' then ''improve security in''
      else if context = ''performance'' then ''optimize''
      else [])"

definition addedMessage ::
  "string \<Rightarrow> string \<Rightarrow> DiffInfo \<Rightarrow> string \<Rightarrow> string \<Rightarrow> string" where
  "addedMessage fileName baseName diff commitType contextPrefix =
     (if contextPrefix \<noteq> [] \<and> length (Functions diff) > 0
      then contextPrefix @ '' '' @ Functions diff ! 0
      else if length (Functions diff) > 0 then
        (if length (Functions diff) = 1 then
           (if length (Variables diff) > 0 \<and> contains (Keywords diff) ''error''
            then ''add '' @ Functions diff ! 0 @ '' with error handling''
            else ''add '' @ Functions diff ! 0)
         else ''add '' @ baseName @ '' with '' @ showInt (int (length (Functions diff)))
              @ '' functions'')
      else if length (Imports diff) > 0 then ''add '' @ baseName @ '' with dependencies''
      else if hasSuffix fileName ''_test.go'' \<or> strContains fileName ''test''
      then ''add tests for '' @ trimSuffix baseName ''_test''
      else if hasSuffix fileName ''.md'' then
        (if fileName = ''README.md'' then ''add README documentation''
         else ''add '' @ baseName @ '' documentation'')
      else if commitType = ''chore'' then ''add '' @ baseName @ '' config''
      else ''add '' @ fileName)"

definition modifiedMessage ::
  "string \<Rightarrow> string \<Rightarrow> DiffInfo \<Rightarrow> string \<Rightarrow> string \<Rightarrow> string" where
  "modifiedMessage fileName baseName diff commitType contextPrefix =
     (if contextPrefix \<noteq> [] then
        (if length (Functions diff) > 0 then contextPrefix @ '' '' @ Functions diff ! 0
         else contextPrefix @ '' '' @ baseName)
      else if contains (Keywords diff) ''error'' \<or> contains (Keywords diff) ''bug'' then
        (if length (Functions diff) > 0
         then ''fix error handling in '' @ Functions diff ! 0
         else ''fix error handling in '' @ baseName)
      else if contains (Keywords diff) ''validate'' \<or> contains (Keywords diff) ''check'' then
        (if length (Functions diff) > 0 then ''add validation to '' @ Functions diff ! 0
         else ''add input validation to '' @ baseName)
      else if commitType = ''docs'' then
        (if fileName = ''README.md'' then ''update README''
         else ''update '' @ baseName @ '' docs'')
      else if commitType = ''test'' then ''update '' @ trimSuffix baseName ''_test'' @ '' tests''
      else if commitType = ''chore'' then
        (if fileName = ''package.json'' \<or> fileName = ''go.mod'' then
           (if length (Imports diff) > 0 then ''update dependencies''
            else ''update package config'')
         else ''update '' @ baseName @ '' config'')
      else if length (Functions diff) = 1 then
        (let funcName = Functions diff ! 0 in
         if contains (Keywords diff) ''auth'' \<or> contains (Keywords diff) ''security''
         then ''improve security in '' @ funcName
         else if contains (Keywords diff) ''optimize'' \<or> contains (Keywords diff) ''performance''
         then ''optimize '' @ funcName
         else if commitType = ''fix'' then ''fix '' @ funcName
         else if commitType = ''refactor'' then ''refactor '' @ funcName
         else ''update '' @ funcName)
      else if length (Functions diff) > 0 \<and> length (Functions diff) \<le> 3 then
        (if commitType = ''refactor''
         then ''refactor '' @ showInt (int (length (Functions diff))) @ '' functions in '' @ baseName
         else ''update '' @ showInt (int (length (Functions diff))) @ '' functions in '' @ baseName)
      else if length (Imports diff) > 0 then
        (if commitType = ''feat'' then ''add dependencies to '' @ baseName
         else ''update imports in '' @ baseName)
      else if LinesAdded diff > wrap64 (LinesRemoved diff * 3) \<and> commitType = ''feat''
      then ''extend '' @ baseName @ '' functionality''
      else if \<not> LinesAdded diff > wrap64 (LinesRemoved diff * 3)
              \<and> LinesRemoved diff > wrap64 (LinesAdded diff * 2)
      then (if commitType = ''refactor'' then ''simplify '' @ baseName
            else ''clean up '' @ baseName)
      else if commitType = ''fix'' then ''fix issues in '' @ baseName
      else if commitType = ''refactor'' then ''refactor '' @ baseName
      else if commitType = ''feat'' then ''enhance '' @ baseName
      else ''update '' @ baseName)"

definition generateSmartCommitMessage ::
  "(string \<Rightarrow> string) \<Rightarrow> string \<Rightarrow> string \<Rightarrow> DiffInfo \<Rightarrow> string \<Rightarrow> string" where
  "generateSmartCommitMessage unicodeLower file status diff commitType =
     (let fileName = filepathBase file;
          fileExt = filepathExt file;
          baseName = trimSuffix fileName fileExt
      in case descriptiveComment unicodeLower diff of
           Some firstComment \<Rightarrow> firstComment
         | None \<Rightarrow>
             (let contextPrefix = contextPrefixOf (Context diff);
                  commitType = (if Context diff = ''fix'' then ''fix'' else commitType)
              in if status = ''A '' \<or> status = '' A''
                 then addedMessage fileName baseName diff commitType contextPrefix
                 else if status = ''D '' \<or> status = '' D'' then ''remove '' @ fileName
                 else if status = ''M '' \<or> status = '' M'' \<or> status = ''MM''
                 then modifiedMessage fileName baseName diff commitType contextPrefix
                 else ''modify '' @ fileName))"

definition determineScope :: "string \<Rightarrow> string" where
  "determineScope file =
     (let parts = strSplit file (CHR ''/'') in
      if length parts > 1 then
        (let firstDir = parts ! 0 in
         if firstDir = ''src'' \<or> firstDir = ''lib''
         then (if length parts > 2 then parts ! 1 else ''core'')
         else if firstDir = ''tests'' \<or> firstDir = ''test'' then ''test''
         else if firstDir = ''docs'' \<or> firstDir = ''documentation'' then ''docs''
         else if firstDir = ''config'' \<or> firstDir = ''configs'' then ''config''
         else if firstDir = ''api'' then ''api''
         else if firstDir = ''ui'' \<or> firstDir = ''frontend'' \<or> firstDir = ''client'' then ''ui''
         else if firstDir = ''backend'' \<or> firstDir = ''server'' then ''api''
         else if firstDir = ''scripts'' \<or> firstDir = ''tools'' then ''tools''
         else firstDir)
      else
        (let fileName = filepathBase file in
         if strContains fileName ''test'' then ''test''
         else if hasSuffix fileName ''.md'' then ''docs''
         else if strContains fileName ''config'' then ''config''
         else []))"

definition formatConventionalCommit :: "string \<Rightarrow> string \<Rightarrow> string \<Rightarrow> string" where
  "formatConventionalCommit commitType scope description =
     (if scope \<noteq> [] then commitType @ ''('' @ scope @ ''): '' @ description
      else commitType @ '': '' @ description)"

definition analyzeFileChange ::
  "(string \<Rightarrow> string) \<Rightarrow> GitChange \<Rightarrow> DiffInfo \<Rightarrow> FileAnalysis" where
  "analyzeFileChange unicodeLower change diff =
     (let file = File change;
          status = Status change;
          scope = determineScope file;
          commitType = determineAdvancedCommitType file status diff;
          rawMessage = generateSmartCommitMessage unicodeLower file status diff commitType;
          message = formatConventionalCommit commitType scope rawMessage
      in \<lparr>AnalysisType = commitType, AnalysisMessage = message, AnalysisScope = scope\<rparr>)"

section \<open>Properties of the diff analyser\<close>

text \<open>
  The value of a counter of a Go map (zero for a key that was never written), and the
  invariant of the maps the program builds by \<^verbatim>\<open>m[k]++\<close>: no key twice, every counter
  positive.
\<close>

definition lookupCount :: "counters \<Rightarrow> string \<Rightarrow> int" where
  "lookupCount m k = (case map_of m k of None \<Rightarrow> 0 | Some n \<Rightarrow> n)"

definition topicCount :: "(string \<Rightarrow> string) \<Rightarrow> string \<Rightarrow> string \<Rightarrow> int" where
  "topicCount unicodeLower diff topic = lookupCount (contextCounts unicodeLower diff) topic"

definition positiveCounters :: "counters \<Rightarrow> bool" where
  "positiveCounters m = (distinct (map fst m) \<and> list_all (\<lambda>(k, v). 0 < v) m)"

text \<open>
  The keyword hits of a topic in a diff text, counted from the text alone: for every added
  line, the number of keywords of the topic's vocabulary that the lower-cased line
  contains.  Lemma \<open>topicCount_hits\<close> below shows that this is the counter the loop of
  \<^verbatim>\<open>parseDiffOutput\<close> reaches.
\<close>

definition keywordsOf :: "string \<Rightarrow> string list" where
  "keywordsOf topic = (case map_of vocabularies topic of None \<Rightarrow> [] | Some keywords \<Rightarrow> keywords)"

definition lineHits :: "(string \<Rightarrow> string) \<Rightarrow> string \<Rightarrow> string \<Rightarrow> int" where
  "lineHits unicodeLower topic line =
     int (length (filter (strContains (toLower unicodeLower line)) (keywordsOf topic)))"

definition keywordHits :: "(string \<Rightarrow> string) \<Rightarrow> string \<Rightarrow> string \<Rightarrow> int" where
  "keywordHits unicodeLower diff topic =
     sum_list (map (lineHits unicodeLower topic) (filter isAdded (strSplit diff (CHR 0x0A))))"

text \<open>
  The topics in the order in which the program declares their vocabularies; a topic whose
  counter is positive and not below any other; a topic whose counter is positive and above
  every other.
\<close>

definition topics :: "string list" where
  "topics = map fst vocabularies"

definition highest :: "(string \<Rightarrow> string) \<Rightarrow> string \<Rightarrow> string \<Rightarrow> bool" where
  "highest unicodeLower diff t =
     (0 < keywordHits unicodeLower diff t
      \<and> list_all (\<lambda>t'. keywordHits unicodeLower diff t' \<le> keywordHits unicodeLower diff t)
            topics)"

definition strictlyHighest :: "(string \<Rightarrow> string) \<Rightarrow> string \<Rightarrow> string \<Rightarrow> bool" where
  "strictlyHighest unicodeLower diff t =
     (0 < keywordHits unicodeLower diff t
      \<and> list_all (\<lambda>t'. t' = t \<or> keywordHits unicodeLower diff t' < keywordHits unicodeLower diff t)
            topics)"

text \<open>
  The topics with a hit, in the order in which the loop that looks for the highest counter
  visits them.
\<close>

definition visited :: "(string \<Rightarrow> string) \<Rightarrow> string list \<Rightarrow> string \<Rightarrow> string list" where
  "visited unicodeLower order diff = map fst (mapRange order (contextCounts unicodeLower diff))"

subsection \<open>Lower-casing ASCII text\<close>

text \<open>On a string of ASCII bytes the result does not depend on the mapping of Unicode.\<close>

lemma toLower_ascii: "list_all isASCII s \<Longrightarrow> toLower u s = map lowerChar s"
  by (simp add: toLower_def)

subsection \<open>Counters and the search for the highest one\<close>

lemma map_of_bump:
  "map_of (map (\<lambda>(k', v). if k' = k then (k', v + 1) else (k', v)) m) t =
     map_option (\<lambda>v. if t = k then v + 1 else v) (map_of m t)"
  by (induction m) auto

lemma fst_bump: "map fst (map (\<lambda>(k', v). if k' = k then (k', v + (1::int)) else (k', v)) m) = map fst m"
  by (induction m) auto

lemma lookupCount_increment:
  "lookupCount (increment m k) t = lookupCount m t + (if t = k then 1 else 0)"
  by (auto simp add: lookupCount_def increment_def map_of_bump split: option.splits)

lemma positiveCounters_increment: "positiveCounters m \<Longrightarrow> positiveCounters (increment m k)"
proof -
  assume p: "positiveCounters m"
  show ?thesis
  proof (cases "map_of m k")
    case None
    then have "k \<notin> fst ` set m" by (simp add: map_of_eq_None_iff)
    with p None show ?thesis by (auto simp add: positiveCounters_def increment_def)
  next
    case (Some n)
    from p have "list_all (\<lambda>(k, v). 0 < v) (map (\<lambda>(k', v). if k' = k then (k', v + 1) else (k', v)) m)"
      by (auto simp add: positiveCounters_def list_all_iff split: if_splits)
    moreover from p have "distinct (map fst (map (\<lambda>(k', v). if k' = k then (k', v + 1) else (k', v)) m))"
      unfolding fst_bump by (simp add: positiveCounters_def)
    ultimately show ?thesis using Some by (simp add: positiveCounters_def increment_def)
  qed
qed

lemma positiveCounters_lookup: "positiveCounters m \<Longrightarrow> ((k, v) \<in> set m) = (map_of m k = Some v)"
  by (auto simp add: positiveCounters_def)

lemma positiveCounters_pos: "positiveCounters m \<Longrightarrow> (k, v) \<in> set m \<Longrightarrow> 0 < v"
  by (auto simp add: positiveCounters_def list_all_iff)

lemma set_mapRange: "positiveCounters m \<Longrightarrow> set (mapRange order m) = set m"
proof -
  assume p: "positiveCounters m"
  have a: "set (concat (map (\<lambda>k. case map_of m k of None \<Rightarrow> [] | Some v \<Rightarrow> [(k, v)]) (remdups order)))
        = {(k, v). k \<in> set order \<and> map_of m k = Some v}"
    by (auto split: option.splits)
  have b: "set (filter (\<lambda>(k, v). k \<notin> set order) m) = {(k, v). k \<notin> set order \<and> (k, v) \<in> set m}"
    by auto
  show ?thesis
    unfolding mapRange_def set_append a b using positiveCounters_lookup [OF p] by auto
qed

lemma maxStep_pair:
  "maxStep (k0, c0) (k1, v1) = (if v1 > c0 then (k1, v1) else (k0, c0))"
  by (simp add: maxStep_def)

lemma foldl_maxStep:
  "foldl maxStep (k0, c0) es = (k, c) \<Longrightarrow>
     (k = k0 \<and> c = c0 \<and> list_all (\<lambda>(k', v). v \<le> c0) es)
     \<or> ((k, c) \<in> set es \<and> c0 < c \<and> list_all (\<lambda>(k', v). v \<le> c) es)"
proof (induction es arbitrary: k0 c0)
  case Nil
  then show ?case by simp
next
  case (Cons e es)
  obtain k1 v1 where e: "e = (k1, v1)" by (cases e)
  show ?case
  proof (cases "v1 > c0")
    case True
    with Cons.prems e have "foldl maxStep (k1, v1) es = (k, c)" by (simp add: maxStep_pair)
    from Cons.IH [OF this] True e show ?thesis
      by (auto simp add: list_all_iff)
  next
    case False
    with Cons.prems e have "foldl maxStep (k0, c0) es = (k, c)" by (simp add: maxStep_pair)
    from Cons.IH [OF this] False e show ?thesis
      by (auto simp add: list_all_iff)
  qed
qed

lemma lookupCount_member: "positiveCounters m \<Longrightarrow> (k, v) \<in> set m \<Longrightarrow> lookupCount m k = v"
  by (simp add: lookupCount_def positiveCounters_lookup)

lemma lookupCount_nonneg: "positiveCounters m \<Longrightarrow> 0 \<le> lookupCount m k"
proof (cases "map_of m k")
  case None
  then show ?thesis by (simp add: lookupCount_def)
next
  case (Some v)
  assume p: "positiveCounters m"
  with Some have "(k, v) \<in> set m" by (simp add: positiveCounters_lookup)
  with p have "0 < v" by (rule positiveCounters_pos)
  with Some show ?thesis by (simp add: lookupCount_def)
qed

lemma lookupCount_pos_member: "0 < lookupCount m k \<Longrightarrow> (k, lookupCount m k) \<in> set m"
  by (auto simp add: lookupCount_def split: option.splits dest: map_of_SomeD)

lemma dominant_none:
  "positiveCounters m \<Longrightarrow> (\<forall>t. lookupCount m t = 0) \<Longrightarrow> dominant order m = []"
proof -
  assume p: "positiveCounters m" and z: "\<forall>t. lookupCount m t = 0"
  have "m = []"
  proof (cases m)
    case Nil then show ?thesis .
  next
    case (Cons e es)
    obtain k v where "e = (k, v)" by (cases e)
    with Cons have i: "(k, v) \<in> set m" by simp
    from positiveCounters_pos [OF p i] lookupCount_member [OF p i] z show ?thesis by simp
  qed
  moreover have c: "concat (map (\<lambda>k. []) xs) = ([] :: (string \<times> int) list)" for xs :: "string list"
    by (induction xs) simp_all
  ultimately show ?thesis by (simp add: dominant_def mapRange_def c)
qed

lemma dominant_max:
  "positiveCounters m \<Longrightarrow> 0 < lookupCount m t \<Longrightarrow>
   0 < lookupCount m (dominant order m) \<and> (\<forall>t'. lookupCount m t' \<le> lookupCount m (dominant order m))"
proof -
  assume p: "positiveCounters m" and t: "0 < lookupCount m t"
  obtain k c where f: "foldl maxStep ([], 0) (mapRange order m) = (k, c)"
    by (cases "foldl maxStep ([], 0) (mapRange order m)")
  have tm: "(t, lookupCount m t) \<in> set (mapRange order m)"
    using lookupCount_pos_member [OF t] by (simp add: set_mapRange [OF p])
  from foldl_maxStep [OF f] have
    "(list_all (\<lambda>(k', v). v \<le> 0) (mapRange order m))
     \<or> ((k, c) \<in> set (mapRange order m) \<and> 0 < c \<and> list_all (\<lambda>(k', v). v \<le> c) (mapRange order m))"
    by auto
  then have kc: "(k, c) \<in> set m" and c: "0 < c" and all: "list_all (\<lambda>(k', v). v \<le> c) (mapRange order m)"
    using tm t by (auto simp add: list_all_iff set_mapRange [OF p])
  have d: "dominant order m = k" by (simp add: dominant_def f)
  have lk: "lookupCount m k = c" by (rule lookupCount_member [OF p kc])
  have "lookupCount m t' \<le> c" for t'
  proof (cases "0 < lookupCount m t'")
    case True
    from lookupCount_pos_member [OF True] all show ?thesis
      by (auto simp add: list_all_iff set_mapRange [OF p])
  next
    case False
    with c show ?thesis by simp
  qed
  with d lk c show ?thesis by simp
qed

lemma dominant_strict:
  "positiveCounters m \<Longrightarrow> 0 < lookupCount m t \<Longrightarrow> (\<forall>t'. t' \<noteq> t \<longrightarrow> lookupCount m t' < lookupCount m t) \<Longrightarrow>
   dominant order m = t"
proof -
  assume p: "positiveCounters m" and t: "0 < lookupCount m t"
    and s: "\<forall>t'. t' \<noteq> t \<longrightarrow> lookupCount m t' < lookupCount m t"
  from dominant_max [OF p t, of order] have "lookupCount m t \<le> lookupCount m (dominant order m)"
    by simp
  with s show ?thesis by force
qed

lemma dominant_first:
  "positiveCounters m \<Longrightarrow> 0 < lookupCount m t \<Longrightarrow> (\<forall>t'. lookupCount m t' \<le> lookupCount m t) \<Longrightarrow>
   dominant [t] m = t"
proof -
  assume p: "positiveCounters m" and t: "0 < lookupCount m t"
    and s: "\<forall>t'. lookupCount m t' \<le> lookupCount m t"
  from lookupCount_pos_member [OF t] have mo: "map_of m t = Some (lookupCount m t)"
    by (simp add: positiveCounters_lookup [OF p])
  let ?rest = "filter (\<lambda>(k, v). k \<notin> set [t]) m"
  have r: "mapRange [t] m = (t, lookupCount m t) # ?rest"
    by (simp add: mapRange_def mo)
  have "foldl maxStep (t, lookupCount m t) es = (t, lookupCount m t)"
    if "list_all (\<lambda>(k, v). v \<le> lookupCount m t) es" for es
    using that by (induction es) (auto simp add: maxStep_pair)
  moreover have "list_all (\<lambda>(k, v). v \<le> lookupCount m t) ?rest"
    using s lookupCount_member [OF p] by (auto simp add: list_all_iff)
  ultimately have "foldl maxStep (t, lookupCount m t) ?rest = (t, lookupCount m t)" by blast
  with t show ?thesis by (simp add: dominant_def r maxStep_pair)
qed

lemma snd_keywordStep:
  "snd (keywordStep l topic st kw) = (if strContains l kw then increment (snd st) topic else snd st)"
  by (cases st) (simp add: keywordStep_def)

lemma count_keywordStep:
  "lookupCount (snd (keywordStep l topic st kw)) t =
     lookupCount (snd st) t + (if t = topic \<and> strContains l kw then 1 else 0)"
  by (simp add: snd_keywordStep lookupCount_increment)

lemma count_foldl_keywordStep:
  "lookupCount (snd (foldl (keywordStep l topic) st kws)) t =
     lookupCount (snd st) t + (if t = topic then int (length (filter (strContains l) kws)) else 0)"
  by (induction kws arbitrary: st) (simp_all add: count_keywordStep)

lemma positive_keywordStep:
  "positiveCounters (snd st) \<Longrightarrow> positiveCounters (snd (keywordStep l topic st kw))"
  by (simp add: snd_keywordStep positiveCounters_increment)

lemma positive_foldl_keywordStep:
  "positiveCounters (snd st) \<Longrightarrow> positiveCounters (snd (foldl (keywordStep l topic) st kws))"
  by (induction kws arbitrary: st) (simp_all add: positive_keywordStep)

lemma count_vocabularyStep:
  "lookupCount (snd (vocabularyStep l st v)) t =
     lookupCount (snd st) t + (if t = fst v then int (length (filter (strContains l) (snd v))) else 0)"
  by (cases v) (simp add: vocabularyStep_def count_foldl_keywordStep)

lemma positive_vocabularyStep:
  "positiveCounters (snd st) \<Longrightarrow> positiveCounters (snd (vocabularyStep l st v))"
  by (cases v) (simp add: vocabularyStep_def positive_foldl_keywordStep)

lemma count_foldl_vocabularyStep:
  "lookupCount (snd (foldl (vocabularyStep l) st vs)) t =
     lookupCount (snd st) t
     + sum_list (map (\<lambda>v. if t = fst v then int (length (filter (strContains l) (snd v))) else 0) vs)"
  by (induction vs arbitrary: st) (simp_all add: count_vocabularyStep)

lemma positive_foldl_vocabularyStep:
  "positiveCounters (snd st) \<Longrightarrow> positiveCounters (snd (foldl (vocabularyStep l) st vs))"
  by (induction vs arbitrary: st) (simp_all add: positive_vocabularyStep)

lemma vocabularies_hits:
  "sum_list (map (\<lambda>v. if t = fst v then int (length (filter (strContains l) (snd v))) else 0) vocabularies)
     = int (length (filter (strContains l) (keywordsOf t)))"
  by (simp add: vocabularies_def keywordsOf_def)

lemma snd_addedLine:
  "snd (addedLine u st line) =
     snd (foldl (vocabularyStep (toLower u line)) (addedNames (fst st) line, snd st) vocabularies)"
  by (cases st) (simp add: addedLine_def split: prod.split)

lemma count_addedLine:
  "lookupCount (snd (addedLine u st line)) t = lookupCount (snd st) t + lineHits u t line"
proof -
  show ?thesis
    by (simp add: snd_addedLine count_foldl_vocabularyStep vocabularies_hits lineHits_def)
qed

lemma positive_addedLine:
  "positiveCounters (snd st) \<Longrightarrow> positiveCounters (snd (addedLine u st line))"
proof -
  assume p: "positiveCounters (snd st)"
  show ?thesis unfolding snd_addedLine by (rule positive_foldl_vocabularyStep) (simp add: p)
qed

lemma count_diffLine:
  "lookupCount (snd (diffLine u st line)) t =
     lookupCount (snd st) t + (if isAdded line then lineHits u t line else 0)"
  by (cases st) (simp add: diffLine_def count_addedLine)

lemma positive_diffLine:
  "positiveCounters (snd st) \<Longrightarrow> positiveCounters (snd (diffLine u st line))"
  by (cases st) (auto simp add: diffLine_def positive_addedLine)

lemma count_foldl_diffLine:
  "lookupCount (snd (foldl (diffLine u) st ls)) t =
     lookupCount (snd st) t + sum_list (map (lineHits u t) (filter isAdded ls))"
  by (induction ls arbitrary: st) (simp_all add: count_diffLine)

lemma positive_foldl_diffLine:
  "positiveCounters (snd st) \<Longrightarrow> positiveCounters (snd (foldl (diffLine u) st ls))"
  by (induction ls arbitrary: st) (simp_all add: positive_diffLine)

lemma lookupCount_Nil: "lookupCount [] t = 0"
  by (simp add: lookupCount_def)

lemma topicCount_hits: "topicCount u diff topic = keywordHits u diff topic"
  by (simp add: topicCount_def contextCounts_def scanDiff_def count_foldl_diffLine keywordHits_def
      lookupCount_Nil)

lemma positive_contextCounts: "positiveCounters (contextCounts u diff)"
  unfolding contextCounts_def scanDiff_def
  by (rule positive_foldl_diffLine) (simp add: positiveCounters_def)

lemma Context_parseDiffOutput: "Context (parseDiffOutput u order diff) = dominant order (contextCounts u diff)"
  by (simp add: parseDiffOutput_def)

lemma keywordHits_topics: "topic \<notin> set (map fst vocabularies) \<Longrightarrow> keywordHits u diff topic = 0"
proof -
  assume "topic \<notin> set (map fst vocabularies)"
  then have "keywordsOf topic = []"
    by (simp add: keywordsOf_def vocabularies_def)
  then have "lineHits u topic = (\<lambda>line. 0)" by (simp add: lineHits_def fun_eq_iff)
  then show ?thesis by (simp add: keywordHits_def)
qed

lemma keywordHits_nonneg: "0 \<le> keywordHits u diff t"
  unfolding topicCount_hits [symmetric] topicCount_def
  by (rule lookupCount_nonneg [OF positive_contextCounts])

lemma hits_all_topics:
  "list_all (\<lambda>t. keywordHits u diff t = 0) topics \<Longrightarrow> keywordHits u diff t = 0"
proof (cases "t \<in> set topics")
  case True
  assume "list_all (\<lambda>t. keywordHits u diff t = 0) topics"
  with True show ?thesis by (simp add: list_all_iff)
next
  case False
  then show ?thesis by (simp add: keywordHits_topics topics_def)
qed

lemma Context_none:
  "list_all (\<lambda>t. keywordHits u diff t = 0) topics \<Longrightarrow> Context (parseDiffOutput u order diff) = []"
proof -
  assume a: "list_all (\<lambda>t. keywordHits u diff t = 0) topics"
  have "\<forall>t. lookupCount (contextCounts u diff) t = 0"
    using hits_all_topics [OF a] by (simp add: topicCount_hits [symmetric] topicCount_def)
  from dominant_none [OF positive_contextCounts this] show ?thesis
    by (simp add: Context_parseDiffOutput)
qed

lemma Context_max:
  "0 < keywordHits u diff t \<Longrightarrow>
   0 < keywordHits u diff (Context (parseDiffOutput u order diff))
   \<and> keywordHits u diff t' \<le> keywordHits u diff (Context (parseDiffOutput u order diff))"
proof -
  assume "0 < keywordHits u diff t"
  then have "0 < lookupCount (contextCounts u diff) t"
    by (simp add: topicCount_hits [symmetric] topicCount_def)
  from dominant_max [OF positive_contextCounts this, of order] show ?thesis
    by (simp add: Context_parseDiffOutput topicCount_hits [symmetric] topicCount_def)
qed

lemma Context_topic:
  "0 < keywordHits u diff t \<Longrightarrow> Context (parseDiffOutput u order diff) \<in> set topics"
proof -
  assume "0 < keywordHits u diff t"
  from Context_max [OF this, of order] have "0 < keywordHits u diff (Context (parseDiffOutput u order diff))"
    by simp
  with keywordHits_topics [of "Context (parseDiffOutput u order diff)" u diff] show ?thesis
    by (auto simp add: topics_def)
qed

lemma highest_all: "highest u diff t \<Longrightarrow> keywordHits u diff t' \<le> keywordHits u diff t"
proof (cases "t' \<in> set topics")
  case True
  assume "highest u diff t"
  with True show ?thesis by (simp add: highest_def list_all_iff)
next
  case False
  assume "highest u diff t"
  with False show ?thesis by (simp add: highest_def keywordHits_topics topics_def)
qed

lemma strictlyHighest_all: "strictlyHighest u diff t \<Longrightarrow> t' \<noteq> t \<Longrightarrow> keywordHits u diff t' < keywordHits u diff t"
proof (cases "t' \<in> set topics")
  case True
  assume "strictlyHighest u diff t" "t' \<noteq> t"
  with True show ?thesis by (auto simp add: strictlyHighest_def list_all_iff)
next
  case False
  assume "strictlyHighest u diff t"
  with False show ?thesis by (simp add: strictlyHighest_def keywordHits_topics topics_def)
qed

lemma Context_strict:
  "strictlyHighest u diff t \<Longrightarrow> Context (parseDiffOutput u order diff) = t"
proof -
  assume s: "strictlyHighest u diff t"
  then have p: "0 < lookupCount (contextCounts u diff) t"
    by (simp add: strictlyHighest_def topicCount_hits [symmetric] topicCount_def)
  have "\<forall>t'. t' \<noteq> t \<longrightarrow> lookupCount (contextCounts u diff) t' < lookupCount (contextCounts u diff) t"
    using strictlyHighest_all [OF s] by (simp add: topicCount_hits [symmetric] topicCount_def)
  from dominant_strict [OF positive_contextCounts p this] show ?thesis
    by (simp add: Context_parseDiffOutput)
qed

lemma Context_first:
  "highest u diff t \<Longrightarrow> Context (parseDiffOutput u [t] diff) = t"
proof -
  assume s: "highest u diff t"
  then have p: "0 < lookupCount (contextCounts u diff) t"
    by (simp add: highest_def topicCount_hits [symmetric] topicCount_def)
  have "\<forall>t'. lookupCount (contextCounts u diff) t' \<le> lookupCount (contextCounts u diff) t"
    using highest_all [OF s] by (simp add: topicCount_hits [symmetric] topicCount_def)
  from dominant_first [OF positive_contextCounts p this] show ?thesis
    by (simp add: Context_parseDiffOutput)
qed

subsection \<open>The first of the highest counters\<close>

lemma foldl_maxStep_split:
  "foldl maxStep (k0, c0) es = (k, c) \<Longrightarrow> c0 < c \<Longrightarrow>
   \<exists>front rest. es = front @ (k, c) # rest
      \<and> list_all (\<lambda>(k', v). v < c) front \<and> list_all (\<lambda>(k', v). v \<le> c) rest"
proof (induction es arbitrary: k0 c0)
  case Nil
  then show ?case by simp
next
  case (Cons e es)
  obtain k1 v1 where e: "e = (k1, v1)" by (cases e)
  show ?case
  proof (cases "v1 > c0")
    case True
    with Cons.prems(1) e have f: "foldl maxStep (k1, v1) es = (k, c)" by (simp add: maxStep_pair)
    from foldl_maxStep [OF f] consider
      (stay) "k = k1" "c = v1" "list_all (\<lambda>(k', v). v \<le> v1) es"
      | (move) "(k, c) \<in> set es" "v1 < c"
      by blast
    then show ?thesis
    proof cases
      case stay
      then have "e # es = [] @ (k, c) # es \<and> list_all (\<lambda>(k', v). v < c) []
          \<and> list_all (\<lambda>(k', v). v \<le> c) es"
        using e by simp
      then show ?thesis by blast
    next
      case move
      from Cons.IH [OF f move(2)] obtain front rest where
        s: "es = front @ (k, c) # rest" "list_all (\<lambda>(k', v). v < c) front"
          "list_all (\<lambda>(k', v). v \<le> c) rest"
        by blast
      with move(2) e have "e # es = (e # front) @ (k, c) # rest
          \<and> list_all (\<lambda>(k', v). v < c) (e # front) \<and> list_all (\<lambda>(k', v). v \<le> c) rest"
        by simp
      then show ?thesis by blast
    qed
  next
    case False
    with Cons.prems(1) e have f: "foldl maxStep (k0, c0) es = (k, c)" by (simp add: maxStep_pair)
    from Cons.IH [OF f Cons.prems(2)] obtain front rest where
      s: "es = front @ (k, c) # rest" "list_all (\<lambda>(k', v). v < c) front"
        "list_all (\<lambda>(k', v). v \<le> c) rest"
      by blast
    with False Cons.prems(2) e have "e # es = (e # front) @ (k, c) # rest
        \<and> list_all (\<lambda>(k', v). v < c) (e # front) \<and> list_all (\<lambda>(k', v). v \<le> c) rest"
      by simp
    then show ?thesis by blast
  qed
qed

lemma dominant_first_highest:
  assumes p: "positiveCounters m" and t: "0 < lookupCount m t"
  shows "dominant order m
     = hd (filter (\<lambda>k. \<forall>t'. lookupCount m t' \<le> lookupCount m k) (map fst (mapRange order m)))"
proof -
  obtain k c where f: "foldl maxStep ([], 0) (mapRange order m) = (k, c)"
    by (cases "foldl maxStep ([], 0) (mapRange order m)")
  then have d: "dominant order m = k" by (simp add: dominant_def)
  from dominant_max [OF p t, of order] d have
    kp: "0 < lookupCount m k" and km: "\<forall>t'. lookupCount m t' \<le> lookupCount m k"
    by simp_all
  have mem: "(k', v) \<in> set (mapRange order m) \<Longrightarrow> lookupCount m k' = v" for k' v
    using lookupCount_member [OF p] by (simp add: set_mapRange [OF p])
  from foldl_maxStep [OF f] t lookupCount_pos_member [OF t] have "(k, c) \<in> set (mapRange order m)" "0 < c"
    by (auto simp add: list_all_iff set_mapRange [OF p])
  then have ck: "lookupCount m k = c" using mem by simp
  from foldl_maxStep_split [OF f \<open>0 < c\<close>] obtain front rest where
    s: "mapRange order m = front @ (k, c) # rest" and fr: "list_all (\<lambda>(k', v). v < c) front"
    by blast
  have "filter (\<lambda>k. \<forall>t'. lookupCount m t' \<le> lookupCount m k) (map fst front) = []"
  proof -
    have "\<not> (\<forall>t'. lookupCount m t' \<le> lookupCount m k')" if "k' \<in> set (map fst front)" for k'
    proof -
      from that obtain v where i: "(k', v) \<in> set front" by auto
      with fr have "v < c" by (auto simp add: list_all_iff)
      moreover from i s have "lookupCount m k' = v" by (intro mem) simp
      ultimately have "lookupCount m k' < lookupCount m k" using ck by simp
      then show ?thesis by (auto simp add: not_le intro: exI [of _ k])
    qed
    then show ?thesis by (simp add: filter_empty_conv)
  qed
  then have "hd (filter (\<lambda>k. \<forall>t'. lookupCount m t' \<le> lookupCount m k) (map fst (mapRange order m))) = k"
    using km by (simp add: s)
  with d show ?thesis by simp
qed

lemma mapRange_enumeration:
  assumes p: "positiveCounters m" and d: "distinct ks" and s: "set ks = fst ` set m"
  shows "map fst (mapRange ks m) = ks"
proof -
  have a: "map fst (concat (map (\<lambda>k. case map_of m k of None \<Rightarrow> [] | Some v \<Rightarrow> [(k, v)]) xs)) = xs"
    if "set xs \<subseteq> fst ` set m" for xs
    using that
  proof (induction xs)
    case Nil
    then show ?case by simp
  next
    case (Cons x xs)
    then have "x \<in> fst ` set m" by simp
    then obtain v where "map_of m x = Some v"
      by (cases "map_of m x") (auto simp add: map_of_eq_None_iff)
    with Cons show ?case by simp
  qed
  have b: "filter (\<lambda>(k, v). k \<notin> set ks) m = []"
    using s by (force simp add: filter_empty_conv)
  from d have r: "remdups ks = ks" by (rule distinct_remdups_id)
  from s have "set ks \<subseteq> fst ` set m" by simp
  from a [OF this] show ?thesis unfolding mapRange_def r b by simp
qed

lemma mapRange_insertion: "mapRange [] m = m"
  by (simp add: mapRange_def)

lemma highest_lookup:
  "highest u diff t =
     (0 < lookupCount (contextCounts u diff) t
      \<and> (\<forall>t'. lookupCount (contextCounts u diff) t' \<le> lookupCount (contextCounts u diff) t))"
proof -
  have h: "keywordHits u diff x = lookupCount (contextCounts u diff) x" for x
    by (simp add: topicCount_hits [symmetric] topicCount_def)
  show ?thesis
  proof
    assume a: "highest u diff t"
    from highest_all [OF a] a show "0 < lookupCount (contextCounts u diff) t
      \<and> (\<forall>t'. lookupCount (contextCounts u diff) t' \<le> lookupCount (contextCounts u diff) t)"
      by (simp add: h highest_def)
  next
    assume "0 < lookupCount (contextCounts u diff) t
      \<and> (\<forall>t'. lookupCount (contextCounts u diff) t' \<le> lookupCount (contextCounts u diff) t)"
    then show "highest u diff t" by (simp add: highest_def h list_all_iff)
  qed
qed

lemma Context_first_highest:
  "0 < keywordHits u diff t \<Longrightarrow>
   Context (parseDiffOutput u order diff) = hd (filter (highest u diff) (visited u order diff))"
proof -
  assume "0 < keywordHits u diff t"
  then have t: "0 < lookupCount (contextCounts u diff) t"
    by (simp add: topicCount_hits [symmetric] topicCount_def)
  have e: "filter (highest u diff) ks
      = filter (\<lambda>k. \<forall>t'. lookupCount (contextCounts u diff) t' \<le> lookupCount (contextCounts u diff) k) ks"
    if "\<forall>k \<in> set ks. 0 < lookupCount (contextCounts u diff) k" for ks
    using that by (intro filter_cong) (simp_all add: highest_lookup)
  have pos: "\<forall>k \<in> set (visited u order diff). 0 < lookupCount (contextCounts u diff) k"
  proof
    fix k assume "k \<in> set (visited u order diff)"
    then obtain v where "(k, v) \<in> set (contextCounts u diff)"
      by (auto simp add: visited_def set_mapRange [OF positive_contextCounts])
    with positiveCounters_pos [OF positive_contextCounts this]
      lookupCount_member [OF positive_contextCounts this]
    show "0 < lookupCount (contextCounts u diff) k" by simp
  qed
  from dominant_first_highest [OF positive_contextCounts t, of order] show ?thesis
    unfolding e [OF pos] by (simp add: Context_parseDiffOutput visited_def)
qed

lemma visited_hits: "(t \<in> set (visited u order diff)) = (0 < keywordHits u diff t)"
proof
  assume "t \<in> set (visited u order diff)"
  then obtain v where i: "(t, v) \<in> set (contextCounts u diff)"
    by (auto simp add: visited_def set_mapRange [OF positive_contextCounts])
  with positiveCounters_pos [OF positive_contextCounts i]
    lookupCount_member [OF positive_contextCounts i]
  show "0 < keywordHits u diff t" by (simp add: topicCount_hits [symmetric] topicCount_def)
next
  assume "0 < keywordHits u diff t"
  then have "0 < lookupCount (contextCounts u diff) t"
    by (simp add: topicCount_hits [symmetric] topicCount_def)
  from lookupCount_pos_member [OF this] show "t \<in> set (visited u order diff)"
    by (force simp add: visited_def set_mapRange [OF positive_contextCounts])
qed

lemma distinct_mapRange: "positiveCounters m \<Longrightarrow> distinct (map fst (mapRange order m))"
proof -
  assume p: "positiveCounters m"
  let ?pick = "\<lambda>k. case map_of m k of None \<Rightarrow> [] | Some v \<Rightarrow> [(k, v)]"
  have a: "distinct (map fst (concat (map ?pick xs)))
      \<and> set (map fst (concat (map ?pick xs))) \<subseteq> set xs" if "distinct xs" for xs
    using that by (induction xs) (auto split: option.splits)
  have b: "distinct (map fst (filter (\<lambda>(k, v). k \<notin> set order) m))"
    using p by (simp add: positiveCounters_def distinct_map_filter)
  have c: "set (map fst (filter (\<lambda>(k, v). k \<notin> set order) m)) \<inter> set order = {}"
    by auto
  from a [of "remdups order"] b c show ?thesis
    by (auto simp add: mapRange_def)
qed

lemma visited_distinct: "distinct (visited u order diff)"
  unfolding visited_def by (rule distinct_mapRange [OF positive_contextCounts])

lemma visited_enumeration:
  "distinct ks \<Longrightarrow> set ks = set (visited u [] diff) \<Longrightarrow> visited u ks diff = ks"
  unfolding visited_def
  by (rule mapRange_enumeration [OF positive_contextCounts]) (simp_all add: mapRange_insertion)

section \<open>The rules for a modified file\<close>

text \<open>
  The rules as the specification words them, for comparison with the chain of conditions
  in \<^verbatim>\<open>determineAdvancedCommitType\<close>: a list of pairs of a condition and a type, of which
  the first pair whose condition holds gives the type.  What makes a path doc-like,
  test-like, config-like or a manifest is taken from the conditions of the program.
\<close>

definition docLike :: "string \<Rightarrow> bool" where
  "docLike file = (hasSuffix file ''.md'' \<or> strContains file ''README'' \<or> strContains file ''doc'')"

definition testLike :: "string \<Rightarrow> bool" where
  "testLike file =
     (strContains file ''test'' \<or> hasSuffix file ''_test.go'' \<or> hasSuffix file ''.test.js'')"

definition configLike :: "string \<Rightarrow> bool" where
  "configLike file =
     (strContains file ''config'' \<or> hasSuffix file ''.json'' \<or> hasSuffix file ''.yaml''
      \<or> hasSuffix file ''.yml'' \<or> hasSuffix file ''.toml'' \<or> hasSuffix file ''.env''
      \<or> filepathBase file = ''Dockerfile'' \<or> filepathBase file = ''Makefile'')"

definition manifestFile :: "string \<Rightarrow> bool" where
  "manifestFile file =
     (filepathBase file \<in> set [''package.json'', ''go.mod'', ''requirements.txt'', ''Cargo.toml'', ''pom.xml''])"

fun firstMatch :: "(bool \<times> string) list \<Rightarrow> string \<Rightarrow> string" where
  "firstMatch [] otherwise = otherwise"
| "firstMatch ((condition, result) # rules) otherwise =
     (if condition then result else firstMatch rules otherwise)"

definition classifyModified :: "string \<Rightarrow> DiffInfo \<Rightarrow> string" where
  "classifyModified file diff =
     firstMatch
       [(docLike file, ''docs''),
        (testLike file, ''test''),
        (configLike file, ''chore''),
        (manifestFile file \<and> Imports diff \<noteq> [], ''feat''),
        (manifestFile file, ''chore''),
        (LinesRemoved diff > LinesAdded diff, ''fix''),
        (Functions diff \<noteq> [] \<or> LinesAdded diff > 2 * LinesRemoved diff, ''feat''),
        (\<bar>LinesAdded diff - LinesRemoved diff\<bar> < 10 \<and> 0 < LinesAdded diff \<and> 0 < LinesRemoved diff,
         ''refactor''),
        (LinesAdded diff + LinesRemoved diff < 10, ''fix'')]
       ''feat''"

definition lineCounts :: "DiffInfo \<Rightarrow> bool" where
  "lineCounts diff =
     (0 \<le> LinesAdded diff \<and> LinesAdded diff < 2 ^ 62 \<and> 0 \<le> LinesRemoved diff \<and> LinesRemoved diff < 2 ^ 62)"

text \<open>
  The line counters of a \<^verbatim>\<open>DiffInfo\<close> are numbers of lines of a text in memory.  In
  this range the 64-bit arithmetic of the program does not wrap around.
\<close>

definition modifiedOnly :: "string \<Rightarrow> bool" where
  "modifiedOnly status =
     (strContains status ''M'' \<and> \<not> strContains status ''A'' \<and> \<not> strContains status ''D'')"

definition loginInfo :: DiffInfo where
  "loginInfo = emptyDiffInfo\<lparr>LinesAdded := 2, LinesRemoved := 3, Functions := [''ValidateToken'']\<rparr>"

lemma wrap64_id: "- (2 ^ 63) \<le> x \<Longrightarrow> x < 2 ^ 63 \<Longrightarrow> wrap64 x = x"
  by (simp add: wrap64_def)

lemma modified_arith:
  assumes "lineCounts diff"
  shows "wrap64 (LinesRemoved diff * 2) = 2 * LinesRemoved diff"
    and "goAbs (wrap64 (LinesAdded diff - LinesRemoved diff)) = \<bar>LinesAdded diff - LinesRemoved diff\<bar>"
    and "wrap64 (LinesAdded diff + LinesRemoved diff) = LinesAdded diff + LinesRemoved diff"
proof -
  from assms have a: "0 \<le> LinesAdded diff" "LinesAdded diff < 2 ^ 62"
    and r: "0 \<le> LinesRemoved diff" "LinesRemoved diff < 2 ^ 62"
    by (simp_all add: lineCounts_def)
  from r show "wrap64 (LinesRemoved diff * 2) = 2 * LinesRemoved diff"
    by (simp add: wrap64_id)
  from a r have d: "wrap64 (LinesAdded diff - LinesRemoved diff) = LinesAdded diff - LinesRemoved diff"
    by (simp add: wrap64_id)
  from a r have n: "wrap64 (- (LinesAdded diff - LinesRemoved diff)) = - (LinesAdded diff - LinesRemoved diff)"
    by (intro wrap64_id) simp_all
  from d n show "goAbs (wrap64 (LinesAdded diff - LinesRemoved diff)) = \<bar>LinesAdded diff - LinesRemoved diff\<bar>"
    by (simp add: goAbs_def)
  from a r show "wrap64 (LinesAdded diff + LinesRemoved diff) = LinesAdded diff + LinesRemoved diff"
    by (simp add: wrap64_id)
qed

text \<open>
  Claim C3, as stated, fails: the program tests the status for \<open>A\<close> and for \<open>D\<close> before it
  tests it for \<open>M\<close>.  The status \<open>AM\<close> (added to the index, modified in the work tree)
  contains \<open>M\<close>, the path \<^verbatim>\<open>docs/guide.txt\<close> is doc-like, and the type is \<open>feat\<close>, where
  the rules for a modified file give \<open>docs\<close>; with the status \<open>MD\<close> (modified in the index,
  deleted in the work tree) the type of \<^verbatim>\<open>README.md\<close> is \<open>chore\<close>.
\<close>

theorem determineAdvancedCommitType_added_deleted_first:
  "strContains ''AM'' ''M''
   \<and> determineAdvancedCommitType ''docs/guide.txt'' ''AM'' emptyDiffInfo = ''feat''
   \<and> classifyModified ''docs/guide.txt'' emptyDiffInfo = ''docs''
   \<and> strContains ''MD'' ''M''
   \<and> determineAdvancedCommitType ''README.md'' ''MD'' emptyDiffInfo = ''chore''
   \<and> classifyModified ''README.md'' emptyDiffInfo = ''docs''"
  by code_simp

text \<open>
  Claim C3, amended: for every file whose status contains \<open>M\<close> and neither \<open>A\<close> nor \<open>D\<close>,
  and every \<^verbatim>\<open>DiffInfo\<close> with line counters from 0 to below \<open>2 ^ 62\<close>, the type the
  classifier returns is the one the first matching rule gives, the rules taken in this
  order: doc-like path, \<open>docs\<close>; test-like path, \<open>test\<close>; config-like path or extension,
  \<open>chore\<close>; manifest file with new imports, \<open>feat\<close>, without, \<open>chore\<close>; more removed than
  added lines, \<open>fix\<close>; functions present or additions more than double the removals,
  \<open>feat\<close>; both counters positive and differing by less than 10, \<open>refactor\<close>; fewer than
  10 changed lines, \<open>fix\<close>; otherwise \<open>feat\<close>.
\<close>

theorem determineAdvancedCommitType_modified:
  assumes "modifiedOnly status" and "lineCounts diff"
  shows "determineAdvancedCommitType file status diff = classifyModified file diff"
proof -
  from assms(1) have s: "strContains status ''M''" "\<not> strContains status ''A''"
    "\<not> strContains status ''D''"
    by (simp_all add: modifiedOnly_def)
  from assms(2) have nn: "0 \<le> LinesAdded diff" by (simp add: lineCounts_def)
  have bug: "containsBugFixKeywords diff = (LinesRemoved diff > LinesAdded diff)"
    using nn by (auto simp add: containsBugFixKeywords_def)
  show ?thesis
    unfolding determineAdvancedCommitType_def classifyModified_def Let_def
    by (simp add: s bug modified_arith [OF assms(2)] docLike_def testLike_def configLike_def
        manifestFile_def)
qed

theorem determineAdvancedCommitType_modified_witness:
  "modifiedOnly ''M '' \<and> lineCounts loginInfo
   \<and> determineAdvancedCommitType ''src/auth/login.go'' ''M '' loginInfo
       = classifyModified ''src/auth/login.go'' loginInfo
   \<and> classifyModified ''src/auth/login.go'' loginInfo = ''fix''"
proof -
  have m: "modifiedOnly ''M ''" by code_simp
  have l: "lineCounts loginInfo" by code_simp
  have c: "classifyModified ''src/auth/login.go'' loginInfo = ''fix''" by code_simp
  from determineAdvancedCommitType_modified [OF m l, of "''src/auth/login.go''"] m l c
  show ?thesis by simp
qed

section \<open>The dominant context\<close>

definition tiedDiff :: string where
  "tiedDiff = ''+fix token''"

text \<open>
  The added line \<^verbatim>\<open>fix token\<close> has one hit for \<open>fix\<close> and one for \<open>security\<close>, whatever
  the mapping of Unicode (the line is ASCII), and \<open>security\<close> is the dominant context when
  it is visited first.
\<close>

lemma tiedDiff_any_mapping:
  "map (keywordHits u tiedDiff) topics = [1, 0, 0, 1, 0]
   \<and> Context (parseDiffOutput u [''security'', ''fix''] tiedDiff) = ''security''"
  by code_simp

text \<open>
  Claim C4, as stated, fails where it says how a tie is broken.  The counters are kept in
  a Go map, and the loop that looks for the highest one visits the map in the order that
  \<^verbatim>\<open>range\<close> gives, which Go leaves open.  The added line \<^verbatim>\<open>fix token\<close> has one hit
  for the topic \<open>fix\<close> and one for \<open>security\<close>, and none for the others; \<open>fix\<close> is declared
  before \<open>security\<close>; and when the map is visited with \<open>security\<close> before \<open>fix\<close> the
  dominant context is \<open>security\<close>.  (The line is ASCII, so the Unicode mapping is not
  called; \<open>id\<close> stands for it.)
\<close>

theorem dominantContext_tie_by_map_order:
  "topics = [''fix'', ''validation'', ''api'', ''security'', ''performance'']
   \<and> map (keywordHits id tiedDiff) topics = [1, 0, 0, 1, 0]
   \<and> visited id [''security'', ''fix''] tiedDiff = [''security'', ''fix'']
   \<and> Context (parseDiffOutput id [''security'', ''fix''] tiedDiff) = ''security''"
  by code_simp

text \<open>
  Claim C4, amended.  For every diff text, every lower-case mapping of Unicode and every
  order in which the map of the counters is visited: when no topic has a keyword hit the
  dominant context is empty; otherwise it is a topic whose number of hits is positive and
  not below that of any topic, namely the first such topic in the order in which the map
  is visited; a topic whose number of hits is strictly the highest is therefore the
  dominant context whatever the order.  The topics visited are those with a hit, each
  once, and every enumeration of them is the order of some visit: the order in which the
  vocabularies are declared does not decide a tie.
\<close>

theorem dominantContext_highest:
  "(list_all (\<lambda>t. keywordHits u diff t = 0) topics \<longrightarrow> Context (parseDiffOutput u order diff) = [])
   \<and> (list_all (\<lambda>t. keywordHits u diff t = 0) topics
        \<or> highest u diff (Context (parseDiffOutput u order diff))
           \<and> Context (parseDiffOutput u order diff)
               = hd (filter (highest u diff) (visited u order diff)))
   \<and> (strictlyHighest u diff t \<longrightarrow> Context (parseDiffOutput u order diff) = t)
   \<and> distinct (visited u order diff)
   \<and> (t \<in> set (visited u order diff)) = (0 < keywordHits u diff t)
   \<and> (distinct ks \<and> set ks = set (visited u [] diff) \<longrightarrow> visited u ks diff = ks)
   \<and> (highest u diff t \<longrightarrow> Context (parseDiffOutput u [t] diff) = t)"
proof -
  have "highest u diff (Context (parseDiffOutput u order diff))
      \<and> Context (parseDiffOutput u order diff) = hd (filter (highest u diff) (visited u order diff))"
    if n: "\<not> list_all (\<lambda>t. keywordHits u diff t = 0) topics"
  proof -
    from n obtain t where "keywordHits u diff t \<noteq> 0" by (auto simp add: list_all_iff)
    with keywordHits_nonneg [of u diff t] have p: "0 < keywordHits u diff t" by simp
    from Context_max [OF p, of order] Context_first_highest [OF p, of order] show ?thesis
      by (simp add: highest_def list_all_iff)
  qed
  then show ?thesis
    using Context_none [of u diff order] Context_strict [of u diff t order]
      Context_first [of u diff t] visited_distinct [of u order diff]
      visited_hits [of t u order diff] visited_enumeration [of ks u diff]
    by blast
qed

theorem dominantContext_highest_witness:
  "highest id tiedDiff ''fix'' \<and> Context (parseDiffOutput id [''fix''] tiedDiff) = ''fix''
   \<and> highest id tiedDiff ''security''
   \<and> Context (parseDiffOutput id [''security''] tiedDiff) = ''security''
   \<and> visited id [] tiedDiff = [''fix'', ''security'']
   \<and> visited id [''security'', ''fix''] tiedDiff = [''security'', ''fix'']
   \<and> strictlyHighest id ''+token'' ''security''
   \<and> Context (parseDiffOutput id [''fix''] ''+token'') = ''security''
   \<and> list_all (\<lambda>t. keywordHits id ''-x'' t = 0) topics
   \<and> Context (parseDiffOutput id [''fix''] ''-x'') = []"
proof -
  have f: "highest id tiedDiff ''fix''" by code_simp
  have s: "highest id tiedDiff ''security''" by code_simp
  have t: "strictlyHighest id ''+token'' ''security''" by code_simp
  have n: "list_all (\<lambda>t. keywordHits id ''-x'' t = 0) topics" by code_simp
  have v: "visited id [] tiedDiff = [''fix'', ''security'']" by code_simp
  have d: "distinct [''security'', ''fix''] \<and> set [''security'', ''fix''] = set (visited id [] tiedDiff)"
    unfolding v by auto
  from dominantContext_highest [of id tiedDiff "[''fix'']" "''fix''"] f
  have 1: "Context (parseDiffOutput id [''fix''] tiedDiff) = ''fix''" by blast
  from dominantContext_highest [of id tiedDiff "[''security'']" "''security''"] s
  have 2: "Context (parseDiffOutput id [''security''] tiedDiff) = ''security''" by blast
  from dominantContext_highest [of id "''+token''" "[''fix'']" "''security''"] t
  have 3: "Context (parseDiffOutput id [''fix''] ''+token'') = ''security''" by blast
  from dominantContext_highest [of id "''-x''" "[''fix'']" "''fix''"] n
  have 4: "Context (parseDiffOutput id [''fix''] ''-x'') = []" by blast
  from dominantContext_highest [of id tiedDiff "[''fix'']" "''fix''" "[''security'', ''fix'']"] d
  have 5: "visited id [''security'', ''fix''] tiedDiff = [''security'', ''fix'']" by blast
  from f s t n v 1 2 3 4 5 show ?thesis by blast
qed

section \<open>The analysis of one file: a worked example\<close>

text \<open>
  What a diff text gives the analyser: its added lines, in their order, and the number of
  its removed lines.  \<open>withRemoved\<close> sets the counter of the removed lines in a state of
  the loop of \<^verbatim>\<open>parseDiffOutput\<close>.
\<close>

definition addedLines :: "string \<Rightarrow> string list" where
  "addedLines text = filter isAdded (strSplit text (CHR 0x0A))"

definition removedCount :: "string \<Rightarrow> int" where
  "removedCount text = int (length (filter isRemoved (strSplit text (CHR 0x0A))))"

definition withRemoved :: "int \<Rightarrow> DiffInfo \<times> counters \<Rightarrow> DiffInfo \<times> counters" where
  "withRemoved r state = (case state of (info, counts) \<Rightarrow> (info\<lparr>LinesRemoved := r\<rparr>, counts))"

text \<open>
  The file \<^verbatim>\<open>src/auth/login.go\<close> and three added lines: the declaration of the function
  \<open>ValidateToken\<close>, a line of its body that contains \<open>token\<close>, and its closing brace.
  \<open>declInfo\<close> is the record that the analyser builds from the declaration alone, and
  \<open>modifiedStatus\<close> are the statuses for which the composer words the message of a
  modified file.
\<close>

definition loginFile :: string where
  "loginFile = ''src/auth/login.go''"

definition loginChange :: "string \<Rightarrow> GitChange" where
  "loginChange status = \<lparr>File = loginFile, Status = status, ChangeType = [], ChangeScope = []\<rparr>"

definition modifiedStatus :: "string \<Rightarrow> bool" where
  "modifiedStatus status = (status = ''M '' \<or> status = '' M'' \<or> status = ''MM'')"

definition declLine :: string where
  "declLine = ''+func ValidateToken(t string) bool {''"

definition tokenLine :: string where
  "tokenLine = (''+'' @ [CHR 0x09] @ ''return token.Valid(t)'')"

definition braceLine :: string where
  "braceLine = ''+}''"

definition declInfo :: DiffInfo where
  "declInfo =
     \<lparr>LinesAdded = 1, LinesRemoved = 0, Functions = [''ValidateToken''], Imports = [],
      HasTests = False, HasDocs = False, Variables = [],
      Keywords = [''validate'', ''token''], Comments = [], Context = []\<rparr>"

text \<open>
  Three diffs of the file as \<^verbatim>\<open>git diff\<close> prints them.  Each removes three lines.  The
  first adds the declaration only, the second the declaration and the line with \<open>token\<close>,
  the third the closing brace as well.
\<close>

definition loginDeclDiff :: string where
  "loginDeclDiff = (''diff --git a/src/auth/login.go b/src/auth/login.go'' @ [CHR 0x0A] @ ''--- a/src/auth/login.go'' @ [CHR 0x0A] @ ''+++ b/src/auth/login.go'' @ [CHR 0x0A] @ ''@@ -10,3 +10,1 @@'' @ [CHR 0x0A] @ ''-old line one'' @ [CHR 0x0A] @ ''-old line two'' @ [CHR 0x0A] @ ''-old line three'' @ [CHR 0x0A] @ ''+func ValidateToken(t string) bool {'' @ [CHR 0x0A])"

definition loginDiff :: string where
  "loginDiff = (''diff --git a/src/auth/login.go b/src/auth/login.go'' @ [CHR 0x0A] @ ''--- a/src/auth/login.go'' @ [CHR 0x0A] @ ''+++ b/src/auth/login.go'' @ [CHR 0x0A] @ ''@@ -10,3 +10,2 @@'' @ [CHR 0x0A] @ ''-old line one'' @ [CHR 0x0A] @ ''-old line two'' @ [CHR 0x0A] @ ''-old line three'' @ [CHR 0x0A] @ ''+func ValidateToken(t string) bool {'' @ [CHR 0x0A] @ ''+'' @ [CHR 0x09] @ ''return token.Valid(t)'' @ [CHR 0x0A])"

definition loginDiffBrace :: string where
  "loginDiffBrace = (''diff --git a/src/auth/login.go b/src/auth/login.go'' @ [CHR 0x0A] @ ''--- a/src/auth/login.go'' @ [CHR 0x0A] @ ''+++ b/src/auth/login.go'' @ [CHR 0x0A] @ ''@@ -10,3 +10,3 @@'' @ [CHR 0x0A] @ ''-old line one'' @ [CHR 0x0A] @ ''-old line two'' @ [CHR 0x0A] @ ''-old line three'' @ [CHR 0x0A] @ ''+func ValidateToken(t string) bool {'' @ [CHR 0x0A] @ ''+'' @ [CHR 0x09] @ ''return token.Valid(t)'' @ [CHR 0x0A] @ ''+}'' @ [CHR 0x0A])"

subsection \<open>The scan of a diff, by its added lines and the number of its removed lines\<close>

lemma isRemoved_not_added: "isRemoved line \<Longrightarrow> \<not> isAdded line"
  by (cases line) (simp_all add: isRemoved_def isAdded_def hasPrefix_def)

lemma keywordStep_withRemoved:
  "keywordStep l topic (withRemoved r st) kw = withRemoved r (keywordStep l topic st kw)"
  by (cases st) (simp add: keywordStep_def withRemoved_def)

lemma foldl_keywordStep_withRemoved:
  "foldl (keywordStep l topic) (withRemoved r st) kws
     = withRemoved r (foldl (keywordStep l topic) st kws)"
  by (induction kws arbitrary: st) (simp_all add: keywordStep_withRemoved)

lemma vocabularyStep_withRemoved:
  "vocabularyStep l (withRemoved r st) v = withRemoved r (vocabularyStep l st v)"
  by (cases v) (simp add: vocabularyStep_def foldl_keywordStep_withRemoved)

lemma foldl_vocabularyStep_withRemoved:
  "foldl (vocabularyStep l) (withRemoved r st) vs = withRemoved r (foldl (vocabularyStep l) st vs)"
  by (induction vs arbitrary: st) (simp_all add: vocabularyStep_withRemoved)

lemma addedNames_withRemoved:
  "addedNames (info\<lparr>LinesRemoved := r\<rparr>) line = (addedNames info line)\<lparr>LinesRemoved := r\<rparr>"
  by (simp add: addedNames_def Let_def)

lemma addedFlags_withRemoved:
  "addedFlags u (info\<lparr>LinesRemoved := r\<rparr>) line = (addedFlags u info line)\<lparr>LinesRemoved := r\<rparr>"
  by (simp add: addedFlags_def Let_def)

lemma addedLine_withRemoved:
  "addedLine u (withRemoved r st) line = withRemoved r (addedLine u st line)"
proof -
  obtain info counts where st: "st = (info, counts)" by (cases st)
  have "foldl (vocabularyStep (toLower u line)) (addedNames (info\<lparr>LinesRemoved := r\<rparr>) line, counts)
          vocabularies
      = withRemoved r (foldl (vocabularyStep (toLower u line)) (addedNames info line, counts)
          vocabularies)"
    using foldl_vocabularyStep_withRemoved [of "toLower u line" r "(addedNames info line, counts)"
        vocabularies]
    by (simp add: withRemoved_def addedNames_withRemoved)
  then show ?thesis
    by (simp add: st addedLine_def withRemoved_def addedFlags_withRemoved split: prod.split)
qed

lemma foldl_addedLine_withRemoved:
  "foldl (addedLine u) (withRemoved r st) ls = withRemoved r (foldl (addedLine u) st ls)"
  by (induction ls arbitrary: st) (simp_all add: addedLine_withRemoved)

lemma withRemoved_twice: "withRemoved r (withRemoved r' st) = withRemoved r st"
  by (cases st) (simp add: withRemoved_def)

lemma withRemoved_same: "withRemoved (LinesRemoved (fst st)) st = st"
  by (cases st) (simp add: withRemoved_def)

lemma fst_withRemoved: "LinesRemoved (fst (withRemoved r st)) = r"
  by (cases st) (simp add: withRemoved_def)

lemma removed_addedLine: "LinesRemoved (fst (addedLine u st line)) = LinesRemoved (fst st)"
proof -
  have "addedLine u st line = withRemoved (LinesRemoved (fst st)) (addedLine u st line)"
    using addedLine_withRemoved [of u "LinesRemoved (fst st)" st line]
    by (simp add: withRemoved_same)
  then have "LinesRemoved (fst (addedLine u st line))
      = LinesRemoved (fst (withRemoved (LinesRemoved (fst st)) (addedLine u st line)))"
    by simp
  then show ?thesis by (simp add: fst_withRemoved)
qed

lemma foldl_diffLine_split:
  "foldl (diffLine u) st ls
     = withRemoved (LinesRemoved (fst st) + int (length (filter isRemoved ls)))
         (foldl (addedLine u) st (filter isAdded ls))"
proof (induction ls arbitrary: st)
  case Nil
  show ?case by (simp add: withRemoved_same)
next
  case (Cons l ls)
  consider (added) "isAdded l" | (removed) "isRemoved l" | (other) "\<not> isAdded l" "\<not> isRemoved l"
    by blast
  then show ?case
  proof cases
    case added
    then have "\<not> isRemoved l" using isRemoved_not_added by blast
    have d: "diffLine u st l = addedLine u st l"
      using added by (simp add: diffLine_def)
    from added \<open>\<not> isRemoved l\<close> show ?thesis
      by (simp add: Cons.IH d removed_addedLine)
  next
    case removed
    then have n: "\<not> isAdded l" by (rule isRemoved_not_added)
    have d: "diffLine u st l = withRemoved (LinesRemoved (fst st) + 1) st"
      using removed n by (cases st) (simp add: diffLine_def withRemoved_def)
    show ?thesis
      using removed n
      by (simp add: Cons.IH d fst_withRemoved foldl_addedLine_withRemoved withRemoved_twice
          add.assoc)
  next
    case other
    then have d: "diffLine u st l = st" by (simp add: diffLine_def)
    from other show ?thesis by (simp add: Cons.IH d)
  qed
qed

lemma scanDiff_split:
  "scanDiff u text
     = withRemoved (removedCount text) (foldl (addedLine u) (emptyDiffInfo, []) (addedLines text))"
  by (simp add: scanDiff_def foldl_diffLine_split removedCount_def addedLines_def
      emptyDiffInfo_def)

subsection \<open>The three added lines\<close>

text \<open>
  The lines are ASCII, so the lower-case mapping of Unicode is not called on them: the
  steps of the loop are the same for every \<open>u\<close>.
\<close>

lemma scan_declLine:
  "addedLine u (emptyDiffInfo, []) declLine = (declInfo, [(''validation'', 1), (''security'', 1)])"
  by code_simp

lemma scan_tokenLine:
  "addedLine u (declInfo, [(''validation'', 1), (''security'', 1)]) tokenLine =
     (declInfo\<lparr>LinesAdded := 2\<rparr>, [(''validation'', 1), (''security'', 2)])"
  by code_simp

lemma scan_braceLine:
  "addedLine u (declInfo\<lparr>LinesAdded := 2\<rparr>, [(''validation'', 1), (''security'', 2)]) braceLine =
     (declInfo\<lparr>LinesAdded := 3\<rparr>, [(''validation'', 1), (''security'', 2)])"
  by code_simp

lemma scan_decl:
  assumes "removedCount text = 3" and "addedLines text = [declLine]"
  shows "scanDiff u text = (declInfo\<lparr>LinesRemoved := 3\<rparr>, [(''validation'', 1), (''security'', 1)])"
  by (simp add: scanDiff_split assms scan_declLine withRemoved_def)

lemma scan_token:
  assumes "removedCount text = 3" and "addedLines text = [declLine, tokenLine]"
  shows "scanDiff u text
    = (declInfo\<lparr>LinesAdded := 2, LinesRemoved := 3\<rparr>, [(''validation'', 1), (''security'', 2)])"
  by (simp add: scanDiff_split assms scan_declLine scan_tokenLine withRemoved_def)

lemma scan_brace:
  assumes "removedCount text = 3" and "addedLines text = [declLine, tokenLine, braceLine]"
  shows "scanDiff u text
    = (declInfo\<lparr>LinesAdded := 3, LinesRemoved := 3\<rparr>, [(''validation'', 1), (''security'', 2)])"
  by (simp add: scanDiff_split assms scan_declLine scan_tokenLine scan_braceLine withRemoved_def)

subsection \<open>The steps of the pipeline on this file\<close>

lemma modifiedStatus_contains: "modifiedStatus status \<Longrightarrow> modifiedOnly status"
proof -
  have "modifiedOnly ''M ''" "modifiedOnly '' M''" "modifiedOnly ''MM''" by code_simp+
  moreover assume "modifiedStatus status"
  ultimately show ?thesis by (auto simp add: modifiedStatus_def)
qed

lemma loginFile_type:
  assumes "modifiedOnly status" and "0 < LinesRemoved diff" and "Functions diff \<noteq> []"
  shows "determineAdvancedCommitType loginFile status diff
           = (if LinesAdded diff < LinesRemoved diff then ''fix'' else ''feat'')"
proof -
  have f: "\<not> hasSuffix loginFile ''.md''" "\<not> strContains loginFile ''README''"
    "\<not> strContains loginFile ''doc''" "\<not> strContains loginFile ''test''"
    "\<not> hasSuffix loginFile ''_test.go''" "\<not> hasSuffix loginFile ''.test.js''"
    "\<not> strContains loginFile ''config''" "\<not> hasSuffix loginFile ''.json''"
    "\<not> hasSuffix loginFile ''.yaml''" "\<not> hasSuffix loginFile ''.yml''"
    "\<not> hasSuffix loginFile ''.toml''" "\<not> hasSuffix loginFile ''.env''"
    "filepathBase loginFile = ''login.go''"
    by code_simp+
  from assms(1) have m: "strContains status ''M''" "\<not> strContains status ''A''"
    "\<not> strContains status ''D''"
    by (simp_all add: modifiedOnly_def)
  show ?thesis
    unfolding determineAdvancedCommitType_def Let_def
    using assms(2,3) by (simp add: f m containsBugFixKeywords_def)
qed

lemma loginFile_message:
  assumes "modifiedStatus status" and "Functions diff = name # others"
    and "contextPrefixOf (Context diff) \<noteq> []" and "descriptiveComment u diff = None"
  shows "generateSmartCommitMessage u loginFile status diff commitType
           = contextPrefixOf (Context diff) @ '' '' @ name"
proof -
  from assms(1) have s: "\<not> (status = ''A '' \<or> status = '' A'')" "\<not> (status = ''D '' \<or> status = '' D'')"
    "status = ''M '' \<or> status = '' M'' \<or> status = ''MM''"
    by (auto simp add: modifiedStatus_def)
  show ?thesis
    unfolding generateSmartCommitMessage_def Let_def
    by (simp add: assms(2,3,4) s modifiedMessage_def del: One_nat_def)
qed

lemma loginFile_scope: "determineScope loginFile = ''auth''"
  by code_simp

lemma loginFile_analysis:
  assumes "modifiedStatus status" and "Functions diff = name # others"
    and "contextPrefixOf (Context diff) \<noteq> []" and "descriptiveComment u diff = None"
    and "0 < LinesRemoved diff"
  shows "analyzeFileChange u (loginChange status) diff =
     (if LinesAdded diff < LinesRemoved diff
      then \<lparr>AnalysisType = ''fix'',
            AnalysisMessage = ''fix(auth): '' @ contextPrefixOf (Context diff) @ '' '' @ name,
            AnalysisScope = ''auth''\<rparr>
      else \<lparr>AnalysisType = ''feat'',
            AnalysisMessage = ''feat(auth): '' @ contextPrefixOf (Context diff) @ '' '' @ name,
            AnalysisScope = ''auth''\<rparr>)"
proof -
  from assms(2) have n: "Functions diff \<noteq> []" by simp
  have t: "determineAdvancedCommitType loginFile status diff
             = (if LinesAdded diff < LinesRemoved diff then ''fix'' else ''feat'')"
    by (rule loginFile_type [OF modifiedStatus_contains [OF assms(1)] assms(5) n])
  have m: "generateSmartCommitMessage u loginFile status diff commitType
             = contextPrefixOf (Context diff) @ '' '' @ name"
    for commitType
    by (rule loginFile_message [OF assms(1-4)])
  show ?thesis
    by (simp add: analyzeFileChange_def loginChange_def t m loginFile_scope formatConventionalCommit_def)
qed

lemma prefix_security: "contextPrefixOf ''security'' = ''improve security in''"
  by code_simp

lemma prefix_validation: "contextPrefixOf ''validation'' = ''add validation for''"
  by code_simp

lemma hits_of_scan:
  "scanDiff u text = (info, counts) \<Longrightarrow> keywordHits u text t = lookupCount counts t"
  by (simp add: topicCount_hits [symmetric] topicCount_def contextCounts_def)

lemma strictly_security:
  "scanDiff u text = (info, [(''validation'', 1), (''security'', 2)]) \<Longrightarrow>
   strictlyHighest u text ''security''"
  by (simp add: strictlyHighest_def hits_of_scan topics_def vocabularies_def lookupCount_def)

lemma fields_of_scan:
  "scanDiff u text = (info, counts) \<Longrightarrow>
   LinesAdded (parseDiffOutput u order text) = LinesAdded info
   \<and> LinesRemoved (parseDiffOutput u order text) = LinesRemoved info
   \<and> Functions (parseDiffOutput u order text) = Functions info
   \<and> descriptiveComment u (parseDiffOutput u order text) = descriptiveComment u info"
  by (simp add: parseDiffOutput_def descriptiveComment_def)

lemma tie_hits:
  "scanDiff u text = (info, [(''validation'', 1), (''security'', 1)]) \<Longrightarrow>
   keywordHits u text t = (if t = ''validation'' \<or> t = ''security'' then 1 else 0)"
  by (simp add: hits_of_scan lookupCount_def)

lemma tie_topics:
  "scanDiff u text = (info, [(''validation'', 1), (''security'', 1)]) \<Longrightarrow>
   map (keywordHits u text) topics = [0, 1, 0, 1, 0]"
  by (simp add: tie_hits topics_def vocabularies_def)

lemma tie_highest:
  assumes "scanDiff u text = (info, [(''validation'', 1), (''security'', 1)])"
  shows "highest u text t = (t = ''validation'' \<or> t = ''security'')"
  by (simp add: highest_def tie_hits [OF assms] list_all_iff)

lemma tie_visited:
  assumes "scanDiff u text = (info, [(''validation'', 1), (''security'', 1)])"
  shows "set (visited u order text) = {''validation'', ''security''}"
proof (rule set_eqI)
  fix x
  show "(x \<in> set (visited u order text)) = (x \<in> {''validation'', ''security''})"
    by (simp add: visited_hits tie_hits [OF assms])
qed

lemma tie_context:
  assumes "scanDiff u text = (info, [(''validation'', 1), (''security'', 1)])"
  shows "Context (parseDiffOutput u order text) = hd (visited u order text)"
proof -
  have p: "0 < keywordHits u text ''security''"
    by (simp add: tie_hits [OF assms])
  have "\<forall>x \<in> set (visited u order text). highest u text x"
    unfolding tie_visited [OF assms] by (simp add: tie_highest [OF assms])
  then have "filter (highest u text) (visited u order text) = visited u order text"
    by (simp add: filter_id_conv)
  with Context_first_highest [OF p, of order] show ?thesis by simp
qed

lemma tie_two:
  assumes "scanDiff u text = (info, [(''validation'', 1), (''security'', 1)])"
  shows "Context (parseDiffOutput u order text) = ''validation''
      \<or> Context (parseDiffOutput u order text) = ''security''"
proof -
  have "set (visited u order text) \<noteq> {}"
    unfolding tie_visited [OF assms] by simp
  then have "visited u order text \<noteq> []" by simp
  then have "hd (visited u order text) \<in> set (visited u order text)" by (rule hd_in_set)
  then have "Context (parseDiffOutput u order text) \<in> {''validation'', ''security''}"
    unfolding tie_context [OF assms] tie_visited [OF assms] .
  then show ?thesis by blast
qed

lemma decl_analysis:
  assumes m: "modifiedStatus status"
    and s: "scanDiff u text = (declInfo\<lparr>LinesRemoved := 3\<rparr>, [(''validation'', 1), (''security'', 1)])"
  shows "analyzeFileChange u (loginChange status) (parseDiffOutput u order text) =
       (if Context (parseDiffOutput u order text) = ''security''
        then \<lparr>AnalysisType = ''fix'',
              AnalysisMessage = ''fix(auth): improve security in ValidateToken'',
              AnalysisScope = ''auth''\<rparr>
        else \<lparr>AnalysisType = ''fix'',
              AnalysisMessage = ''fix(auth): add validation for ValidateToken'',
              AnalysisScope = ''auth''\<rparr>)"
proof -
  from fields_of_scan [OF s, of order] have
    f: "LinesAdded (parseDiffOutput u order text) = 1"
      "LinesRemoved (parseDiffOutput u order text) = 3"
      "Functions (parseDiffOutput u order text) = ''ValidateToken'' # []"
      "descriptiveComment u (parseDiffOutput u order text) = None"
    by (simp_all add: declInfo_def descriptiveComment_def)
  have r: "0 < LinesRemoved (parseDiffOutput u order text)" by (simp add: f)
  from tie_two [OF s, of order] show ?thesis
  proof
    assume e: "Context (parseDiffOutput u order text) = ''validation''"
    then have p: "contextPrefixOf (Context (parseDiffOutput u order text)) \<noteq> []"
      by (simp add: prefix_validation)
    have n: "''validation'' \<noteq> ''security''" by simp
    have "analyzeFileChange u (loginChange status) (parseDiffOutput u order text) =
        \<lparr>AnalysisType = ''fix'',
              AnalysisMessage = ''fix(auth): add validation for ValidateToken'',
              AnalysisScope = ''auth''\<rparr>"
      unfolding loginFile_analysis [OF m f(3) p f(4) r] e prefix_validation f by simp
    then show ?thesis unfolding e using n by simp
  next
    assume e: "Context (parseDiffOutput u order text) = ''security''"
    then have p: "contextPrefixOf (Context (parseDiffOutput u order text)) \<noteq> []"
      by (simp add: prefix_security)
    have "analyzeFileChange u (loginChange status) (parseDiffOutput u order text) =
        \<lparr>AnalysisType = ''fix'',
              AnalysisMessage = ''fix(auth): improve security in ValidateToken'',
              AnalysisScope = ''auth''\<rparr>"
      unfolding loginFile_analysis [OF m f(3) p f(4) r] e prefix_security f by simp
    then show ?thesis unfolding e by simp
  qed
qed

lemma security_case:
  assumes m: "modifiedStatus status"
    and s: "scanDiff u text = (declInfo\<lparr>LinesAdded := n, LinesRemoved := 3\<rparr>,
              [(''validation'', 1), (''security'', 2)])"
  shows "Context (parseDiffOutput u order text) = ''security''"
    and "analyzeFileChange u (loginChange status) (parseDiffOutput u order text) =
       (if n < 3
        then \<lparr>AnalysisType = ''fix'',
              AnalysisMessage = ''fix(auth): improve security in ValidateToken'',
              AnalysisScope = ''auth''\<rparr>
        else \<lparr>AnalysisType = ''feat'',
              AnalysisMessage = ''feat(auth): improve security in ValidateToken'',
              AnalysisScope = ''auth''\<rparr>)"
proof -
  show c: "Context (parseDiffOutput u order text) = ''security''"
    by (rule Context_strict [OF strictly_security [OF s]])
  from fields_of_scan [OF s, of order] have
    f: "LinesAdded (parseDiffOutput u order text) = n"
      "LinesRemoved (parseDiffOutput u order text) = 3"
      "Functions (parseDiffOutput u order text) = ''ValidateToken'' # []"
      "descriptiveComment u (parseDiffOutput u order text) = None"
    by (simp_all add: declInfo_def descriptiveComment_def)
  have p: "contextPrefixOf (Context (parseDiffOutput u order text)) \<noteq> []"
    by (simp add: c prefix_security)
  from loginFile_analysis [OF m f(3) p f(4)]
  show "analyzeFileChange u (loginChange status) (parseDiffOutput u order text) =
       (if n < 3
        then \<lparr>AnalysisType = ''fix'',
              AnalysisMessage = ''fix(auth): improve security in ValidateToken'',
              AnalysisScope = ''auth''\<rparr>
        else \<lparr>AnalysisType = ''feat'',
              AnalysisMessage = ''feat(auth): improve security in ValidateToken'',
              AnalysisScope = ''auth''\<rparr>)"
    by (simp add: f c prefix_security)
qed

lemma shape_loginDeclDiff: "removedCount loginDeclDiff = 3 \<and> addedLines loginDeclDiff = [declLine]"
  by code_simp

lemma shape_loginDiff: "removedCount loginDiff = 3 \<and> addedLines loginDiff = [declLine, tokenLine]"
  by code_simp

lemma shape_loginDiffBrace:
  "removedCount loginDiffBrace = 3 \<and> addedLines loginDiffBrace = [declLine, tokenLine, braceLine]"
  by code_simp

lemma visited_loginDeclDiff:
  "visited u [] loginDeclDiff = [''validation'', ''security'']"
  "visited u [''security''] loginDeclDiff = [''security'', ''validation'']"
proof -
  from shape_loginDeclDiff have s: "contextCounts u loginDeclDiff = [(''validation'', 1), (''security'', 1)]"
    by (simp add: contextCounts_def scan_decl)
  show "visited u [] loginDeclDiff = [''validation'', ''security'']"
    by (simp add: visited_def s mapRange_def)
  show "visited u [''security''] loginDeclDiff = [''security'', ''validation'']"
    by (simp add: visited_def s mapRange_def)
qed

text \<open>
  Claim C8, as stated, fails.  The first diff removes three lines and adds one line, the
  declaration of \<open>ValidateToken\<close>, which contains \<open>token\<close>.  With more removed than added
  lines the classifier returns \<open>fix\<close> before it looks at the functions, so the message
  starts with \<open>fix\<close>, not with \<open>feat\<close>.  The line has one hit for \<open>validation\<close>
  (\<open>validate\<close>) and one for \<open>security\<close> (\<open>token\<close>): when the map of the counters is visited
  in the order in which its keys were written the dominant context is \<open>validation\<close> and
  the message \<^verbatim>\<open>fix(auth): add validation for ValidateToken\<close>; when \<open>security\<close> is
  visited first the context is \<open>security\<close> and the message
  \<^verbatim>\<open>fix(auth): improve security in ValidateToken\<close>.  The second diff, which adds a
  further line that contains \<open>token\<close>, gets this message too.  (The texts are ASCII, so
  the Unicode mapping is not called; \<open>id\<close> stands for it.)
\<close>

theorem login_suggestion_fix:
  "removedCount loginDeclDiff = 3
   \<and> addedLines loginDeclDiff = [declLine]
   \<and> Functions (parseDiffOutput id [] loginDeclDiff) = [''ValidateToken'']
   \<and> map (keywordHits id loginDeclDiff) topics = [0, 1, 0, 1, 0]
   \<and> Context (parseDiffOutput id [] loginDeclDiff) = ''validation''
   \<and> analyzeFileChange id (loginChange ''M '') (parseDiffOutput id [] loginDeclDiff) =
       \<lparr>AnalysisType = ''fix'', AnalysisMessage = ''fix(auth): add validation for ValidateToken'',
        AnalysisScope = ''auth''\<rparr>
   \<and> Context (parseDiffOutput id [''security''] loginDeclDiff) = ''security''
   \<and> analyzeFileChange id (loginChange ''M '') (parseDiffOutput id [''security''] loginDeclDiff) =
       \<lparr>AnalysisType = ''fix'', AnalysisMessage = ''fix(auth): improve security in ValidateToken'',
        AnalysisScope = ''auth''\<rparr>
   \<and> removedCount loginDiff = 3
   \<and> addedLines loginDiff = [declLine, tokenLine]
   \<and> Context (parseDiffOutput id [] loginDiff) = ''security''
   \<and> analyzeFileChange id (loginChange ''M '') (parseDiffOutput id [] loginDiff) =
       \<lparr>AnalysisType = ''fix'', AnalysisMessage = ''fix(auth): improve security in ValidateToken'',
        AnalysisScope = ''auth''\<rparr>"
proof -
  have m: "modifiedStatus ''M ''" by (simp add: modifiedStatus_def)
  from shape_loginDeclDiff have d: "removedCount loginDeclDiff = 3" "addedLines loginDeclDiff = [declLine]"
    by simp_all
  from shape_loginDiff have t: "removedCount loginDiff = 3" "addedLines loginDiff = [declLine, tokenLine]"
    by simp_all
  note sd = scan_decl [OF d, of id]
  note st = scan_token [OF t, of id]
  have f: "Functions (parseDiffOutput id [] loginDeclDiff) = [''ValidateToken'']"
    using fields_of_scan [OF sd, of "[]"] by (simp add: declInfo_def)
  have c1: "Context (parseDiffOutput id [] loginDeclDiff) = ''validation''"
    by (simp add: tie_context [OF sd] visited_loginDeclDiff)
  have c2: "Context (parseDiffOutput id [''security''] loginDeclDiff) = ''security''"
    by (simp add: tie_context [OF sd] visited_loginDeclDiff)
  have a1: "analyzeFileChange id (loginChange ''M '') (parseDiffOutput id [] loginDeclDiff) =
       \<lparr>AnalysisType = ''fix'', AnalysisMessage = ''fix(auth): add validation for ValidateToken'',
        AnalysisScope = ''auth''\<rparr>"
    unfolding decl_analysis [OF m sd] c1 by simp
  have a2: "analyzeFileChange id (loginChange ''M '') (parseDiffOutput id [''security''] loginDeclDiff) =
       \<lparr>AnalysisType = ''fix'', AnalysisMessage = ''fix(auth): improve security in ValidateToken'',
        AnalysisScope = ''auth''\<rparr>"
    unfolding decl_analysis [OF m sd] c2 by simp
  have c3: "Context (parseDiffOutput id [] loginDiff) = ''security''"
    by (rule security_case(1) [OF m st])
  have a3: "analyzeFileChange id (loginChange ''M '') (parseDiffOutput id [] loginDiff) =
       \<lparr>AnalysisType = ''fix'', AnalysisMessage = ''fix(auth): improve security in ValidateToken'',
        AnalysisScope = ''auth''\<rparr>"
    unfolding security_case(2) [OF m st] by simp
  from d t f tie_topics [OF sd] c1 a1 c2 a2 c3 a3 show ?thesis by blast
qed

text \<open>
  Claim C8, amended: for the modified file \<^verbatim>\<open>src/auth/login.go\<close> (status \<^verbatim>\<open>"M "\<close>,
  \<^verbatim>\<open>" M"\<close> or \<^verbatim>\<open>"MM"\<close>) and every diff text that removes three lines, whatever
  the order in which the map of the counters is visited and whatever the other lines of
  the text are, the scope is \<open>auth\<close> and:
  \<^item> when the declaration \<^verbatim>\<open>func ValidateToken(t string) bool {\<close> is the only added
    line, \<open>validation\<close> and \<open>security\<close> have one keyword hit each, the dominant context is
    the one of the two that is visited first, and the message is
    \<^verbatim>\<open>fix(auth): improve security in ValidateToken\<close> when that is \<open>security\<close> and
    \<^verbatim>\<open>fix(auth): add validation for ValidateToken\<close> when it is \<open>validation\<close>;
  \<^item> when the line \<^verbatim>\<open>return token.Valid(t)\<close> is added after it, the dominant context is
    \<open>security\<close> and the message \<^verbatim>\<open>fix(auth): improve security in ValidateToken\<close>;
  \<^item> when the closing brace is added as well, so that as many lines are added as are
    removed, the dominant context is \<open>security\<close> and the message is
    \<^verbatim>\<open>feat(auth): improve security in ValidateToken\<close>.
\<close>

theorem login_suggestion:
  assumes "modifiedStatus status" and "removedCount text = 3"
  shows
   "(addedLines text = [declLine] \<longrightarrow>
       map (keywordHits u text) topics = [0, 1, 0, 1, 0]
       \<and> set (visited u order text) = {''validation'', ''security''}
       \<and> Context (parseDiffOutput u order text) = hd (visited u order text)
       \<and> analyzeFileChange u (loginChange status) (parseDiffOutput u order text) =
           (if Context (parseDiffOutput u order text) = ''security''
            then \<lparr>AnalysisType = ''fix'',
                  AnalysisMessage = ''fix(auth): improve security in ValidateToken'',
                  AnalysisScope = ''auth''\<rparr>
            else \<lparr>AnalysisType = ''fix'',
                  AnalysisMessage = ''fix(auth): add validation for ValidateToken'',
                  AnalysisScope = ''auth''\<rparr>))
    \<and> (addedLines text = [declLine, tokenLine] \<longrightarrow>
         Context (parseDiffOutput u order text) = ''security''
         \<and> analyzeFileChange u (loginChange status) (parseDiffOutput u order text) =
             \<lparr>AnalysisType = ''fix'',
              AnalysisMessage = ''fix(auth): improve security in ValidateToken'',
              AnalysisScope = ''auth''\<rparr>)
    \<and> (addedLines text = [declLine, tokenLine, braceLine] \<longrightarrow>
         Context (parseDiffOutput u order text) = ''security''
         \<and> analyzeFileChange u (loginChange status) (parseDiffOutput u order text) =
             \<lparr>AnalysisType = ''feat'',
              AnalysisMessage = ''feat(auth): improve security in ValidateToken'',
              AnalysisScope = ''auth''\<rparr>)"
proof (intro conjI impI)
  assume a: "addedLines text = [declLine]"
  note s = scan_decl [OF assms(2) a, of u]
  show "map (keywordHits u text) topics = [0, 1, 0, 1, 0]" by (rule tie_topics [OF s])
  show "set (visited u order text) = {''validation'', ''security''}" by (rule tie_visited [OF s])
  show "Context (parseDiffOutput u order text) = hd (visited u order text)"
    by (rule tie_context [OF s])
  show "analyzeFileChange u (loginChange status) (parseDiffOutput u order text) =
           (if Context (parseDiffOutput u order text) = ''security''
            then \<lparr>AnalysisType = ''fix'',
                  AnalysisMessage = ''fix(auth): improve security in ValidateToken'',
                  AnalysisScope = ''auth''\<rparr>
            else \<lparr>AnalysisType = ''fix'',
                  AnalysisMessage = ''fix(auth): add validation for ValidateToken'',
                  AnalysisScope = ''auth''\<rparr>)"
    by (rule decl_analysis [OF assms(1) s])
next
  assume a: "addedLines text = [declLine, tokenLine]"
  note s = scan_token [OF assms(2) a, of u]
  show "Context (parseDiffOutput u order text) = ''security''"
    by (rule security_case(1) [OF assms(1) s])
  show "analyzeFileChange u (loginChange status) (parseDiffOutput u order text) =
             \<lparr>AnalysisType = ''fix'',
              AnalysisMessage = ''fix(auth): improve security in ValidateToken'',
              AnalysisScope = ''auth''\<rparr>"
    unfolding security_case(2) [OF assms(1) s] by simp
next
  assume a: "addedLines text = [declLine, tokenLine, braceLine]"
  note s = scan_brace [OF assms(2) a, of u]
  show "Context (parseDiffOutput u order text) = ''security''"
    by (rule security_case(1) [OF assms(1) s])
  show "analyzeFileChange u (loginChange status) (parseDiffOutput u order text) =
             \<lparr>AnalysisType = ''feat'',
              AnalysisMessage = ''feat(auth): improve security in ValidateToken'',
              AnalysisScope = ''auth''\<rparr>"
    unfolding security_case(2) [OF assms(1) s] by simp
qed

theorem login_suggestion_witness:
  "modifiedStatus '' M''
   \<and> removedCount loginDeclDiff = 3 \<and> addedLines loginDeclDiff = [declLine]
   \<and> visited id [''security''] loginDeclDiff = [''security'', ''validation'']
   \<and> Context (parseDiffOutput id [''security''] loginDeclDiff) = ''security''
   \<and> analyzeFileChange id (loginChange '' M'') (parseDiffOutput id [''security''] loginDeclDiff) =
       \<lparr>AnalysisType = ''fix'', AnalysisMessage = ''fix(auth): improve security in ValidateToken'',
        AnalysisScope = ''auth''\<rparr>
   \<and> removedCount loginDiff = 3 \<and> addedLines loginDiff = [declLine, tokenLine]
   \<and> analyzeFileChange id (loginChange '' M'') (parseDiffOutput id [''validation''] loginDiff) =
       \<lparr>AnalysisType = ''fix'', AnalysisMessage = ''fix(auth): improve security in ValidateToken'',
        AnalysisScope = ''auth''\<rparr>
   \<and> removedCount loginDiffBrace = 3
   \<and> addedLines loginDiffBrace = [declLine, tokenLine, braceLine]
   \<and> Context (parseDiffOutput id [''validation''] loginDiffBrace) = ''security''
   \<and> analyzeFileChange id (loginChange '' M'') (parseDiffOutput id [''validation''] loginDiffBrace) =
       \<lparr>AnalysisType = ''feat'', AnalysisMessage = ''feat(auth): improve security in ValidateToken'',
        AnalysisScope = ''auth''\<rparr>"
proof -
  have m: "modifiedStatus '' M''" by (simp add: modifiedStatus_def)
  from shape_loginDeclDiff have d: "removedCount loginDeclDiff = 3" "addedLines loginDeclDiff = [declLine]"
    by simp_all
  from shape_loginDiff have t: "removedCount loginDiff = 3" "addedLines loginDiff = [declLine, tokenLine]"
    by simp_all
  from shape_loginDiffBrace have b: "removedCount loginDiffBrace = 3"
    "addedLines loginDiffBrace = [declLine, tokenLine, braceLine]"
    by simp_all
  from login_suggestion [OF m d(1), of id "[''security'']"] d(2)
  have 1: "Context (parseDiffOutput id [''security''] loginDeclDiff) = ''security''"
    and 2: "analyzeFileChange id (loginChange '' M'') (parseDiffOutput id [''security''] loginDeclDiff) =
       \<lparr>AnalysisType = ''fix'', AnalysisMessage = ''fix(auth): improve security in ValidateToken'',
        AnalysisScope = ''auth''\<rparr>"
    by (simp_all add: visited_loginDeclDiff)
  from login_suggestion [OF m t(1), of id "[''validation'']"] t(2)
  have 3: "analyzeFileChange id (loginChange '' M'') (parseDiffOutput id [''validation''] loginDiff) =
       \<lparr>AnalysisType = ''fix'', AnalysisMessage = ''fix(auth): improve security in ValidateToken'',
        AnalysisScope = ''auth''\<rparr>"
    by (simp add: declLine_def tokenLine_def)
  from login_suggestion [OF m b(1), of id "[''validation'']"] b(2)
  have 4: "Context (parseDiffOutput id [''validation''] loginDiffBrace) = ''security''"
    and 5: "analyzeFileChange id (loginChange '' M'') (parseDiffOutput id [''validation''] loginDiffBrace) =
       \<lparr>AnalysisType = ''feat'', AnalysisMessage = ''feat(auth): improve security in ValidateToken'',
        AnalysisScope = ''auth''\<rparr>"
    by (simp_all add: declLine_def tokenLine_def braceLine_def)
  from m d t b visited_loginDeclDiff(2) [of id] 1 2 3 4 5 show ?thesis by blast
qed

section \<open>The suggestion aggregator\<close>

text \<open>
  \<^verbatim>\<open>getFileDiff\<close> of the tabbed implementation runs \<^verbatim>\<open>git diff --cached\<close> on the
  file and, when that command fails, \<^verbatim>\<open>git diff\<close>, whose error it ignores.  What
  the aggregator reads from the outside is given by an \<open>analysisWorld\<close>: for a path, the
  output of the first command and whether it failed, and the output of the second; the
  orders in which the \<^verbatim>\<open>range\<close> loops visit the three Go maps (the counters of the
  contexts of a file, of the types and of the scopes); and the lower-case mapping of
  Unicode that \<^verbatim>\<open>strings.ToLower\<close> applies.
\<close>

record analysisWorld =
  diffCached :: "string \<Rightarrow> string \<times> bool"
  diffWorkTree :: "string \<Rightarrow> string"
  contextOrder :: "string \<Rightarrow> string list"
  typeOrder :: "string list"
  scopeOrder :: "string list"
  unicodeLower :: "string \<Rightarrow> string"

definition getFileDiff :: "analysisWorld \<Rightarrow> string \<Rightarrow> DiffInfo" where
  "getFileDiff w filePath =
     (case diffCached w filePath of
        (output, failed) \<Rightarrow>
          parseDiffOutput (unicodeLower w) (contextOrder w filePath)
            (if failed then diffWorkTree w filePath else output))"

text \<open>
  The scope that \<^verbatim>\<open>generateCombinedSuggestion\<close> reads back from a message: the text
  between the first \<^verbatim>\<open>(\<close> and the first \<^verbatim>\<open>):\<close>, when there is some.
\<close>

definition scopeOf :: "string \<Rightarrow> string option" where
  "scopeOf message =
     (if strContains message ''('' \<and> strContains message ''):'' then
        (let start = strIndex message ''('' + 1;
             stop = strIndex message ''):''
         in if stop > start then Some (take (nat (stop - start)) (drop (nat start) message))
            else None)
      else None)"

text \<open>
  The body of the loop over the individual suggestions, on the two maps of counters.
  (The loop of the tabbed implementation also collects the last words of the messages in
  a slice that nothing reads.)
\<close>

definition countStep :: "counters \<times> counters \<Rightarrow> CommitSuggestion \<Rightarrow> counters \<times> counters" where
  "countStep state suggestion =
     (case state of (typeCounts, scopeCounts) \<Rightarrow>
        (increment typeCounts (SuggestionType suggestion),
         case scopeOf (SuggestionMessage suggestion) of
           None \<Rightarrow> scopeCounts
         | Some scope \<Rightarrow> increment scopeCounts scope))"

text \<open>The key and the count that the search for the highest counter ends with.\<close>

definition mostCommon :: "string list \<Rightarrow> counters \<Rightarrow> string \<times> int" where
  "mostCommon order m = foldl maxStep ([], 0) (mapRange order m)"

definition sameTypeDescription :: "string \<Rightarrow> int \<Rightarrow> string" where
  "sameTypeDescription mainType totalFiles =
     (if mainType = ''feat'' then
        (if totalFiles = 1 then ''add new feature''
         else ''add new features across '' @ showInt totalFiles @ '' files'')
      else if mainType = ''fix'' then
        (if totalFiles = 1 then ''fix bug''
         else ''fix multiple bugs ('' @ showInt totalFiles @ '' files)'')
      else if mainType = ''docs'' then ''update documentation''
      else if mainType = ''test'' then ''update tests''
      else if mainType = ''chore'' then ''update configuration''
      else if mainType = ''refactor'' then ''refactor code''
      else ''update files'')"

definition generateCombinedSuggestion ::
  "string list \<Rightarrow> string list \<Rightarrow> CommitSuggestion list \<Rightarrow> GitChange list \<Rightarrow> CommitSuggestion" where
  "generateCombinedSuggestion types scopes individual changeList =
     (if length individual = 0 then \<lparr>SuggestionMessage = [], SuggestionType = []\<rparr>
      else
        (case foldl countStep ([], []) individual of
           (typeCounts, scopeCounts) \<Rightarrow>
             (case mostCommon types typeCounts of
                (mainType, maxTypeCount) \<Rightarrow>
                  (case mostCommon scopes scopeCounts of
                     (mainScope, maxScopeCount) \<Rightarrow>
                       (let totalFiles = int (length individual);
                            description =
                              (if length typeCounts = 1
                               then sameTypeDescription mainType totalFiles
                               else ''update '' @ showInt totalFiles @ '' files with mixed changes'');
                            finalScope =
                              (if maxScopeCount > totalFiles div 2 then mainScope else []);
                            message = formatConventionalCommit mainType finalScope description
                        in \<lparr>SuggestionMessage = message, SuggestionType = mainType\<rparr>)))))"

text \<open>\<^verbatim>\<open>analyzeChangesForCommits\<close> of the tabbed implementation.\<close>

definition individualSuggestion :: "analysisWorld \<Rightarrow> GitChange \<Rightarrow> CommitSuggestion" where
  "individualSuggestion w change =
     (let diffInfo = getFileDiff w (File change);
          analysis = analyzeFileChange (unicodeLower w) change diffInfo
      in \<lparr>SuggestionMessage = AnalysisMessage analysis, SuggestionType = AnalysisType analysis\<rparr>)"

definition analyzeChangesForCommits :: "analysisWorld \<Rightarrow> GitChange list \<Rightarrow> CommitSuggestion list" where
  "analyzeChangesForCommits w changeList =
     (let individualSuggestions = map (individualSuggestion w) changeList;
          combinedSuggestion =
            generateCombinedSuggestion (typeOrder w) (scopeOrder w) individualSuggestions changeList;
          suggestionList =
            (if SuggestionMessage combinedSuggestion \<noteq> [] then [combinedSuggestion] else []);
          suggestionList =
            (if length individualSuggestions \<le> 5 then suggestionList @ individualSuggestions
             else suggestionList)
      in if length suggestionList > 9 then take 9 suggestionList else suggestionList)"

text \<open>
  The same two functions in \<^verbatim>\<open>main.go\<close>: other wordings, the number of files appended
  to the description, 3 and 5 for 5 and 9.  The analysis of one file there
  (\<^verbatim>\<open>getFileDiff\<close>, which runs git, and \<^verbatim>\<open>analyzeFileChange\<close> on its result) is
  the parameter \<open>analyse\<close>.
\<close>

definition sameTypeDescription_main :: "string \<Rightarrow> string" where
  "sameTypeDescription_main mainType =
     (if mainType = ''feat'' then ''add features''
      else if mainType = ''fix'' then ''fix issues''
      else if mainType = ''docs'' then ''update docs''
      else if mainType = ''test'' then ''update tests''
      else if mainType = ''chore'' then ''update config''
      else if mainType = ''refactor'' then ''refactor code''
      else ''update files'')"

definition generateCombinedSuggestion_main ::
  "string list \<Rightarrow> string list \<Rightarrow> CommitSuggestion list \<Rightarrow> CommitSuggestion" where
  "generateCombinedSuggestion_main types scopes individual =
     (if length individual = 0 then \<lparr>SuggestionMessage = [], SuggestionType = []\<rparr>
      else
        (case foldl countStep ([], []) individual of
           (typeCounts, scopeCounts) \<Rightarrow>
             (case mostCommon types typeCounts of
                (mainType, maxTypeCount) \<Rightarrow>
                  (case mostCommon scopes scopeCounts of
                     (mainScope, maxScopeCount) \<Rightarrow>
                       (let totalFiles = int (length individual);
                            description =
                              (if length typeCounts = 1 then sameTypeDescription_main mainType
                               else ''update multiple files'');
                            description =
                              (if totalFiles > 1
                               then description @ '' ('' @ showInt totalFiles @ '' files)''
                               else description);
                            finalScope =
                              (if maxScopeCount > totalFiles div 2 then mainScope else []);
                            message = formatConventionalCommit mainType finalScope description
                        in \<lparr>SuggestionMessage = message, SuggestionType = mainType\<rparr>)))))"

definition analyzeChangesForCommits_main ::
  "(GitChange \<Rightarrow> FileAnalysis) \<Rightarrow> string list \<Rightarrow> string list \<Rightarrow> GitChange list
   \<Rightarrow> CommitSuggestion list" where
  "analyzeChangesForCommits_main analyse types scopes changeList =
     (let individualSuggestions =
            map (\<lambda>change. \<lparr>SuggestionMessage = AnalysisMessage (analyse change),
                            SuggestionType = AnalysisType (analyse change)\<rparr>) changeList;
          combinedSuggestion = generateCombinedSuggestion_main types scopes individualSuggestions;
          suggestionList =
            (if SuggestionMessage combinedSuggestion \<noteq> [] then [combinedSuggestion] else []);
          suggestionList =
            (if length individualSuggestions \<le> 3 then suggestionList @ individualSuggestions
             else suggestionList)
      in if length suggestionList > 5 then take 5 suggestionList else suggestionList)"

section \<open>Properties of the suggestion aggregator\<close>

text \<open>
  The number of individual suggestions of a type, and a type that no type of an individual
  suggestion outnumbers.
\<close>

definition typeCount :: "CommitSuggestion list \<Rightarrow> string \<Rightarrow> int" where
  "typeCount individual t = int (length (filter (\<lambda>s. SuggestionType s = t) individual))"

definition majorityType :: "CommitSuggestion list \<Rightarrow> string \<Rightarrow> bool" where
  "majorityType individual t =
     (0 < typeCount individual t
      \<and> list_all (\<lambda>s. typeCount individual (SuggestionType s) \<le> typeCount individual t) individual)"

text \<open>
  A world for the examples: \<^verbatim>\<open>git diff --cached\<close> prints one added line for
  \<^verbatim>\<open>README.md\<close> and fails for every other file, for which \<^verbatim>\<open>git diff\<close> prints
  two removed lines and an added one; the maps are visited in the order in which their
  keys were written; these texts are ASCII, so the Unicode mapping is not called, and \<open>id\<close>
  stands for it.  Lists of two, six and three modified files, and an analysis for
  \<^verbatim>\<open>main.go\<close> that reports every file as an added feature.
\<close>

definition stagedWorld :: analysisWorld where
  "stagedWorld =
     \<lparr>diffCached = (\<lambda>file. if file = ''README.md'' then (''+Usage notes'', False) else ([], True)),
      diffWorkTree = (\<lambda>file. (''-a'' @ [CHR 0x0A] @ ''-b'' @ [CHR 0x0A] @ ''+c'')),
      contextOrder = (\<lambda>file. []), typeOrder = [], scopeOrder = [], unicodeLower = id\<rparr>"

definition changed :: "string \<Rightarrow> GitChange" where
  "changed file = \<lparr>File = file, Status = ''M '', ChangeType = [], ChangeScope = []\<rparr>"

definition twoChanges :: "GitChange list" where
  "twoChanges = [changed ''README.md'', changed ''src/auth/login.go'']"

definition sixChanges :: "GitChange list" where
  "sixChanges = map changed [''a.go'', ''b.go'', ''c.go'', ''d.go'', ''e.go'', ''f.go'']"

definition threeChanges :: "GitChange list" where
  "threeChanges = map changed [''a.go'', ''b.go'', ''c.go'']"

definition addsFile :: "GitChange \<Rightarrow> FileAnalysis" where
  "addsFile change =
     \<lparr>AnalysisType = ''feat'', AnalysisMessage = ''feat: add '' @ File change, AnalysisScope = []\<rparr>"

subsection \<open>The counters of the types\<close>

lemma fst_countStep: "fst (countStep st s) = increment (fst st) (SuggestionType s)"
  by (cases st) (simp add: countStep_def)

lemma count_foldl_countStep:
  "lookupCount (fst (foldl countStep st ss)) t = lookupCount (fst st) t + typeCount ss t"
proof (induction ss arbitrary: st)
  case Nil
  show ?case by (simp add: typeCount_def)
next
  case (Cons s ss)
  show ?case
    by (simp add: Cons.IH fst_countStep lookupCount_increment typeCount_def)
qed

lemma positive_foldl_countStep:
  "positiveCounters (fst st) \<Longrightarrow> positiveCounters (fst (foldl countStep st ss))"
  by (induction ss arbitrary: st) (simp_all add: fst_countStep positiveCounters_increment)

lemma typeCounts_count:
  "lookupCount (fst (foldl countStep ([], []) ss)) t = typeCount ss t"
  by (simp add: count_foldl_countStep lookupCount_Nil)

lemma typeCounts_positive: "positiveCounters (fst (foldl countStep ([], []) ss))"
  by (rule positive_foldl_countStep) (simp add: positiveCounters_def)

lemma formatConventionalCommit_nonempty: "formatConventionalCommit t s d \<noteq> []"
  by (simp add: formatConventionalCommit_def)

lemma combined_type:
  "ss \<noteq> [] \<Longrightarrow>
   SuggestionType (generateCombinedSuggestion types scopes ss cl)
     = dominant types (fst (foldl countStep ([], []) ss))"
  by (simp add: generateCombinedSuggestion_def mostCommon_def dominant_def Let_def
      split: prod.split)

lemma combined_message:
  "ss \<noteq> [] \<Longrightarrow> SuggestionMessage (generateCombinedSuggestion types scopes ss cl) \<noteq> []"
  by (simp add: generateCombinedSuggestion_def Let_def formatConventionalCommit_nonempty
      split: prod.split)

lemma combined_type_main:
  "ss \<noteq> [] \<Longrightarrow>
   SuggestionType (generateCombinedSuggestion_main types scopes ss)
     = dominant types (fst (foldl countStep ([], []) ss))"
  by (simp add: generateCombinedSuggestion_main_def mostCommon_def dominant_def Let_def
      split: prod.split)

lemma combined_message_main:
  "ss \<noteq> [] \<Longrightarrow> SuggestionMessage (generateCombinedSuggestion_main types scopes ss) \<noteq> []"
  by (simp add: generateCombinedSuggestion_main_def Let_def formatConventionalCommit_nonempty
      split: prod.split)

lemma dominant_majority:
  "ss \<noteq> [] \<Longrightarrow> majorityType ss (dominant types (fst (foldl countStep ([], []) ss)))"
proof -
  assume "ss \<noteq> []"
  then obtain s rest where ss: "ss = s # rest" by (cases ss) auto
  have "0 < typeCount ss (SuggestionType s)" by (simp add: ss typeCount_def)
  then have "0 < lookupCount (fst (foldl countStep ([], []) ss)) (SuggestionType s)"
    by (simp add: typeCounts_count)
  from dominant_max [OF typeCounts_positive this, of types] show ?thesis
    by (simp add: majorityType_def typeCounts_count list_all_iff)
qed

text \<open>
  Claim C5.  For every non-empty list of changed files, in the tabbed implementation and
  in \<^verbatim>\<open>main.go\<close>: the result is the combined suggestion followed by the individual
  suggestions when the number of files is at most the cap (5 in the tabbed
  implementation, 3 in \<^verbatim>\<open>main.go\<close>), and the combined suggestion alone otherwise; it has
  at least one entry and at most 9 (at most 5 in \<^verbatim>\<open>main.go\<close>, which cuts at 5); and
  the type of the combined suggestion is a type that occurs among the individual
  suggestions and that none of their types outnumbers.  This holds for every output of
  git and every order in which the maps are visited.
\<close>

theorem analyzeChangesForCommits_shape:
  "changeList \<noteq> [] \<Longrightarrow>
   (let individual = map (individualSuggestion w) changeList;
        combined = generateCombinedSuggestion (typeOrder w) (scopeOrder w) individual changeList;
        result = analyzeChangesForCommits w changeList
    in result = combined # (if length changeList \<le> 5 then individual else [])
       \<and> 1 \<le> length result \<and> length result \<le> 9
       \<and> majorityType individual (SuggestionType combined))
   \<and> (let individual =
              map (\<lambda>change. \<lparr>SuggestionMessage = AnalysisMessage (analyse change),
                              SuggestionType = AnalysisType (analyse change)\<rparr>) changeList;
            combined = generateCombinedSuggestion_main types scopes individual;
            result = analyzeChangesForCommits_main analyse types scopes changeList
        in result = combined # (if length changeList \<le> 3 then individual else [])
           \<and> 1 \<le> length result \<and> length result \<le> 5
           \<and> majorityType individual (SuggestionType combined))"
proof -
  assume n: "changeList \<noteq> []"
  define ind where "ind = map (individualSuggestion w) changeList"
  define indm where "indm = map (\<lambda>change. \<lparr>SuggestionMessage = AnalysisMessage (analyse change),
                              SuggestionType = AnalysisType (analyse change)\<rparr>) changeList"
  from n have i: "ind \<noteq> []" and im: "indm \<noteq> []" by (simp_all add: ind_def indm_def)
  have l: "length ind = length changeList" "length indm = length changeList"
    by (simp_all add: ind_def indm_def)
  have r: "analyzeChangesForCommits w changeList
      = generateCombinedSuggestion (typeOrder w) (scopeOrder w) ind changeList
        # (if length changeList \<le> 5 then ind else [])"
    unfolding analyzeChangesForCommits_def ind_def [symmetric]
    using combined_message [OF i, of "typeOrder w" "scopeOrder w" changeList]
    by (simp add: Let_def l)
  have rm: "analyzeChangesForCommits_main analyse types scopes changeList
      = generateCombinedSuggestion_main types scopes indm
        # (if length changeList \<le> 3 then indm else [])"
    unfolding analyzeChangesForCommits_main_def indm_def [symmetric]
    using combined_message_main [OF im, of types scopes]
    by (simp add: Let_def l)
  have m: "majorityType ind (SuggestionType (generateCombinedSuggestion (typeOrder w) (scopeOrder w) ind changeList))"
    by (simp add: combined_type [OF i] dominant_majority [OF i])
  have mm: "majorityType indm (SuggestionType (generateCombinedSuggestion_main types scopes indm))"
    by (simp add: combined_type_main [OF im] dominant_majority [OF im])
  show ?thesis
    unfolding Let_def ind_def [symmetric] indm_def [symmetric]
    using m mm by (simp add: r rm l)
qed

theorem analyzeChangesForCommits_shape_witness:
  "twoChanges \<noteq> []
   \<and> analyzeChangesForCommits stagedWorld twoChanges =
       [\<lparr>SuggestionMessage = ''docs: update 2 files with mixed changes'', SuggestionType = ''docs''\<rparr>,
        \<lparr>SuggestionMessage = ''docs(docs): update README'', SuggestionType = ''docs''\<rparr>,
        \<lparr>SuggestionMessage = ''fix(auth): fix issues in login'', SuggestionType = ''fix''\<rparr>]
   \<and> sixChanges \<noteq> []
   \<and> analyzeChangesForCommits stagedWorld sixChanges =
       [\<lparr>SuggestionMessage = ''fix: fix multiple bugs (6 files)'', SuggestionType = ''fix''\<rparr>]
   \<and> analyzeChangesForCommits_main addsFile [] [] threeChanges =
       [\<lparr>SuggestionMessage = ''feat: add features (3 files)'', SuggestionType = ''feat''\<rparr>,
        \<lparr>SuggestionMessage = ''feat: add a.go'', SuggestionType = ''feat''\<rparr>,
        \<lparr>SuggestionMessage = ''feat: add b.go'', SuggestionType = ''feat''\<rparr>,
        \<lparr>SuggestionMessage = ''feat: add c.go'', SuggestionType = ''feat''\<rparr>]
   \<and> analyzeChangesForCommits_main addsFile [] [] sixChanges =
       [\<lparr>SuggestionMessage = ''feat: add features (6 files)'', SuggestionType = ''feat''\<rparr>]"
proof -
  have n: "twoChanges \<noteq> []" "sixChanges \<noteq> []" "threeChanges \<noteq> []"
    by (simp_all add: twoChanges_def sixChanges_def threeChanges_def)
  have two: "map (individualSuggestion stagedWorld) twoChanges =
       [\<lparr>SuggestionMessage = ''docs(docs): update README'', SuggestionType = ''docs''\<rparr>,
        \<lparr>SuggestionMessage = ''fix(auth): fix issues in login'', SuggestionType = ''fix''\<rparr>]"
    by code_simp
  have c2: "generateCombinedSuggestion (typeOrder stagedWorld) (scopeOrder stagedWorld)
       [\<lparr>SuggestionMessage = ''docs(docs): update README'', SuggestionType = ''docs''\<rparr>,
        \<lparr>SuggestionMessage = ''fix(auth): fix issues in login'', SuggestionType = ''fix''\<rparr>]
       twoChanges =
       \<lparr>SuggestionMessage = ''docs: update 2 files with mixed changes'', SuggestionType = ''docs''\<rparr>"
    by code_simp
  have c6: "generateCombinedSuggestion (typeOrder stagedWorld) (scopeOrder stagedWorld)
              (map (individualSuggestion stagedWorld) sixChanges) sixChanges =
       \<lparr>SuggestionMessage = ''fix: fix multiple bugs (6 files)'', SuggestionType = ''fix''\<rparr>"
    by code_simp
  have l: "length twoChanges = 2" "length sixChanges = 6" "length threeChanges = 3"
    by (simp_all add: twoChanges_def sixChanges_def threeChanges_def)
  have m3: "generateCombinedSuggestion_main [] []
              (map (\<lambda>change. \<lparr>SuggestionMessage = AnalysisMessage (addsFile change),
                              SuggestionType = AnalysisType (addsFile change)\<rparr>) threeChanges) =
       \<lparr>SuggestionMessage = ''feat: add features (3 files)'', SuggestionType = ''feat''\<rparr>"
    by code_simp
  have i3: "map (\<lambda>change. \<lparr>SuggestionMessage = AnalysisMessage (addsFile change),
                              SuggestionType = AnalysisType (addsFile change)\<rparr>) threeChanges =
       [\<lparr>SuggestionMessage = ''feat: add a.go'', SuggestionType = ''feat''\<rparr>,
        \<lparr>SuggestionMessage = ''feat: add b.go'', SuggestionType = ''feat''\<rparr>,
        \<lparr>SuggestionMessage = ''feat: add c.go'', SuggestionType = ''feat''\<rparr>]"
    by code_simp
  have m6: "generateCombinedSuggestion_main [] []
              (map (\<lambda>change. \<lparr>SuggestionMessage = AnalysisMessage (addsFile change),
                              SuggestionType = AnalysisType (addsFile change)\<rparr>) sixChanges) =
       \<lparr>SuggestionMessage = ''feat: add features (6 files)'', SuggestionType = ''feat''\<rparr>"
    by code_simp
  from analyzeChangesForCommits_shape [OF n(1), of stagedWorld addsFile "[]" "[]"]
  have 1: "analyzeChangesForCommits stagedWorld twoChanges =
       [\<lparr>SuggestionMessage = ''docs: update 2 files with mixed changes'', SuggestionType = ''docs''\<rparr>,
        \<lparr>SuggestionMessage = ''docs(docs): update README'', SuggestionType = ''docs''\<rparr>,
        \<lparr>SuggestionMessage = ''fix(auth): fix issues in login'', SuggestionType = ''fix''\<rparr>]"
    by (simp add: Let_def l c2 two)
  from analyzeChangesForCommits_shape [OF n(2), of stagedWorld addsFile "[]" "[]"]
  have 2: "analyzeChangesForCommits stagedWorld sixChanges =
       [\<lparr>SuggestionMessage = ''fix: fix multiple bugs (6 files)'', SuggestionType = ''fix''\<rparr>]"
    and 4: "analyzeChangesForCommits_main addsFile [] [] sixChanges =
       [\<lparr>SuggestionMessage = ''feat: add features (6 files)'', SuggestionType = ''feat''\<rparr>]"
    by (simp_all add: Let_def l c6 m6)
  from analyzeChangesForCommits_shape [OF n(3), of stagedWorld addsFile "[]" "[]"]
  have 3: "analyzeChangesForCommits_main addsFile [] [] threeChanges =
       [\<lparr>SuggestionMessage = ''feat: add features (3 files)'', SuggestionType = ''feat''\<rparr>,
        \<lparr>SuggestionMessage = ''feat: add a.go'', SuggestionType = ''feat''\<rparr>,
        \<lparr>SuggestionMessage = ''feat: add b.go'', SuggestionType = ''feat''\<rparr>,
        \<lparr>SuggestionMessage = ''feat: add c.go'', SuggestionType = ''feat''\<rparr>]"
    by (simp add: Let_def l m3 [unfolded i3] i3)
  from n 1 2 3 4 show ?thesis by simp
qed

end
